(* ===== verification/Noob_Prelude.thy ===== *)
theory Noob_Prelude
  imports Main "HOL-Library.Word" "HOL-Library.Monad_Syntax"
begin

text \<open>
  Shared ground of the development: the machine integer types of the firmware, the parts of the
  C and Arduino string library that the sources use (decimal printing, case folding, space
  separated tokens, \<open>strtol\<close>), and the platform clock.

  An Arduino \<open>String\<close> and a \<open>const char *\<close> are both \<^typ>\<open>string\<close> values; a pointer that the
  code compares with null is an option. A \<open>position\<close> variable that only moves forward through a
  text is modelled by the suffix that starts at that position.
\<close>

unbundle bit_operations_syntax

section \<open>Machine integers\<close>

type_synonym u8 = "8 word"
type_synonym u16 = "16 word"
type_synonym u32 = "32 word"
type_synonym int32 = "32 word"

named_theorems noob_inv \<open>preservation of component invariants\<close>
named_theorems noob_string \<open>rewriting of printed and parsed text\<close>

section \<open>Characters and text\<close>

definition isDigit :: "char \<Rightarrow> bool" where
  "isDigit c \<longleftrightarrow> 48 \<le> (of_char c :: nat) \<and> (of_char c :: nat) \<le> 57"

definition digit_value :: "char \<Rightarrow> int" where
  "digit_value c = int (of_char c) - 48"

definition digit_char :: "nat \<Rightarrow> char" where
  "digit_char n = char_of (48 + n)"

definition toUpper :: "char \<Rightarrow> char" where
  "toUpper c = (if 97 \<le> (of_char c :: nat) \<and> (of_char c :: nat) \<le> 122
                then char_of ((of_char c :: nat) - 32) else c)"

definition toUpperCase :: "string \<Rightarrow> string" where
  "toUpperCase s = map toUpper s"

definition equalsIgnoreCase :: "string \<Rightarrow> string \<Rightarrow> bool" where
  "equalsIgnoreCase a b \<longleftrightarrow> toUpperCase a = toUpperCase b"

definition printable :: "char \<Rightarrow> bool" where
  "printable c \<longleftrightarrow> 32 \<le> (of_char c :: nat) \<and> (of_char c :: nat) \<le> 126"

fun show_nat :: "nat \<Rightarrow> string" where
  "show_nat n = (if n < 10 then [digit_char n] else show_nat (n div 10) @ [digit_char (n mod 10)])"

declare show_nat.simps [simp del]

definition show_int :: "int \<Rightarrow> string" where
  "show_int n = (if n < 0 then CHR ''-'' # show_nat (nat (- n)) else show_nat (nat n))"

definition show_i32 :: "int32 \<Rightarrow> string" where
  "show_i32 w = show_int (sint w)"

definition show_bool :: "bool \<Rightarrow> string" where
  "show_bool b = (if b then ''1'' else ''0'')"

definition digits_value :: "string \<Rightarrow> int" where
  "digits_value ds = foldl (\<lambda>a c. a * 10 + digit_value c) 0 ds"

fun join_with :: "string \<Rightarrow> string list \<Rightarrow> string" where
  "join_with sep [] = []"
| "join_with sep [x] = x"
| "join_with sep (x # y # ys) = x @ sep @ join_with sep (y # ys)"

section \<open>Tokens\<close>

definition skip_spaces :: "string \<Rightarrow> string" where
  "skip_spaces s = dropWhile (\<lambda>c. c = CHR '' '') s"

definition next_token :: "string \<Rightarrow> string \<times> string" where
  "next_token s = (let r = skip_spaces s
     in (takeWhile (\<lambda>c. c \<noteq> CHR '' '') r, dropWhile (\<lambda>c. c \<noteq> CHR '' '') r))"

section \<open>The C conversion functions\<close>

definition c_str :: "string \<Rightarrow> string" where
  "c_str s = takeWhile (\<lambda>c. c \<noteq> CHR 0x00) s"

definition c_isspace :: "char \<Rightarrow> bool" where
  "c_isspace c \<longleftrightarrow> c = CHR '' '' \<or> (9 \<le> (of_char c :: nat) \<and> (of_char c :: nat) \<le> 13)"

text \<open>
  \<open>strtol\<close> and \<open>strtoll\<close> in base ten: the value saturated to \<open>lo..hi\<close>, the text at which the
  end pointer stands, and whether \<open>errno\<close> was set to \<open>ERANGE\<close>. With no digits the end pointer
  is the start of the text.
\<close>

definition split_sign :: "string \<Rightarrow> bool \<times> string" where
  "split_sign t = (case t of [] \<Rightarrow> (False, [])
     | c # cs \<Rightarrow> if c = CHR ''-'' then (True, cs)
                 else if c = CHR ''+'' then (False, cs) else (False, t))"

definition strtol10 :: "int \<Rightarrow> int \<Rightarrow> string \<Rightarrow> int \<times> string \<times> bool" where
  "strtol10 lo hi s =
     (let (neg, u) = split_sign (dropWhile c_isspace (c_str s));
          ds = takeWhile isDigit u;
          v = (if neg then - digits_value ds else digits_value ds)
      in if ds = [] then (0, c_str s, False)
         else (max lo (min hi v), dropWhile isDigit u, v < lo \<or> hi < v))"

definition INT32_MAX :: int where "INT32_MAX = 2147483647"
definition INT32_MIN :: int where "INT32_MIN = - 2147483648"
definition INT64_MAX :: int where "INT64_MAX = 9223372036854775807"
definition INT64_MIN :: int where "INT64_MIN = - 9223372036854775808"

text \<open>\<open>String::toInt\<close> is \<open>strtol\<close> on the 32-bit \<open>long\<close> of the target.\<close>

definition toInt :: "string \<Rightarrow> int" where
  "toInt s = fst (strtol10 INT32_MIN INT32_MAX s)"

section \<open>The platform clock\<close>

text \<open>
  \<open>millis()\<close> is a platform function: every call may return a later value. The world carries the
  whole (arbitrary) sequence of readings and how many were taken. Components extend this record
  with their own state; native functions act on the extended world.
\<close>

record noob_world =
  clock :: "nat \<Rightarrow> u32"
  clock_reads :: nat

definition millis :: "'a noob_world_scheme \<Rightarrow> u32 \<times> 'a noob_world_scheme" where
  "millis w = (clock w (clock_reads w), w\<lparr>clock_reads := Suc (clock_reads w)\<rparr>)"

text \<open>\<open>static_cast<int32_t>(now - at) < 0\<close>: the wrap-around test for "not yet due".\<close>

definition not_due :: "u32 \<Rightarrow> u32 \<Rightarrow> bool" where
  "not_due now at = (sint (now - at) < 0)"

section \<open>Lemmas on text\<close>

lemma toUpper_idem [simp]: "toUpper (toUpper c) = toUpper c"
  by (auto simp: toUpper_def)

lemma toUpperCase_idem [simp]: "toUpperCase (toUpperCase s) = toUpperCase s"
  by (simp add: toUpperCase_def o_def)

lemma equalsIgnoreCase_refl [simp]: "equalsIgnoreCase s s"
  by (simp add: equalsIgnoreCase_def)

lemma equalsIgnoreCase_sym: "equalsIgnoreCase a b \<longleftrightarrow> equalsIgnoreCase b a"
  by (auto simp: equalsIgnoreCase_def)

lemma of_char_digit_char [simp]: "n < 10 \<Longrightarrow> of_char (digit_char n) = (48 + n :: nat)"
  by (simp add: digit_char_def)

lemma isDigit_digit_char [simp]: "n < 10 \<Longrightarrow> isDigit (digit_char n)"
  by (simp add: isDigit_def)

lemma digit_value_digit_char [simp]: "n < 10 \<Longrightarrow> digit_value (digit_char n) = int n"
  by (simp add: digit_value_def)

lemma show_nat_digits: "c \<in> set (show_nat n) \<Longrightarrow> isDigit c"
proof (induction n rule: show_nat.induct)
  case (1 n)
  then show ?case
    by (cases "n < 10") (auto simp: show_nat.simps [of n])
qed

lemma show_nat_nonempty [simp]: "show_nat n \<noteq> []"
  by (subst show_nat.simps) simp

lemma digits_value_snoc: "digits_value (ds @ [c]) = digits_value ds * 10 + digit_value c"
  by (simp add: digits_value_def)

lemma digits_value_show_nat [simp]: "digits_value (show_nat n) = int n"
proof (induction n rule: show_nat.induct)
  case (1 n)
  show ?case
  proof (cases "n < 10")
    case True
    then show ?thesis by (simp add: show_nat.simps [of n] digits_value_def)
  next
    case False
    with 1 have "digits_value (show_nat (n div 10)) = int (n div 10)" by simp
    with False show ?thesis
      by (simp add: show_nat.simps [of n] digits_value_snoc zdiv_int zmod_int)
  qed
qed

lemma takeWhile_all [simp]: "(\<And>c. c \<in> set s \<Longrightarrow> P c) \<Longrightarrow> takeWhile P s = s"
  by (induction s) auto

lemma dropWhile_all: "(\<And>c. c \<in> set s \<Longrightarrow> P c) \<Longrightarrow> dropWhile P s = []"
  by simp

lemma skip_spaces_nospace [simp]: "CHR '' '' \<notin> set s \<Longrightarrow> skip_spaces s = s"
  by (cases s) (auto simp: skip_spaces_def)

lemma skip_spaces_space [simp]: "skip_spaces (CHR '' '' # s) = skip_spaces s"
  by (simp add: skip_spaces_def)

lemma length_skip_spaces: "length (skip_spaces s) \<le> length s"
  by (simp add: skip_spaces_def length_dropWhile_le)

lemma length_next_token: "length (snd (next_token s)) \<le> length s"
  by (simp add: next_token_def Let_def)
     (meson length_dropWhile_le length_skip_spaces order_trans)

lemma next_token_nospace: "CHR '' '' \<notin> set (fst (next_token s))"
  by (auto simp: next_token_def Let_def dest: set_takeWhileD)

text \<open>A token that was printed before a space, or at the end, is read back whole.\<close>

lemma next_token_append [noob_string]:
  assumes "CHR '' '' \<notin> set t" and "t \<noteq> []"
  shows "next_token (t @ CHR '' '' # rest) = (t, CHR '' '' # rest)"
proof -
  from assms obtain c cs where t: "t = c # cs" "c \<noteq> CHR '' ''" by (cases t) auto
  then have "skip_spaces (t @ CHR '' '' # rest) = t @ CHR '' '' # rest"
    by (simp add: skip_spaces_def)
  moreover have "takeWhile (\<lambda>c. c \<noteq> CHR '' '') (t @ CHR '' '' # rest) = t"
    using assms(1) by (induction t) auto
  moreover have "dropWhile (\<lambda>c. c \<noteq> CHR '' '') (t @ CHR '' '' # rest) = CHR '' '' # rest"
    using assms(1) by (induction t) auto
  ultimately show ?thesis by (simp add: next_token_def)
qed

lemma next_token_space [noob_string]: "next_token (CHR '' '' # s) = next_token s"
  by (simp add: next_token_def)

lemma next_token_last [noob_string]:
  "CHR '' '' \<notin> set t \<Longrightarrow> next_token t = (t, [])"
  by (simp add: next_token_def) (metis (full_types) takeWhile_all)

lemma next_token_shorter: "s \<noteq> [] \<Longrightarrow> length (snd (next_token s)) < length s"
proof (cases s)
  case (Cons c cs)
  show ?thesis
  proof (cases "c = CHR '' ''")
    case True
    have "length (snd (next_token cs)) \<le> length cs" by (rule length_next_token)
    with True Cons show ?thesis by (simp add: next_token_space)
  next
    case False
    with Cons show ?thesis
      by (simp add: next_token_def skip_spaces_def less_Suc_eq_le length_dropWhile_le)
  qed
qed simp

lemma next_token_rest: "(t, r) = next_token s \<Longrightarrow> s \<noteq> [] \<Longrightarrow> length r < length s"
  using next_token_shorter [of s] by (metis snd_conv)

text \<open>A printed number is read back by \<open>strtol\<close> exactly, with nothing left over.\<close>

lemma isDigit_not_space: "isDigit c \<Longrightarrow> c \<noteq> CHR '' ''" "isDigit c \<Longrightarrow> \<not> c_isspace c"
  "isDigit c \<Longrightarrow> c \<noteq> CHR 0x00" "isDigit c \<Longrightarrow> c \<noteq> CHR ''-''" "isDigit c \<Longrightarrow> c \<noteq> CHR ''+''"
  "isDigit c \<Longrightarrow> c \<noteq> CHR 0x22"
  by (auto simp: isDigit_def c_isspace_def)

lemma show_int_chars: "c \<in> set (show_int n) \<Longrightarrow> isDigit c \<or> c = CHR ''-''"
  by (auto simp: show_int_def dest: show_nat_digits split: if_splits)

lemma show_int_nonempty [simp]: "show_int n \<noteq> []"
  by (simp add: show_int_def)

lemma show_int_no_space [simp]: "CHR '' '' \<notin> set (show_int n)"
  using show_int_chars isDigit_not_space(1) by force

lemma c_str_show_int: "c_str (show_int n) = show_int n"
  unfolding c_str_def using show_int_chars isDigit_not_space(3) by (intro takeWhile_all) force

lemma split_sign_show_int:
  "split_sign (dropWhile c_isspace (show_int n)) = (n < 0, show_nat (nat \<bar>n\<bar>))"
proof (cases "n < 0")
  case True
  then show ?thesis by (simp add: show_int_def split_sign_def c_isspace_def)
next
  case False
  obtain c cs where s: "show_nat (nat n) = c # cs" by (cases "show_nat (nat n)") auto
  then have "isDigit c" using show_nat_digits [of c "nat n"] by simp
  with s False isDigit_not_space [of c] show ?thesis
    by (auto simp: show_int_def split_sign_def)
qed

lemma strtol10_show_int [noob_string]:
  assumes "lo \<le> n" "n \<le> hi"
  shows "strtol10 lo hi (show_int n) = (n, [], False)"
proof -
  have "takeWhile isDigit (show_nat m) = show_nat m" "dropWhile isDigit (show_nat m) = []" for m
    using show_nat_digits [of _ m] by (simp_all add: dropWhile_all)
  with assms show ?thesis
    by (simp add: strtol10_def c_str_show_int split_sign_show_int Let_def digits_value_show_nat)
qed

section \<open>Circular indices\<close>

lemma mod_shift_le:
  assumes "j \<le> i" "i < n" "(h + i) mod n = (h + j) mod n"
  shows "i = (j :: nat)"
proof -
  from assms obtain q where "h + i = h + j + n * q"
    using mod_eq_nat1E [of "h + i" n "h + j"] by auto
  with assms show ?thesis by (cases q) auto
qed

lemma mod_shift_eq_iff:
  "i < n \<Longrightarrow> j < n \<Longrightarrow> (h + i) mod n = (h + j) mod n \<longleftrightarrow> i = (j :: nat)"
  using mod_shift_le [of i j n h] mod_shift_le [of j i n h] by (metis nle_le)

section \<open>Lemmas on the clock\<close>

lemma millis_simps [simp]:
  "fst (millis w) = clock w (clock_reads w)"
  "snd (millis w) = w\<lparr>clock_reads := Suc (clock_reads w)\<rparr>"
  by (simp_all add: millis_def)

text \<open>
  A deadline \<open>d\<close> milliseconds ahead, with \<open>d\<close> below half the counter range, is not due until
  \<open>d\<close> milliseconds have passed, and is due for the following half range, whatever the wrap-around
  of the counter in between.
\<close>

lemma sint_eq_uint_nonneg: "0 \<le> sint (n :: 32 word) \<Longrightarrow> uint n = sint n"
  using sint_less [of n] uint_sint [of n] by (simp add: take_bit_int_eq_self)

lemma sint_word_of_int_32:
  "- 2147483648 \<le> k \<Longrightarrow> k < 2147483648 \<Longrightarrow> sint (word_of_int k :: 32 word) = k"
  by (simp add: sint_sbintrunc' signed_take_bit_int_eq_self)

lemma sint_diff_32:
  fixes d e :: u32
  assumes "unat d < 2147483648" "unat e < 2147483648"
  shows "sint (e - d) = int (unat e) - int (unat d)"
proof -
  have "e - d = word_of_int (int (unat e) - int (unat d))" by simp
  moreover have "sint (word_of_int (int (unat e) - int (unat d)) :: u32)
      = int (unat e) - int (unat d)"
    using assms by (intro sint_word_of_int_32) linarith+
  ultimately show ?thesis by metis
qed

lemma not_due_deadline:
  fixes start d e :: u32
  assumes "unat d < 2147483648" "unat e < 2147483648"
  shows "not_due (start + e) (start + d) \<longleftrightarrow> unat e < unat d"
proof -
  have "start + e - (start + d) = e - d" by simp
  moreover have "(int (unat e) - int (unat d) < 0) = (unat e < unat d)" by linarith
  ultimately show ?thesis unfolding not_due_def using sint_diff_32 [OF assms] by metis
qed

end
