(* ===== verification/Noob_Record.thy ===== *)
theory Noob_Record
  imports Noob_Prelude
begin

text \<open>
  Records and record queues of \<open>src/esp/common/src/core/noob_record.h\<close>: a record of at most six
  named integers, and the ring buffer of eight records that drops its oldest entry when full. The
  interface of a drop-oldest queue is a locale over its list of contents; the ring buffer is
  interpreted in it.
\<close>

section \<open>Records\<close>

record Field =
  field_name :: string
  field_value :: int32

text \<open>\<open>rec_fields\<close> holds the first \<open>q_count\<close> entries of the array.\<close>

record NoobRecord =
  rec_fields :: "Field list"

definition MAX_FIELDS :: nat where "MAX_FIELDS = 6"
definition NAME_BYTES :: nat where "NAME_BYTES = 16"

definition empty_record :: NoobRecord where
  "empty_record = \<lparr>rec_fields = []\<rparr>"

definition record_add :: "string option \<Rightarrow> int32 \<Rightarrow> NoobRecord \<Rightarrow> bool \<times> NoobRecord" where
  "record_add name v r = (case name of None \<Rightarrow> (False, r)
     | Some n \<Rightarrow>
         if n = [] \<or> length n \<ge> NAME_BYTES \<or> length (rec_fields r) \<ge> MAX_FIELDS then (False, r)
         else (True, r\<lparr>rec_fields := rec_fields r @ [\<lparr>field_name = n, field_value = v\<rparr>]\<rparr>))"

definition record_get_index :: "NoobRecord \<Rightarrow> nat \<Rightarrow> (string \<times> int32) option" where
  "record_get_index r i = (if i \<ge> length (rec_fields r) then None
     else Some (field_name (rec_fields r ! i), field_value (rec_fields r ! i)))"

fun find_field :: "Field list \<Rightarrow> string \<Rightarrow> int32 option" where
  "find_field [] n = None"
| "find_field (f # fs) n = (if field_name f = n then Some (field_value f) else find_field fs n)"

definition record_get_name :: "NoobRecord \<Rightarrow> string option \<Rightarrow> int32 option" where
  "record_get_name r name = (case name of None \<Rightarrow> None | Some n \<Rightarrow> find_field (rec_fields r) n)"

definition record_primary :: "NoobRecord \<Rightarrow> int32 option" where
  "record_primary r = (case record_get_name r (Some ''value'') of
       Some v \<Rightarrow> Some v
     | None \<Rightarrow> if rec_fields r = [] then None else Some (field_value (rec_fields r ! 0)))"

definition record_size :: "NoobRecord \<Rightarrow> nat" where
  "record_size r = length (rec_fields r)"

definition record_empty :: "NoobRecord \<Rightarrow> bool" where
  "record_empty r \<longleftrightarrow> rec_fields r = []"

definition record_serialize :: "NoobRecord \<Rightarrow> string" where
  "record_serialize r = ''{'' @
     join_with '','' (map (\<lambda>f. field_name f @ '':'' @ show_i32 (field_value f)) (rec_fields r)) @ ''}''"

definition record_wf :: "NoobRecord \<Rightarrow> bool" where
  "record_wf r \<longleftrightarrow> length (rec_fields r) \<le> MAX_FIELDS \<and>
     (\<forall>f \<in> set (rec_fields r). field_name f \<noteq> [] \<and> length (field_name f) < NAME_BYTES)"

text \<open>The record \<open>{value:v}\<close> that wraps a scalar result.\<close>

definition value_record :: "int32 \<Rightarrow> NoobRecord" where
  "value_record v = snd (record_add (Some ''value'') v empty_record)"

section \<open>The ring buffer\<close>

definition CAPACITY :: nat where "CAPACITY = 8"

record NoobRecordQueue =
  q_records :: "NoobRecord list"
  q_head :: nat
  q_tail :: nat
  q_count :: nat
  q_dropped :: u32

definition empty_queue :: NoobRecordQueue where
  "empty_queue = \<lparr>q_records = replicate CAPACITY empty_record, q_head = 0, q_tail = 0, q_count = 0,
                  q_dropped = 0\<rparr>"

definition queue_push :: "NoobRecord \<Rightarrow> NoobRecordQueue \<Rightarrow> NoobRecordQueue" where
  "queue_push r q =
     (let q1 = (if q_count q = CAPACITY
                then q\<lparr>q_head := (q_head q + 1) mod CAPACITY, q_count := q_count q - 1,
                       q_dropped := q_dropped q + 1\<rparr>
                else q);
          q2 = q1\<lparr>q_records := (q_records q1)[q_tail q1 := r]\<rparr>;
          q3 = q2\<lparr>q_tail := (q_tail q2 + 1) mod CAPACITY\<rparr>
      in q3\<lparr>q_count := q_count q3 + 1\<rparr>)"

definition queue_push_value :: "int32 \<Rightarrow> NoobRecordQueue \<Rightarrow> NoobRecordQueue" where
  "queue_push_value v q = queue_push (value_record v) q"

definition queue_pop :: "NoobRecordQueue \<Rightarrow> (NoobRecord \<times> NoobRecordQueue) option" where
  "queue_pop q = (if q_count q = 0 then None
     else Some (q_records q ! q_head q,
                q\<lparr>q_head := (q_head q + 1) mod CAPACITY, q_count := q_count q - 1\<rparr>))"

definition queue_clear :: "NoobRecordQueue \<Rightarrow> NoobRecordQueue" where
  "queue_clear q = q\<lparr>q_head := 0, q_tail := 0, q_count := 0, q_dropped := 0\<rparr>"

definition queue_size :: "NoobRecordQueue \<Rightarrow> nat" where
  "queue_size q = q_count q"

definition queue_dropped :: "NoobRecordQueue \<Rightarrow> u32" where
  "queue_dropped q = q_dropped q"

text \<open>What the ring buffer holds, oldest first, and its representation invariant.\<close>

definition queue_contents :: "NoobRecordQueue \<Rightarrow> NoobRecord list" where
  "queue_contents q = map (\<lambda>i. q_records q ! ((q_head q + i) mod CAPACITY)) [0..<q_count q]"

definition queue_wf :: "NoobRecordQueue \<Rightarrow> bool" where
  "queue_wf q \<longleftrightarrow> length (q_records q) = CAPACITY \<and> q_head q < CAPACITY \<and> q_count q \<le> CAPACITY \<and>
     q_tail q = (q_head q + q_count q) mod CAPACITY"

section \<open>The interface of a drop-oldest queue\<close>

locale drop_oldest_queue =
  fixes push :: "'e \<Rightarrow> 'q \<Rightarrow> 'q"
    and pop :: "'q \<Rightarrow> ('e \<times> 'q) option"
    and clear :: "'q \<Rightarrow> 'q"
    and size :: "'q \<Rightarrow> nat"
    and contents :: "'q \<Rightarrow> 'e list"
    and wf :: "'q \<Rightarrow> bool"
    and cap :: nat
  assumes cap_pos: "0 < cap"
    and push_wf: "wf q \<Longrightarrow> wf (push x q)"
    and push_contents: "wf q \<Longrightarrow> contents (push x q) =
          (if length (contents q) < cap then contents q else tl (contents q)) @ [x]"
    and pop_empty: "wf q \<Longrightarrow> contents q = [] \<Longrightarrow> pop q = None"
    and pop_cons: "wf q \<Longrightarrow> contents q = x # xs \<Longrightarrow>
          \<exists>q'. pop q = Some (x, q') \<and> wf q' \<and> contents q' = xs"
    and clear_wf: "wf q \<Longrightarrow> wf (clear q)"
    and clear_contents: "contents (clear q) = []"
    and size_contents: "wf q \<Longrightarrow> size q = length (contents q)"
    and contents_bounded: "wf q \<Longrightarrow> length (contents q) \<le> cap"
begin

fun push_all :: "'e list \<Rightarrow> 'q \<Rightarrow> 'q" where
  "push_all [] q = q"
| "push_all (x # xs) q = push_all xs (push x q)"

fun pop_all :: "nat \<Rightarrow> 'q \<Rightarrow> 'e list" where
  "pop_all 0 q = []"
| "pop_all (Suc n) q = (case pop q of None \<Rightarrow> [] | Some (x, q') \<Rightarrow> x # pop_all n q')"

lemma push_all_wf: "wf q \<Longrightarrow> wf (push_all xs q)"
  by (induction xs arbitrary: q) (auto intro: push_wf)

lemma push_all_fold: "push_all xs q = fold push xs q"
  by (induction xs arbitrary: q) simp_all

text \<open>After any series of pushes the queue holds the newest \<open>cap\<close> entries, in order.\<close>

lemma push_all_contents:
  assumes "wf q"
  shows "contents (push_all xs q) =
    drop (length (contents q) + length xs - cap) (contents q @ xs)"
  using assms
proof (induction xs arbitrary: q)
  case Nil
  then show ?case using contents_bounded [of q] by simp
next
  case (Cons x xs)
  have len: "length (contents q) \<le> cap" using Cons.prems by (rule contents_bounded)
  show ?case
  proof (cases "length (contents q) < cap")
    case True
    then have "contents (push_all (x # xs) q) =
        drop (length (contents q @ [x]) + length xs - cap) ((contents q @ [x]) @ xs)"
      using Cons.IH [OF push_wf [OF Cons.prems], of x] Cons.prems
      by (simp add: push_contents del: drop_append append_assoc)
    then show ?thesis by (simp only: append_assoc length_append) simp
  next
    case False
    with len have eq: "length (contents q) = cap" by simp
    with cap_pos obtain y ys where c: "contents q = y # ys" by (cases "contents q") auto
    have "contents (push x q) = ys @ [x]"
      using c eq Cons.prems by (simp add: push_contents)
    then have "contents (push_all (x # xs) q) =
        drop (length (ys @ [x]) + length xs - cap) ((ys @ [x]) @ xs)"
      using Cons.IH [OF push_wf [OF Cons.prems], of x] by (simp only: push_all.simps)
    also have "length (ys @ [x]) + length xs - cap = length xs"
      using eq c by simp
    finally show ?thesis using eq c by (simp del: drop_append)
  qed
qed

text \<open>Draining a queue returns its contents in order and then reports it empty.\<close>

lemma pop_all_contents: "wf q \<Longrightarrow> pop_all n q = take n (contents q)"
proof (induction n arbitrary: q)
  case 0
  then show ?case by simp
next
  case (Suc n)
  show ?case
  proof (cases "contents q")
    case Nil
    with Suc.prems show ?thesis by (simp add: pop_empty)
  next
    case (Cons x xs)
    with pop_cons [OF Suc.prems Cons] Suc.IH show ?thesis by auto
  qed
qed

end

text \<open>A queue that also counts the entries it dropped.\<close>

locale counting_queue = drop_oldest_queue push pop clear size contents wf cap
  for push :: "'e \<Rightarrow> 'q \<Rightarrow> 'q" and pop clear size contents wf cap +
  fixes dropped :: "'q \<Rightarrow> u32"
  assumes push_dropped: "wf q \<Longrightarrow> dropped (push x q) =
          dropped q + (if length (contents q) < cap then 0 else 1)"
    and pop_dropped: "wf q \<Longrightarrow> pop q = Some (x, q') \<Longrightarrow> dropped q' = dropped q"
    and clear_dropped: "dropped (clear q) = 0"
begin

lemma push_all_dropped:
  assumes "wf q"
  shows "dropped (push_all xs q) =
    dropped q + of_nat (length (contents q) + length xs - cap)"
  using assms
proof (induction xs arbitrary: q)
  case Nil
  then show ?case using contents_bounded [of q] by simp
next
  case (Cons x xs)
  have len: "length (contents q) \<le> cap" using Cons.prems by (rule contents_bounded)
  show ?case
  proof (cases "length (contents q) < cap")
    case True
    with Cons show ?thesis by (simp add: push_wf push_contents push_dropped)
  next
    case False
    with len have eq: "length (contents q) = cap" by simp
    with cap_pos have "length (tl (contents q)) + 1 = cap" by simp
    with Cons False eq show ?thesis
      by (simp add: push_wf push_contents push_dropped add.assoc)
  qed
qed

end

section \<open>Records: lemmas\<close>

lemma record_add_wf [noob_inv]: "record_wf r \<Longrightarrow> record_wf (snd (record_add n v r))"
  by (auto simp: record_add_def record_wf_def split: option.splits)

lemma value_record_fields [simp]:
  "rec_fields (value_record v) = [\<lparr>field_name = ''value'', field_value = v\<rparr>]"
  by (simp add: value_record_def record_add_def empty_record_def NAME_BYTES_def MAX_FIELDS_def)

lemma value_record_primary [simp]: "record_primary (value_record v) = Some v"
  by (simp add: record_primary_def record_get_name_def)

lemma value_record_not_empty [simp]: "\<not> record_empty (value_record v)"
  by (simp add: record_empty_def)

lemma find_field_append:
  "find_field (fs @ gs) n = (case find_field fs n of Some v \<Rightarrow> Some v | None \<Rightarrow> find_field gs n)"
  by (induction fs) auto

section \<open>The ring buffer implements the interface\<close>

lemma queue_wf_empty [simp]: "queue_wf empty_queue"
  by (simp add: queue_wf_def empty_queue_def CAPACITY_def)

lemma queue_contents_empty [simp]: "queue_contents empty_queue = []"
  by (simp add: queue_contents_def empty_queue_def)

lemma queue_dropped_empty [simp]: "queue_dropped empty_queue = 0"
  by (simp add: queue_dropped_def empty_queue_def)

lemma length_queue_contents [simp]: "length (queue_contents q) = q_count q"
  by (simp add: queue_contents_def)

lemma queue_push_wf: "queue_wf q \<Longrightarrow> queue_wf (queue_push r q)"
  by (auto simp: queue_wf_def queue_push_def CAPACITY_def Let_def mod_Suc_eq)

lemma ring_next_slot:
  "(Suc h mod CAPACITY + i) mod CAPACITY = (h + Suc i) mod CAPACITY"
  by (simp add: mod_simps)

lemma queue_contents_Suc:
  assumes "q_count q = Suc n"
  shows "queue_contents q = q_records q ! (q_head q mod CAPACITY) #
      map (\<lambda>i. q_records q ! ((q_head q + Suc i) mod CAPACITY)) [0..<n]"
  unfolding queue_contents_def assms
  by (simp add: upt_conv_Cons map_Suc_upt [symmetric] del: upt_Suc)

lemma queue_push_contents:
  assumes wf: "queue_wf q"
  shows "queue_contents (queue_push r q) =
    (if length (queue_contents q) < CAPACITY then queue_contents q else tl (queue_contents q)) @ [r]"
proof (cases "q_count q < CAPACITY")
  case True
  have other: "(q_records q)[q_tail q := r] ! ((q_head q + i) mod CAPACITY) =
      q_records q ! ((q_head q + i) mod CAPACITY)" if "i < q_count q" for i
  proof -
    have "q_tail q \<noteq> (q_head q + i) mod CAPACITY"
      using wf that True mod_shift_eq_iff [of i CAPACITY "q_count q" "q_head q"]
      by (simp add: queue_wf_def)
    then show ?thesis by (rule nth_list_update_neq)
  qed
  have this_one: "(q_records q)[q_tail q := r] ! ((q_head q + q_count q) mod CAPACITY) = r"
    using wf by (simp add: queue_wf_def CAPACITY_def)
  have "queue_contents (queue_push r q) =
      map (\<lambda>i. (q_records q)[q_tail q := r] ! ((q_head q + i) mod CAPACITY)) [0..<Suc (q_count q)]"
    using True by (simp add: queue_contents_def queue_push_def)
  also have "\<dots> = queue_contents q @ [r]"
    using other this_one by (simp add: queue_contents_def)
  finally show ?thesis using True by simp
next
  case False
  with wf have c: "q_count q = Suc 7" and h: "q_head q < CAPACITY"
    by (simp_all add: queue_wf_def CAPACITY_def)
  have t: "q_tail q = q_head q" using wf c h by (simp add: queue_wf_def CAPACITY_def)
  have other: "(q_records q)[q_head q := r] ! ((q_head q + Suc i) mod CAPACITY) =
      q_records q ! ((q_head q + Suc i) mod CAPACITY)" if "i < 7" for i
  proof -
    have "q_head q \<noteq> (q_head q + Suc i) mod CAPACITY"
      using that h mod_shift_eq_iff [of "Suc i" CAPACITY 0 "q_head q"] by (simp add: CAPACITY_def)
    then show ?thesis by (rule nth_list_update_neq)
  qed
  have this_one: "(q_records q)[q_head q := r] ! ((q_head q + Suc 7) mod CAPACITY) = r"
    using wf h by (simp add: queue_wf_def CAPACITY_def)
  have "queue_contents (queue_push r q) =
      map (\<lambda>i. (q_records q)[q_head q := r] ! ((q_head q + Suc i) mod CAPACITY)) [0..<Suc 7]"
    using c t ring_next_slot [of "q_head q"]
    by (simp add: queue_contents_def queue_push_def Let_def CAPACITY_def del: upt_Suc)
  also have "\<dots> = map (\<lambda>i. q_records q ! ((q_head q + Suc i) mod CAPACITY)) [0..<7] @ [r]"
    using other this_one by (simp only: upt_Suc_append [OF le0] map_append list.map) simp
  also have "\<dots> = tl (queue_contents q) @ [r]"
    by (simp add: queue_contents_Suc [OF c])
  finally show ?thesis using c by (simp add: CAPACITY_def)
qed

lemma queue_pop_contents:
  assumes wf: "queue_wf q" and c: "queue_contents q = x # xs"
  shows "\<exists>q'. queue_pop q = Some (x, q') \<and> queue_wf q' \<and> queue_contents q' = xs \<and>
    queue_dropped q' = queue_dropped q"
proof -
  obtain n where n: "q_count q = Suc n"
    using c by (cases "q_count q") (auto simp: queue_contents_def)
  define q' where "q' = q\<lparr>q_head := (q_head q + 1) mod CAPACITY, q_count := q_count q - 1\<rparr>"
  have "x = q_records q ! q_head q" and "queue_contents q' = xs"
    using c wf n queue_contents_Suc [OF n]
    by (simp_all add: q'_def queue_contents_def ring_next_slot queue_wf_def)
  moreover have "queue_wf q'"
    using wf n by (simp add: q'_def queue_wf_def CAPACITY_def mod_simps)
  ultimately show ?thesis
    using n by (simp add: queue_pop_def q'_def queue_dropped_def)
qed

interpretation ring: counting_queue queue_push queue_pop queue_clear queue_size
    queue_contents queue_wf CAPACITY queue_dropped
proof unfold_locales
  fix q q' :: NoobRecordQueue and x xs
  show "0 < CAPACITY" by (simp add: CAPACITY_def)
  show "queue_wf q \<Longrightarrow> queue_wf (queue_push x q)" by (rule queue_push_wf)
  show "queue_wf q \<Longrightarrow> queue_contents (queue_push x q) = (if length (queue_contents q) < CAPACITY
      then queue_contents q else tl (queue_contents q)) @ [x]"
    by (rule queue_push_contents)
  show "queue_wf q \<Longrightarrow> queue_dropped (queue_push x q) =
      queue_dropped q + (if length (queue_contents q) < CAPACITY then 0 else 1)"
    by (auto simp: queue_dropped_def queue_push_def Let_def queue_wf_def)
  show "queue_wf q \<Longrightarrow> queue_contents q = [] \<Longrightarrow> queue_pop q = None"
    by (simp add: queue_pop_def queue_contents_def)
  show "queue_wf q \<Longrightarrow> queue_contents q = x # xs \<Longrightarrow> \<exists>q'. queue_pop q = Some (x, q') \<and> queue_wf q' \<and>
      queue_contents q' = xs"
    using queue_pop_contents [of q x xs] by blast
  show "queue_wf q \<Longrightarrow> queue_pop q = Some (x, q') \<Longrightarrow> queue_dropped q' = queue_dropped q"
    by (auto simp: queue_pop_def queue_dropped_def split: if_splits)
  show "queue_wf q \<Longrightarrow> queue_wf (queue_clear q)"
    by (simp add: queue_wf_def queue_clear_def CAPACITY_def)
  show "queue_contents (queue_clear q) = []" "queue_dropped (queue_clear q) = 0"
    by (simp_all add: queue_contents_def queue_clear_def queue_dropped_def)
  show "queue_wf q \<Longrightarrow> queue_size q = length (queue_contents q)"
    by (simp add: queue_size_def)
  show "queue_wf q \<Longrightarrow> length (queue_contents q) \<le> CAPACITY"
    by (simp add: queue_wf_def)
qed

section \<open>Properties\<close>

text \<open>C6: After any series of pushes onto a well-formed ring buffer it is well formed again, it holds
  exactly the newest \<open>CAPACITY\<close> records in the order they were pushed, and the drop counter has
  grown by the number of records that no longer fit (as a 32-bit counter).\<close>

theorem ring_keeps_newest:
  assumes "queue_wf q"
  shows "queue_wf (fold queue_push rs q) \<and>
    queue_contents (fold queue_push rs q) =
      drop (length (queue_contents q) + length rs - CAPACITY) (queue_contents q @ rs) \<and>
    queue_dropped (fold queue_push rs q) =
      queue_dropped q + of_nat (length (queue_contents q) + length rs - CAPACITY)"
  using ring.push_all_wf [OF assms] ring.push_all_contents [OF assms] ring.push_all_dropped [OF assms]
  by (simp only: ring.push_all_fold simp_thms)

theorem ring_keeps_newest_witness:
  "queue_contents (fold queue_push (map value_record [1, 2, 3, 4, 5, 6, 7, 8, 9, 10]) empty_queue) =
     map value_record [3, 4, 5, 6, 7, 8, 9, 10] \<and>
   queue_dropped (fold queue_push (map value_record [1, 2, 3, 4, 5, 6, 7, 8, 9, 10]) empty_queue) = 2"
  using ring_keeps_newest [of empty_queue "map value_record [1, 2, 3, 4, 5, 6, 7, 8, 9, 10]"]
  by (simp add: CAPACITY_def)

text \<open>Popping a well-formed ring buffer returns its oldest record and leaves the others in order,
  with the drop counter unchanged, and reports an empty buffer as such.\<close>

theorem ring_pop_oldest:
  assumes "queue_wf q"
  shows "map_option (\<lambda>(r, q'). (r, queue_contents q', queue_dropped q', queue_wf q')) (queue_pop q) =
    (case queue_contents q of [] \<Rightarrow> None | x # xs \<Rightarrow> Some (x, xs, queue_dropped q, True))"
proof (cases "queue_contents q")
  case Nil
  then show ?thesis by (simp add: ring.pop_empty [OF assms])
next
  case (Cons x xs)
  then obtain q' where "queue_pop q = Some (x, q')" "queue_wf q'" "queue_contents q' = xs"
    using ring.pop_cons [OF assms] by blast
  then show ?thesis using Cons ring.pop_dropped [OF assms] by simp
qed

theorem ring_pop_oldest_witness:
  "map_option (\<lambda>(r, q'). (r, queue_contents q', queue_dropped q', queue_wf q'))
     (queue_pop (queue_push (value_record 8) (queue_push (value_record 7) empty_queue))) =
   Some (value_record 7, [value_record 8], 0, True)"
  using ring_pop_oldest [of "queue_push (value_record 8) (queue_push (value_record 7) empty_queue)"]
  by (simp add: queue_push_wf queue_push_contents CAPACITY_def)
    (simp add: queue_dropped_def queue_push_def empty_queue_def CAPACITY_def)

end
