(* ===== verification/Native_Registry.thy ===== *)
theory Native_Registry
  imports Noob_Record
begin

text \<open>
  The native call interface of \<open>src/esp/common/src/syscalls/noob_native_registry.{h,cpp}\<close> and the
  capability registry of \<open>src/esp/common/src/core/noob_capability_registry.{h,cpp}\<close>.

  A native function acts on the world \<open>'w\<close>: everything outside the registry. The argument array
  with its count is a list whose length is the count. A \<open>NoobFunction\<close> is one of the three
  adapters around a bound callback, or an object of a derived class given by the virtual methods
  it overrides. The registry only grows, at start-up, so the entries are a list.
\<close>

section \<open>Results and callable functions\<close>

record NativeResult =
  r_ok :: bool
  r_value :: int32
  r_detail :: string
  r_record :: NoobRecord

definition native_fail :: "string \<Rightarrow> NativeResult" where
  "native_fail d = \<lparr>r_ok = False, r_value = 0, r_detail = d, r_record = empty_record\<rparr>"

definition native_ok :: "int32 \<Rightarrow> string \<Rightarrow> NativeResult" where
  "native_ok v d = \<lparr>r_ok = True, r_value = v, r_detail = d, r_record = empty_record\<rparr>"

lemma native_result_simps [simp]:
  "r_ok (native_fail d) = False" "r_value (native_fail d) = 0" "r_detail (native_fail d) = d"
  "r_record (native_fail d) = empty_record"
  "r_ok (native_ok v d) = True" "r_value (native_ok v d) = v" "r_detail (native_ok v d) = d"
  "r_record (native_ok v d) = empty_record"
  by (simp_all add: native_fail_def native_ok_def)

type_synonym 'w NativeFunction = "int32 list \<Rightarrow> 'w \<Rightarrow> NativeResult \<times> 'w"
type_synonym 'w NativeTextFunction = "string \<Rightarrow> 'w \<Rightarrow> NativeResult \<times> 'w"
type_synonym 'w NativeMixedFunction = "int32 list \<Rightarrow> string \<Rightarrow> 'w \<Rightarrow> NativeResult \<times> 'w"

text \<open>
  \<open>FunctionObject\<close> carries \<open>acceptsNumbers\<close>, \<open>acceptsText\<close> and the overridden \<open>call\<close>,
  \<open>callText\<close> and \<open>callMixed\<close>; \<open>None\<close> is the method inherited from the base class.
\<close>

datatype (dead 'w) NoobFunction =
    MixedFunctionAdapter "'w NativeMixedFunction option"
  | NumericFunctionAdapter "'w NativeFunction option"
  | TextFunctionAdapter "'w NativeTextFunction option"
  | FunctionObject bool bool "'w NativeFunction option" "'w NativeTextFunction option"
      "'w NativeMixedFunction option"

fun acceptsNumbers :: "'w NoobFunction \<Rightarrow> bool" where
  "acceptsNumbers (MixedFunctionAdapter f) = (f \<noteq> None)"
| "acceptsNumbers (NumericFunctionAdapter f) = (f \<noteq> None)"
| "acceptsNumbers (TextFunctionAdapter f) = False"
| "acceptsNumbers (FunctionObject n t c ct cm) = n"

fun acceptsText :: "'w NoobFunction \<Rightarrow> bool" where
  "acceptsText (MixedFunctionAdapter f) = (f \<noteq> None)"
| "acceptsText (NumericFunctionAdapter f) = False"
| "acceptsText (TextFunctionAdapter f) = (f \<noteq> None)"
| "acceptsText (FunctionObject n t c ct cm) = t"

definition mixed_bound :: "'w NativeMixedFunction option \<Rightarrow> 'w NativeMixedFunction" where
  "mixed_bound f args ascii w = (case f of Some g \<Rightarrow> g args ascii w
     | None \<Rightarrow> (native_fail ''mixed function not bound'', w))"

fun function_call :: "'w NoobFunction \<Rightarrow> 'w NativeFunction" where
  "function_call (MixedFunctionAdapter f) args w = mixed_bound f args [] w"
| "function_call (NumericFunctionAdapter f) args w = (case f of Some g \<Rightarrow> g args w
     | None \<Rightarrow> (native_fail ''numeric function not bound'', w))"
| "function_call (TextFunctionAdapter f) args w = (native_fail ''numeric call unsupported'', w)"
| "function_call (FunctionObject n t c ct cm) args w = (case c of Some g \<Rightarrow> g args w
     | None \<Rightarrow> (native_fail ''numeric call unsupported'', w))"

fun function_callText :: "'w NoobFunction \<Rightarrow> 'w NativeTextFunction" where
  "function_callText (MixedFunctionAdapter f) ascii w = mixed_bound f [] ascii w"
| "function_callText (NumericFunctionAdapter f) ascii w = (native_fail ''text call unsupported'', w)"
| "function_callText (TextFunctionAdapter f) ascii w = (case f of Some g \<Rightarrow> g ascii w
     | None \<Rightarrow> (native_fail ''text function not bound'', w))"
| "function_callText (FunctionObject n t c ct cm) ascii w = (case ct of Some g \<Rightarrow> g ascii w
     | None \<Rightarrow> (native_fail ''text call unsupported'', w))"

text \<open>The base class's \<open>callMixed\<close>.\<close>

definition base_callMixed :: "'w NoobFunction \<Rightarrow> 'w NativeMixedFunction" where
  "base_callMixed f args ascii w =
     (if ascii = [] \<and> acceptsNumbers f then function_call f args w
      else if args = [] \<and> acceptsText f then function_callText f ascii w
      else (native_fail ''mixed arguments unsupported'', w))"

fun function_callMixed :: "'w NoobFunction \<Rightarrow> 'w NativeMixedFunction" where
  "function_callMixed (MixedFunctionAdapter f) args ascii w = mixed_bound f args ascii w"
| "function_callMixed (NumericFunctionAdapter f) args ascii w =
     base_callMixed (NumericFunctionAdapter f) args ascii w"
| "function_callMixed (TextFunctionAdapter f) args ascii w =
     base_callMixed (TextFunctionAdapter f) args ascii w"
| "function_callMixed (FunctionObject n t c ct cm) args ascii w = (case cm of
       Some g \<Rightarrow> g args ascii w
     | None \<Rightarrow> base_callMixed (FunctionObject n t c ct cm) args ascii w)"

section \<open>The registry\<close>

record 'w NativeEntry =
  ent_id :: u16
  ent_name :: string
  ent_impl :: "'w NoobFunction option"

record 'w NativeRegistry =
  entries :: "'w NativeEntry list"

definition MAX_FUNCTIONS :: nat where "MAX_FUNCTIONS = 128"
definition MAX_ASCII_BYTES :: nat where "MAX_ASCII_BYTES = 255"

definition empty_registry :: "'w NativeRegistry" where
  "empty_registry = \<lparr>entries = []\<rparr>"

definition find_id :: "'w NativeRegistry \<Rightarrow> u16 \<Rightarrow> 'w NativeEntry option" where
  "find_id r i = List.find (\<lambda>e. ent_id e = i) (entries r)"

definition find_name :: "'w NativeRegistry \<Rightarrow> string \<Rightarrow> 'w NativeEntry option" where
  "find_name r n = List.find (\<lambda>e. equalsIgnoreCase n (ent_name e)) (entries r)"

definition registry_full_or_taken :: "u16 \<Rightarrow> string \<Rightarrow> 'w NativeRegistry \<Rightarrow> bool" where
  "registry_full_or_taken i n r \<longleftrightarrow>
     length (entries r) \<ge> MAX_FUNCTIONS \<or> find_id r i \<noteq> None \<or> find_name r n \<noteq> None"

definition registry_store :: "u16 \<Rightarrow> string \<Rightarrow> 'w NoobFunction \<Rightarrow> 'w NativeRegistry
    \<Rightarrow> 'w NativeRegistry" where
  "registry_store i n f r =
     r\<lparr>entries := entries r @ [\<lparr>ent_id = i, ent_name = n, ent_impl = Some f\<rparr>]\<rparr>"

definition registry_add :: "u16 \<Rightarrow> string option \<Rightarrow> 'w NativeFunction option \<Rightarrow> 'w NativeRegistry
    \<Rightarrow> bool \<times> 'w NativeRegistry" where
  "registry_add i name f r = (case name of None \<Rightarrow> (False, r) | Some n \<Rightarrow>
     if f = None \<or> registry_full_or_taken i n r then (False, r)
     else (True, registry_store i n (NumericFunctionAdapter f) r))"

definition registry_addText :: "u16 \<Rightarrow> string option \<Rightarrow> 'w NativeTextFunction option
    \<Rightarrow> 'w NativeRegistry \<Rightarrow> bool \<times> 'w NativeRegistry" where
  "registry_addText i name f r = (case name of None \<Rightarrow> (False, r) | Some n \<Rightarrow>
     if f = None \<or> registry_full_or_taken i n r then (False, r)
     else (True, registry_store i n (TextFunctionAdapter f) r))"

definition registry_addObject :: "u16 \<Rightarrow> string option \<Rightarrow> 'w NoobFunction \<Rightarrow> 'w NativeRegistry
    \<Rightarrow> bool \<times> 'w NativeRegistry" where
  "registry_addObject i name f r = (case name of None \<Rightarrow> (False, r) | Some n \<Rightarrow>
     if registry_full_or_taken i n r then (False, r) else (True, registry_store i n f r))"

definition registry_addMixed :: "u16 \<Rightarrow> string option \<Rightarrow> 'w NativeMixedFunction option
    \<Rightarrow> 'w NativeRegistry \<Rightarrow> bool \<times> 'w NativeRegistry" where
  "registry_addMixed i name f r = (case name of None \<Rightarrow> (False, r) | Some n \<Rightarrow>
     if f = None \<or> registry_full_or_taken i n r then (False, r)
     else (True, registry_store i n (MixedFunctionAdapter f) r))"

definition registry_callMixed :: "'w NativeEntry \<Rightarrow> 'w NativeMixedFunction" where
  "registry_callMixed e args ascii w = (case ent_impl e of
       None \<Rightarrow> (native_fail ''invalid native arguments'', w)
     | Some f \<Rightarrow>
         if length ascii > MAX_ASCII_BYTES
         then (native_fail ''ASCII argument exceeds 255 bytes'', w)
         else if \<exists>c \<in> set ascii. \<not> printable c
         then (native_fail ''ASCII argument must contain printable ASCII'', w)
         else function_callMixed f args ascii w)"

definition registry_call :: "'w NativeEntry \<Rightarrow> 'w NativeFunction" where
  "registry_call e args w = (case ent_impl e of
       None \<Rightarrow> (native_fail ''numeric call unsupported'', w)
     | Some f \<Rightarrow> if \<not> acceptsNumbers f then (native_fail ''numeric call unsupported'', w)
                 else registry_callMixed e args [] w)"

definition registry_callText :: "'w NativeEntry \<Rightarrow> 'w NativeTextFunction" where
  "registry_callText e ascii w = (case ent_impl e of
       None \<Rightarrow> (native_fail ''text call unsupported'', w)
     | Some f \<Rightarrow> if \<not> acceptsText f then (native_fail ''text call unsupported'', w)
                 else function_callMixed f [] ascii w)"

definition registry_list :: "'w NativeRegistry \<Rightarrow> string" where
  "registry_list r =
     join_with '','' (map (\<lambda>e. show_nat (unat (ent_id e)) @ '':'' @ ent_name e) (entries r))"

definition registry_wf :: "'w NativeRegistry \<Rightarrow> bool" where
  "registry_wf r \<longleftrightarrow> length (entries r) \<le> MAX_FUNCTIONS \<and> distinct (map ent_id (entries r)) \<and>
     distinct (map (toUpperCase \<circ> ent_name) (entries r)) \<and>
     (\<forall>e \<in> set (entries r). ent_impl e \<noteq> None)"

section \<open>The capability registry\<close>

definition MAX_CAPABILITIES :: nat where "MAX_CAPABILITIES = 32"

definition capability_add :: "string option \<Rightarrow> string list \<Rightarrow> bool \<times> string list" where
  "capability_add capability items = (case capability of None \<Rightarrow> (False, items)
     | Some c \<Rightarrow> if length items \<ge> MAX_CAPABILITIES then (False, items)
                 else if c \<in> set items then (True, items) else (True, items @ [c]))"

definition capability_has :: "string \<Rightarrow> string list \<Rightarrow> bool" where
  "capability_has c items \<longleftrightarrow> (\<exists>i \<in> set items. equalsIgnoreCase c i)"

definition capability_list :: "string list \<Rightarrow> string" where
  "capability_list items = join_with '','' items"

section \<open>The interface of a registry\<close>

text \<open>
  Clients (the dispatcher, the VM, channels) resolve a key again and again while the board keeps
  registering functions. The contract: a key is taken at most once, and what it resolves to never
  changes afterwards.
\<close>

locale grow_only_registry =
  fixes lookup :: "'r \<Rightarrow> 'k \<Rightarrow> 'e option"
    and insert :: "'e \<Rightarrow> 'r \<Rightarrow> bool \<times> 'r"
    and key :: "'e \<Rightarrow> 'k"
    and wf :: "'r \<Rightarrow> bool"
  assumes insert_wf: "wf r \<Longrightarrow> wf (snd (insert e r))"
    and insert_refused: "insert e r = (False, r') \<Longrightarrow> r' = r"
    and insert_fresh: "insert e r = (True, r') \<Longrightarrow> lookup r (key e) = None"
    and insert_lookup: "insert e r = (True, r') \<Longrightarrow>
          lookup r' k = (case lookup r k of Some x \<Rightarrow> Some x
                         | None \<Rightarrow> if k = key e then Some e else None)"
begin

fun insert_all :: "'e list \<Rightarrow> 'r \<Rightarrow> 'r" where
  "insert_all [] r = r"
| "insert_all (e # es) r = insert_all es (snd (insert e r))"

lemma insert_keeps: "lookup r k = Some x \<Longrightarrow> lookup (snd (insert e r)) k = Some x"
proof (cases "insert e r")
  case (Pair b r')
  assume "lookup r k = Some x"
  with Pair show ?thesis
    by (cases b) (auto dest: insert_refused simp: insert_lookup)
qed

lemma insert_all_keeps: "lookup r k = Some x \<Longrightarrow> lookup (insert_all es r) k = Some x"
  by (induction es arbitrary: r) (auto intro: insert_keeps)

lemma insert_all_wf: "wf r \<Longrightarrow> wf (insert_all es r)"
  by (induction es arbitrary: r) (auto intro: insert_wf)

lemma insert_taken: "lookup r (key e) = Some x \<Longrightarrow> insert e r = (False, r)"
proof (cases "insert e r")
  case (Pair b r')
  assume "lookup r (key e) = Some x"
  with Pair show ?thesis
    by (cases b) (auto dest: insert_fresh insert_refused)
qed

end

section \<open>Registry lemmas\<close>

definition registry_insert :: "'w NativeEntry \<Rightarrow> 'w NativeRegistry \<Rightarrow> bool \<times> 'w NativeRegistry" where
  "registry_insert e r = (case ent_impl e of None \<Rightarrow> (False, r)
     | Some f \<Rightarrow> registry_addObject (ent_id e) (Some (ent_name e)) f r)"

lemma find_append: "List.find P (xs @ ys) =
    (case List.find P xs of Some x \<Rightarrow> Some x | None \<Rightarrow> List.find P ys)"
  by (induction xs) auto

lemma find_id_store: "find_id (registry_store i n f r) j = (case find_id r j of Some x \<Rightarrow> Some x
    | None \<Rightarrow> if j = i then Some \<lparr>ent_id = i, ent_name = n, ent_impl = Some f\<rparr> else None)"
  by (simp add: find_id_def registry_store_def find_append split: option.splits)

lemma find_name_store: "find_name (registry_store i n f r) m = (case find_name r m of
      Some x \<Rightarrow> Some x
    | None \<Rightarrow> if equalsIgnoreCase m n then Some \<lparr>ent_id = i, ent_name = n, ent_impl = Some f\<rparr>
              else None)"
  by (simp add: find_name_def registry_store_def find_append split: option.splits)

lemma find_id_Some: "find_id r i = Some e \<Longrightarrow> e \<in> set (entries r) \<and> ent_id e = i"
  by (auto simp: find_id_def find_Some_iff in_set_conv_nth)

lemma find_name_Some:
  "find_name r n = Some e \<Longrightarrow> e \<in> set (entries r) \<and> equalsIgnoreCase n (ent_name e)"
  by (auto simp: find_name_def find_Some_iff in_set_conv_nth)

lemma registry_store_wf [noob_inv]:
  assumes "registry_wf r" "\<not> registry_full_or_taken i n r"
  shows "registry_wf (registry_store i n f r)"
  using assms
  by (auto simp: registry_wf_def registry_full_or_taken_def registry_store_def find_id_def
      find_name_def find_None_iff equalsIgnoreCase_def)

lemma registry_wf_empty [simp]: "registry_wf empty_registry"
  by (simp add: registry_wf_def empty_registry_def)

lemmas registry_add_defs = registry_add_def registry_addText_def registry_addObject_def
  registry_addMixed_def

lemma registry_add_wf [noob_inv]:
  assumes "registry_wf r"
  shows "registry_wf (snd (registry_add i m f r))" "registry_wf (snd (registry_addText i m g r))"
    "registry_wf (snd (registry_addObject i m h r))" "registry_wf (snd (registry_addMixed i m k r))"
  using assms by (auto simp: registry_add_defs registry_store_wf split: option.splits)

text \<open>All four registration routes store through the same check.\<close>

lemma registry_insert_cases:
  assumes "registry_insert e r = (b, r')"
  shows "if b then \<not> registry_full_or_taken (ent_id e) (ent_name e) r \<and>
      r' = registry_store (ent_id e) (ent_name e) (the (ent_impl e)) r \<and> ent_impl e \<noteq> None
    else r' = r"
  using assms by (auto simp: registry_insert_def registry_addObject_def split: option.splits if_splits)

lemma NativeEntry_rebuild:
  "ent_impl e \<noteq> None \<Longrightarrow> \<lparr>ent_id = ent_id e, ent_name = ent_name e, ent_impl = Some (the (ent_impl e))\<rparr> = e"
  for e :: "'w NativeEntry"
  by (cases e) auto

interpretation by_id: grow_only_registry find_id registry_insert ent_id registry_wf
proof unfold_locales
  fix r r' :: "'w NativeRegistry" and e k
  show "registry_wf r \<Longrightarrow> registry_wf (snd (registry_insert e r))"
    by (auto simp: registry_insert_def registry_add_wf split: option.splits)
  show "registry_insert e r = (False, r') \<Longrightarrow> r' = r"
    using registry_insert_cases [of e r False r'] by simp
  show "registry_insert e r = (True, r') \<Longrightarrow> find_id r (ent_id e) = None"
    using registry_insert_cases [of e r True r'] by (simp add: registry_full_or_taken_def)
  show "registry_insert e r = (True, r') \<Longrightarrow> find_id r' k = (case find_id r k of Some x \<Rightarrow> Some x
      | None \<Rightarrow> if k = ent_id e then Some e else None)"
    using registry_insert_cases [of e r True r'] NativeEntry_rebuild [of e]
    by (auto simp: find_id_store split: option.splits)
qed

text \<open>Lookup by name, with the key folded to upper case.\<close>

definition find_upper :: "'w NativeRegistry \<Rightarrow> string \<Rightarrow> 'w NativeEntry option" where
  "find_upper r k = List.find (\<lambda>e. toUpperCase (ent_name e) = k) (entries r)"

lemma find_name_upper: "find_name r n = find_upper r (toUpperCase n)"
  by (simp add: find_name_def find_upper_def equalsIgnoreCase_def eq_commute)

interpretation by_name: grow_only_registry find_upper registry_insert "toUpperCase \<circ> ent_name"
    registry_wf
proof unfold_locales
  fix r r' :: "'w NativeRegistry" and e k
  show "registry_wf r \<Longrightarrow> registry_wf (snd (registry_insert e r))" by (rule by_id.insert_wf)
  show "registry_insert e r = (False, r') \<Longrightarrow> r' = r" by (rule by_id.insert_refused)
  show "registry_insert e r = (True, r') \<Longrightarrow> find_upper r ((toUpperCase \<circ> ent_name) e) = None"
    using registry_insert_cases [of e r True r']
    by (simp add: registry_full_or_taken_def find_name_upper)
  show "registry_insert e r = (True, r') \<Longrightarrow> find_upper r' k = (case find_upper r k of Some x \<Rightarrow> Some x
      | None \<Rightarrow> if k = (toUpperCase \<circ> ent_name) e then Some e else None)"
    using registry_insert_cases [of e r True r'] NativeEntry_rebuild [of e]
    by (auto simp: find_upper_def registry_store_def find_append split: option.splits)
qed

text \<open>Under the invariant, the two ways of resolving an entry agree.\<close>

lemma find_id_iff: "registry_wf r \<Longrightarrow> find_id r i = Some e \<longleftrightarrow> e \<in> set (entries r) \<and> ent_id e = i"
proof (rule iffI)
  assume "registry_wf r" and e: "e \<in> set (entries r) \<and> ent_id e = i"
  then have d: "distinct (map ent_id (entries r))" by (simp add: registry_wf_def)
  obtain x where "find_id r i = Some x"
    using e by (cases "find_id r i") (auto simp: find_id_def find_None_iff)
  with d e show "find_id r i = Some e"
    using find_id_Some [of r i x] by (metis distinct_map inj_onD)
qed (simp add: find_id_Some)

lemma find_name_iff:
  "registry_wf r \<Longrightarrow> find_name r n = Some e \<longleftrightarrow>
     e \<in> set (entries r) \<and> equalsIgnoreCase n (ent_name e)"
proof (rule iffI)
  assume "registry_wf r" and e: "e \<in> set (entries r) \<and> equalsIgnoreCase n (ent_name e)"
  then have d: "distinct (map (toUpperCase \<circ> ent_name) (entries r))" by (simp add: registry_wf_def)
  obtain x where "find_name r n = Some x"
    using e by (cases "find_name r n") (auto simp: find_name_def find_None_iff)
  with d e show "find_name r n = Some e"
    using find_name_Some [of r n x] unfolding equalsIgnoreCase_def
    by (metis comp_apply distinct_map inj_onD)
qed (simp add: find_name_Some)

lemma registry_callMixed_text:
  assumes "ent_impl e = Some f" "length ascii \<le> MAX_ASCII_BYTES" "\<forall>c \<in> set ascii. printable c"
  shows "registry_callMixed e args ascii w = function_callMixed f args ascii w"
  using assms by (auto simp: registry_callMixed_def)

section \<open>Properties\<close>

lemma add_cases:
  assumes "add \<in> {registry_add i n f, registry_addText i n g, registry_addMixed i n h,
      registry_addObject i n p}" "add r = (b, r')"
  shows "(\<not> b \<and> r' = r) \<or> (b \<and> (\<exists>m q. n = Some m \<and> r' = registry_store i m q r \<and>
      \<not> registry_full_or_taken i m r))"
  using assms by (auto simp: registry_add_defs split: option.splits if_splits)

lemma store_resolution:
  assumes "\<not> registry_full_or_taken i m r"
  shows "\<exists>e. entries (registry_store i m q r) = entries r @ [e] \<and> ent_id e = i \<and> ent_name e = m \<and>
     (\<forall>j. find_id (registry_store i m q r) j = (if j = i then Some e else find_id r j)) \<and>
     (\<forall>k. find_name (registry_store i m q r) k =
        (if equalsIgnoreCase k m then Some e else find_name r k))"
proof -
  have i: "find_id r i = None" and m: "find_name r m = None"
    using assms by (auto simp: registry_full_or_taken_def)
  have "find_name r k = None" if "equalsIgnoreCase k m" for k
    using m that unfolding find_name_def find_None_iff equalsIgnoreCase_def by auto
  moreover have "entries (registry_store i m q r) =
      entries r @ [\<lparr>ent_id = i, ent_name = m, ent_impl = Some q\<rparr>]"
    by (simp add: registry_store_def)
  ultimately show ?thesis
    using i by (simp add: find_id_store find_name_store split: option.splits)
qed

text \<open>C7: Registration, by any of the four ways to add a function, either refuses and changes nothing,
  or appends one entry. Afterwards its number and its name in any spelling of case resolve to that
  entry, everything else resolves as before, and the registry is well formed.\<close>

theorem registration_resolves:
  assumes "add \<in> {registry_add i n f, registry_addText i n g, registry_addMixed i n h,
      registry_addObject i n p}"
    and "registry_wf r" "add r = (b, r')"
  shows "registry_wf r' \<and> (\<not> b \<longrightarrow> r' = r) \<and>
    (b \<longrightarrow> (\<exists>e m. n = Some m \<and> entries r' = entries r @ [e] \<and> ent_id e = i \<and> ent_name e = m \<and>
       (\<forall>j. find_id r' j = (if j = i then Some e else find_id r j)) \<and>
       (\<forall>k. find_name r' k = (if equalsIgnoreCase k m then Some e else find_name r k))))"
  using add_cases [OF assms(1,3)] store_resolution [of i _ r] assms(2) registry_store_wf [of r i]
  by blast

theorem registration_resolves_witness:
  "registry_addObject 7 (Some ''LED'') (FunctionObject True False None None None) empty_registry =
     (True, \<lparr>entries = [\<lparr>ent_id = 7, ent_name = ''LED'',
        ent_impl = Some (FunctionObject True False None None None)\<rparr>]\<rparr> :: unit NativeRegistry) \<and>
   registry_wf (\<lparr>entries = [\<lparr>ent_id = 7, ent_name = ''LED'',
        ent_impl = Some (FunctionObject True False None None None)\<rparr>]\<rparr> :: unit NativeRegistry)"
proof -
  let ?f = "FunctionObject True False None None None :: unit NoobFunction"
  let ?r = "\<lparr>entries = [\<lparr>ent_id = 7, ent_name = ''LED'', ent_impl = Some ?f\<rparr>]\<rparr>"
  have a: "registry_addObject 7 (Some ''LED'') ?f empty_registry = (True, ?r)"
    by (simp add: registry_addObject_def registry_full_or_taken_def registry_store_def
        empty_registry_def find_id_def find_name_def MAX_FUNCTIONS_def)
  with registration_resolves [of "registry_addObject 7 (Some ''LED'') ?f" 7 "Some ''LED''" None None
      None ?f empty_registry True ?r]
  show ?thesis by simp
qed

end
