(* ===== verification/Noob_VM.thy ===== *)
theory Noob_VM
  imports Native_Registry
begin

text \<open>
  The bytecode machine of \<open>src/esp/common/src/vm/noob_vm.{h,cpp}\<close>. The machine is a field of the
  world, because native functions that it calls may reach it (the program store loads programs).

  Every array access goes through \<open>arr_get\<close> or \<open>arr_set\<close>; an access outside the array is \<open>None\<close>,
  which stands for the undefined behaviour it has in the source. Program counter, stack depth and
  lengths are \<^typ>\<open>nat\<close>: the invariant \<open>vm_wf\<close> bounds them by 1024 and 8, far below their C types.
  Register arithmetic wraps at 32 bits.
\<close>

section \<open>The machine\<close>

datatype VmState = EMPTY | READY | RUNNING | WAITING | HALTED | STOPPED | FAULT

definition PROGRAM_BYTES :: nat where "PROGRAM_BYTES = 1024"
definition MEMORY_BYTES :: nat where "MEMORY_BYTES = 256"
definition REGISTER_COUNT :: nat where "REGISTER_COUNT = 8"
definition CALL_DEPTH :: nat where "CALL_DEPTH = 8"

record NoobVm =
  vm_program :: "u8 list"
  vm_memory :: "u8 list"
  vm_registers :: "int32 list"
  vm_stack :: "nat list"
  vm_length :: nat
  vm_pc :: nat
  vm_depth :: nat
  vm_wake :: u32
  vm_state :: VmState
  vm_fault :: string

record vm_world = noob_world +
  vm :: NoobVm

definition initial_vm :: NoobVm where
  "initial_vm = \<lparr>vm_program = replicate PROGRAM_BYTES 0, vm_memory = replicate MEMORY_BYTES 0,
     vm_registers = replicate REGISTER_COUNT 0, vm_stack = replicate CALL_DEPTH 0, vm_length = 0,
     vm_pc = 0, vm_depth = 0, vm_wake = 0, vm_state = EMPTY, vm_fault = []\<rparr>"

definition arr_get :: "'x list \<Rightarrow> nat \<Rightarrow> 'x option" where
  "arr_get xs i = (if i < length xs then Some (xs ! i) else None)"

definition arr_set :: "'x list \<Rightarrow> nat \<Rightarrow> 'x \<Rightarrow> 'x list option" where
  "arr_set xs i x = (if i < length xs then Some (xs[i := x]) else None)"

fun stateName :: "VmState \<Rightarrow> string" where
  "stateName EMPTY = ''EMPTY''"
| "stateName READY = ''READY''"
| "stateName RUNNING = ''RUNNING''"
| "stateName WAITING = ''WAITING''"
| "stateName HALTED = ''HALTED''"
| "stateName STOPPED = ''STOPPED''"
| "stateName FAULT = ''FAULT''"

definition vm_active :: "NoobVm \<Rightarrow> bool" where
  "vm_active v \<longleftrightarrow> vm_state v = RUNNING \<or> vm_state v = WAITING"

section \<open>Loading, running, stopping\<close>

definition vm_load :: "u8 list option \<Rightarrow> NoobVm \<Rightarrow> string + NoobVm" where
  "vm_load program v = (case program of
       None \<Rightarrow> Inl ''program size must be 1..1024 bytes''
     | Some bytes \<Rightarrow>
         if bytes = [] \<or> length bytes > PROGRAM_BYTES
         then Inl ''program size must be 1..1024 bytes''
         else if vm_active v then Inl ''stop VM before replacing program''
         else Inr (v\<lparr>vm_program := bytes @ drop (length bytes) (vm_program v),
                     vm_length := length bytes, vm_pc := 0, vm_depth := 0,
                     vm_registers := replicate REGISTER_COUNT 0,
                     vm_memory := replicate MEMORY_BYTES 0, vm_fault := [], vm_state := READY\<rparr>))"

definition vm_run :: "NoobVm \<Rightarrow> string + NoobVm" where
  "vm_run v = (if vm_length v = 0 then Inl ''no program loaded''
     else if vm_active v then Inl ''VM already running''
     else Inr (v\<lparr>vm_pc := 0, vm_depth := 0, vm_state := RUNNING\<rparr>))"

definition vm_stop :: "NoobVm \<Rightarrow> NoobVm" where
  "vm_stop v = (if vm_active v then v\<lparr>vm_state := STOPPED\<rparr> else v)"

definition vm_reset :: "NoobVm \<Rightarrow> NoobVm" where
  "vm_reset v = v\<lparr>vm_length := 0, vm_pc := 0, vm_depth := 0,
     vm_program := replicate PROGRAM_BYTES 0, vm_memory := replicate MEMORY_BYTES 0,
     vm_registers := replicate REGISTER_COUNT 0, vm_fault := [], vm_state := EMPTY\<rparr>"

definition vm_status :: "NoobVm \<Rightarrow> string" where
  "vm_status v = ''state='' @ stateName (vm_state v) @ '' pc='' @ show_nat (vm_pc v) @
     '' bytes='' @ show_nat (vm_length v) @ '' regs='' @
     join_with '','' (map show_i32 (vm_registers v)) @
     (if vm_fault v = [] then [] else '' fault='' @ vm_fault v)"

definition vm_reg :: "NoobVm \<Rightarrow> u8 \<Rightarrow> int32" where
  "vm_reg v i = (if unat i < REGISTER_COUNT then vm_registers v ! unat i else 0)"

section \<open>Instruction fetch\<close>

definition need :: "nat \<Rightarrow> NoobVm \<Rightarrow> bool" where
  "need n v \<longleftrightarrow> vm_pc v + n \<le> vm_length v"

definition fault :: "string \<Rightarrow> NoobVm \<Rightarrow> NoobVm" where
  "fault m v = v\<lparr>vm_fault := m, vm_state := FAULT\<rparr>"

abbreviation truncated :: "NoobVm \<Rightarrow> NoobVm" where
  "truncated v \<equiv> fault ''truncated instruction'' v"

abbreviation bad_register :: "NoobVm \<Rightarrow> NoobVm" where
  "bad_register v \<equiv> fault ''invalid register'' v"

definition validRegister :: "u8 \<Rightarrow> bool" where
  "validRegister i \<longleftrightarrow> unat i < REGISTER_COUNT"

text \<open>\<open>a | b << 8\<close> and \<open>a | b << 8 | c << 16 | d << 24\<close>, each byte widened first.\<close>

definition word16 :: "u8 \<Rightarrow> u8 \<Rightarrow> u16" where
  "word16 a b = ucast a OR push_bit 8 (ucast b)"

definition word32 :: "u8 \<Rightarrow> u8 \<Rightarrow> u8 \<Rightarrow> u8 \<Rightarrow> int32" where
  "word32 a b c d =
     ucast a OR push_bit 8 (ucast b) OR push_bit 16 (ucast c) OR push_bit 24 (ucast d)"

definition read8 :: "NoobVm \<Rightarrow> (u8 \<times> NoobVm) option" where
  "read8 v = do { b \<leftarrow> arr_get (vm_program v) (vm_pc v); Some (b, v\<lparr>vm_pc := vm_pc v + 1\<rparr>) }"

definition read16 :: "NoobVm \<Rightarrow> (u16 \<times> NoobVm) option" where
  "read16 v = do {
     a \<leftarrow> arr_get (vm_program v) (vm_pc v);
     b \<leftarrow> arr_get (vm_program v) (vm_pc v + 1);
     Some (word16 a b, v\<lparr>vm_pc := vm_pc v + 2\<rparr>) }"

definition read32 :: "NoobVm \<Rightarrow> (int32 \<times> NoobVm) option" where
  "read32 v = do {
     (a, v) \<leftarrow> read8 v; (b, v) \<leftarrow> read8 v; (c, v) \<leftarrow> read8 v; (d, v) \<leftarrow> read8 v;
     Some (word32 a b c d, v) }"

definition get_register :: "u8 \<Rightarrow> NoobVm \<Rightarrow> int32 option" where
  "get_register r v = arr_get (vm_registers v) (unat r)"

definition set_register :: "u8 \<Rightarrow> int32 \<Rightarrow> NoobVm \<Rightarrow> NoobVm option" where
  "set_register r x v = do {
     rs \<leftarrow> arr_set (vm_registers v) (unat r) x; Some (v\<lparr>vm_registers := rs\<rparr>) }"

section \<open>Instructions\<close>

definition exec_imm :: "NoobVm \<Rightarrow> NoobVm option" where
  "exec_imm v = (if \<not> need 5 v then Some (truncated v) else do {
     (d, v) \<leftarrow> read8 v; (x, v) \<leftarrow> read32 v;
     if validRegister d then set_register d x v else Some (bad_register v) })"

definition exec_mov :: "NoobVm \<Rightarrow> NoobVm option" where
  "exec_mov v = (if \<not> need 2 v then Some (truncated v) else do {
     (d, v) \<leftarrow> read8 v; (s, v) \<leftarrow> read8 v;
     if validRegister d \<and> validRegister s
     then do { x \<leftarrow> get_register s v; set_register d x v } else Some (bad_register v) })"

text \<open>C division truncates toward zero.\<close>

definition trunc_div :: "int \<Rightarrow> int \<Rightarrow> int" where
  "trunc_div a b = sgn a * sgn b * (\<bar>a\<bar> div \<bar>b\<bar>)"

definition arith :: "u8 \<Rightarrow> int32 \<Rightarrow> int32 \<Rightarrow> int32" where
  "arith opcode x y = (if opcode = 0x03 then x + y
     else if opcode = 0x04 then x - y
     else if opcode = 0x05 then x * y
     else word_of_int (trunc_div (sint x) (sint y)))"

definition exec_arith :: "u8 \<Rightarrow> NoobVm \<Rightarrow> NoobVm option" where
  "exec_arith opcode v = (if \<not> need 3 v then Some (truncated v) else do {
     (d, v) \<leftarrow> read8 v; (a, v) \<leftarrow> read8 v; (b, v) \<leftarrow> read8 v;
     if \<not> validRegister d \<or> \<not> validRegister a \<or> \<not> validRegister b then Some (bad_register v)
     else do {
       x \<leftarrow> get_register a v; y \<leftarrow> get_register b v;
       if opcode = 0x06 \<and> y = 0 then Some (fault ''division by zero'' v)
       else set_register d (arith opcode x y) v } })"

definition exec_jump :: "NoobVm \<Rightarrow> NoobVm option" where
  "exec_jump v = (if \<not> need 2 v then Some (truncated v) else do {
     (target, v) \<leftarrow> read16 v;
     if unat target \<ge> vm_length v then Some (fault ''jump outside program'' v)
     else Some (v\<lparr>vm_pc := unat target\<rparr>) })"

definition exec_branch :: "u8 \<Rightarrow> NoobVm \<Rightarrow> NoobVm option" where
  "exec_branch opcode v = (if \<not> need 3 v then Some (truncated v) else do {
     (r, v) \<leftarrow> read8 v; (target, v) \<leftarrow> read16 v;
     if \<not> validRegister r then Some (bad_register v)
     else do {
       x \<leftarrow> get_register r v;
       if (if opcode = 0x11 then x = 0 else x \<noteq> 0)
       then if unat target \<ge> vm_length v then Some (fault ''jump outside program'' v)
            else Some (v\<lparr>vm_pc := unat target\<rparr>)
       else Some v } })"

definition exec_call :: "NoobVm \<Rightarrow> NoobVm option" where
  "exec_call v = (if \<not> need 2 v then Some (truncated v) else do {
     (target, v) \<leftarrow> read16 v;
     if unat target \<ge> vm_length v \<or> vm_depth v \<ge> CALL_DEPTH then Some (fault ''invalid call'' v)
     else do {
       st \<leftarrow> arr_set (vm_stack v) (vm_depth v) (vm_pc v);
       Some (v\<lparr>vm_stack := st, vm_depth := vm_depth v + 1, vm_pc := unat target\<rparr>) } })"

definition exec_ret :: "NoobVm \<Rightarrow> NoobVm option" where
  "exec_ret v = (if vm_depth v = 0 then Some (fault ''return stack empty'' v) else do {
     a \<leftarrow> arr_get (vm_stack v) (vm_depth v - 1);
     Some (v\<lparr>vm_depth := vm_depth v - 1, vm_pc := a\<rparr>) })"

fun read_args :: "nat \<Rightarrow> NoobVm \<Rightarrow> (int32 list option \<times> NoobVm) option" where
  "read_args 0 v = Some (Some [], v)"
| "read_args (Suc n) v = do {
     (r, v) \<leftarrow> read8 v;
     if \<not> validRegister r then Some (None, bad_register v)
     else do { x \<leftarrow> get_register r v; (xs, v) \<leftarrow> read_args n v;
               Some (map_option ((#) x) xs, v) } }"

fun read_text :: "nat \<Rightarrow> NoobVm \<Rightarrow> (string \<times> NoobVm) option" where
  "read_text 0 v = Some ([], v)"
| "read_text (Suc n) v = do {
     (b, v) \<leftarrow> read8 v; (cs, v) \<leftarrow> read_text n v; Some (char_of (unat b) # cs, v) }"

text \<open>The call through the registry, once the operands are decoded.\<close>

definition syscall :: "('a vm_world_scheme) NativeRegistry \<Rightarrow> u8 \<Rightarrow> u8 \<Rightarrow> u16 \<Rightarrow> int32 list \<Rightarrow> string
    \<Rightarrow> 'a vm_world_scheme \<Rightarrow> 'a vm_world_scheme option" where
  "syscall reg opcode d i args ascii w = (case find_id reg i of
       None \<Rightarrow> Some (w\<lparr>vm := fault ''unknown numeric syscall'' (vm w)\<rparr>)
     | Some e \<Rightarrow>
         if (case ent_impl e of None \<Rightarrow> True | Some f \<Rightarrow> opcode = 0x20 \<and> \<not> acceptsNumbers f)
         then Some (w\<lparr>vm := fault ''unknown numeric syscall'' (vm w)\<rparr>)
         else let (result, w) = registry_callMixed e args ascii w
              in if \<not> r_ok result
                 then Some (w\<lparr>vm := fault (''syscall '' @ show_nat (unat i) @ '': '' @
                                          r_detail result) (vm w)\<rparr>)
                 else do { v \<leftarrow> set_register d (r_value result) (vm w); Some (w\<lparr>vm := v\<rparr>) })"

definition exec_syscall_text :: "('a vm_world_scheme) NativeRegistry \<Rightarrow> u8 \<Rightarrow> u8 \<Rightarrow> u16 \<Rightarrow> int32 list
    \<Rightarrow> NoobVm \<Rightarrow> 'a vm_world_scheme \<Rightarrow> 'a vm_world_scheme option" where
  "exec_syscall_text reg opcode d i args v w =
     (if opcode = 0x22
      then if \<not> need 1 v then Some (w\<lparr>vm := truncated v\<rparr>)
           else do {
             (len, v) \<leftarrow> read8 v;
             if \<not> need (unat len) v then Some (w\<lparr>vm := truncated v\<rparr>)
             else do {
               (ascii, v) \<leftarrow> read_text (unat len) v;
               syscall reg opcode d i args ascii (w\<lparr>vm := v\<rparr>) } }
      else syscall reg opcode d i args [] (w\<lparr>vm := v\<rparr>))"

definition exec_syscall_args :: "('a vm_world_scheme) NativeRegistry \<Rightarrow> u8 \<Rightarrow> u8 \<Rightarrow> u16 \<Rightarrow> u8
    \<Rightarrow> NoobVm \<Rightarrow> 'a vm_world_scheme \<Rightarrow> 'a vm_world_scheme option" where
  "exec_syscall_args reg opcode d i count v w =
     (if \<not> validRegister d then Some (w\<lparr>vm := bad_register v\<rparr>)
      else if unat count > REGISTER_COUNT
      then Some (w\<lparr>vm := fault ''too many syscall arguments'' v\<rparr>)
      else if \<not> need (unat count) v then Some (w\<lparr>vm := truncated v\<rparr>)
      else do {
        (oargs, v) \<leftarrow> read_args (unat count) v;
        (case oargs of None \<Rightarrow> Some (w\<lparr>vm := v\<rparr>)
         | Some args \<Rightarrow> exec_syscall_text reg opcode d i args v w) })"

definition exec_syscall :: "('a vm_world_scheme) NativeRegistry \<Rightarrow> u8 \<Rightarrow> 'a vm_world_scheme
    \<Rightarrow> 'a vm_world_scheme option" where
  "exec_syscall reg opcode w = (let v = vm w in
     if \<not> need 4 v then Some (w\<lparr>vm := truncated v\<rparr>) else do {
       (d, v) \<leftarrow> read8 v; (i, v) \<leftarrow> read16 v; (count, v) \<leftarrow> read8 v;
       exec_syscall_args reg opcode d i count v w })"

definition exec_wait :: "'a vm_world_scheme \<Rightarrow> 'a vm_world_scheme option" where
  "exec_wait w = (let v = vm w in
     if \<not> need 2 v then Some (w\<lparr>vm := truncated v\<rparr>) else do {
       (ms, v) \<leftarrow> read16 v;
       let (now, w) = millis w
       in Some (w\<lparr>vm := v\<lparr>vm_wake := now + ucast ms, vm_state := WAITING\<rparr>\<rparr>) })"

definition exec_load :: "NoobVm \<Rightarrow> NoobVm option" where
  "exec_load v = (if \<not> need 2 v then Some (truncated v) else do {
     (d, v) \<leftarrow> read8 v; (address, v) \<leftarrow> read8 v;
     if validRegister d
     then do { b \<leftarrow> arr_get (vm_memory v) (unat address); set_register d (ucast b) v }
     else Some (bad_register v) })"

definition exec_store :: "NoobVm \<Rightarrow> NoobVm option" where
  "exec_store v = (if \<not> need 2 v then Some (truncated v) else do {
     (address, v) \<leftarrow> read8 v; (s, v) \<leftarrow> read8 v;
     if validRegister s
     then do { x \<leftarrow> get_register s v;
               m \<leftarrow> arr_set (vm_memory v) (unat address) (ucast (x AND 0xff));
               Some (v\<lparr>vm_memory := m\<rparr>) }
     else Some (bad_register v) })"

definition on_vm :: "(NoobVm \<Rightarrow> NoobVm option) \<Rightarrow> 'a vm_world_scheme \<Rightarrow> 'a vm_world_scheme option" where
  "on_vm f w = do { v \<leftarrow> f (vm w); Some (w\<lparr>vm := v\<rparr>) }"

definition executeOne :: "('a vm_world_scheme) NativeRegistry \<Rightarrow> 'a vm_world_scheme
    \<Rightarrow> 'a vm_world_scheme option" where
  "executeOne reg w = (if \<not> need 1 (vm w) then Some (w\<lparr>vm := truncated (vm w)\<rparr>) else do {
     (opcode, v) \<leftarrow> read8 (vm w);
     let w = w\<lparr>vm := v\<rparr> in
     if opcode = 0x00 then Some (w\<lparr>vm := v\<lparr>vm_state := HALTED\<rparr>\<rparr>)
     else if opcode = 0x01 then on_vm exec_imm w
     else if opcode = 0x02 then on_vm exec_mov w
     else if 0x03 \<le> opcode \<and> opcode \<le> 0x06 then on_vm (exec_arith opcode) w
     else if opcode = 0x10 then on_vm exec_jump w
     else if opcode = 0x11 \<or> opcode = 0x12 then on_vm (exec_branch opcode) w
     else if opcode = 0x13 then on_vm exec_call w
     else if opcode = 0x14 then on_vm exec_ret w
     else if opcode = 0x20 \<or> opcode = 0x22 then exec_syscall reg opcode w
     else if opcode = 0x21 then exec_wait w
     else if opcode = 0x30 then on_vm exec_load w
     else if opcode = 0x31 then on_vm exec_store w
     else Some (w\<lparr>vm := fault (''unknown opcode '' @ show_nat (unat opcode)) v\<rparr>) })"

fun run_budget :: "('a vm_world_scheme) NativeRegistry \<Rightarrow> nat \<Rightarrow> 'a vm_world_scheme
    \<Rightarrow> 'a vm_world_scheme option" where
  "run_budget reg 0 w = Some w"
| "run_budget reg (Suc n) w = (if vm_state (vm w) = RUNNING
     then do { w' \<leftarrow> executeOne reg w; run_budget reg n w' } else Some w)"

definition vm_tick :: "('a vm_world_scheme) NativeRegistry \<Rightarrow> nat \<Rightarrow> 'a vm_world_scheme
    \<Rightarrow> 'a vm_world_scheme option" where
  "vm_tick reg budget w = (if vm_state (vm w) = WAITING
     then let (now, w) = millis w in
       if not_due now (vm_wake (vm w)) then Some w
       else run_budget reg budget (w\<lparr>vm := (vm w)\<lparr>vm_state := RUNNING\<rparr>\<rparr>)
     else run_budget reg budget w)"

section \<open>The invariant\<close>

definition vm_shape :: "NoobVm \<Rightarrow> bool" where
  "vm_shape v \<longleftrightarrow> length (vm_program v) = PROGRAM_BYTES \<and> length (vm_memory v) = MEMORY_BYTES \<and>
     length (vm_registers v) = REGISTER_COUNT \<and> length (vm_stack v) = CALL_DEPTH \<and>
     vm_length v \<le> PROGRAM_BYTES \<and> vm_depth v \<le> CALL_DEPTH \<and>
     (\<forall>i < vm_depth v. vm_stack v ! i \<le> vm_length v) \<and>
     (vm_active v \<longrightarrow> 0 < vm_length v) \<and> (vm_state v = EMPTY \<longrightarrow> vm_length v = 0)"

definition vm_wf :: "NoobVm \<Rightarrow> bool" where
  "vm_wf v \<longleftrightarrow> vm_shape v \<and> vm_pc v \<le> vm_length v"

text \<open>A native function respects the machine when it keeps the invariant on every call.\<close>

definition native_keeps_vm :: "('a vm_world_scheme) NoobFunction \<Rightarrow> bool" where
  "native_keeps_vm f \<longleftrightarrow>
     (\<forall>args ascii w. vm_wf (vm w) \<longrightarrow> vm_wf (vm (snd (function_callMixed f args ascii w))))"

definition registry_keeps_vm :: "('a vm_world_scheme) NativeRegistry \<Rightarrow> bool" where
  "registry_keeps_vm reg \<longleftrightarrow>
     (\<forall>e \<in> set (entries reg). \<forall>f. ent_impl e = Some f \<longrightarrow> native_keeps_vm f)"

lemmas vm_sizes = PROGRAM_BYTES_def MEMORY_BYTES_def REGISTER_COUNT_def CALL_DEPTH_def

lemma vm_shape_pc [simp]: "vm_shape (v\<lparr>vm_pc := x\<rparr>) = vm_shape v"
  by (simp add: vm_shape_def vm_active_def)

lemma vm_shape_fault [simp]: "vm_shape v \<Longrightarrow> vm_shape (fault m v)"
  by (simp add: vm_shape_def fault_def vm_active_def)

lemma fault_simps [simp]:
  "vm_pc (fault m v) = vm_pc v" "vm_length (fault m v) = vm_length v"
  "vm_state (fault m v) = FAULT" "vm_fault (fault m v) = m"
  "vm_registers (fault m v) = vm_registers v" "vm_memory (fault m v) = vm_memory v"
  "vm_program (fault m v) = vm_program v" "vm_stack (fault m v) = vm_stack v"
  "vm_depth (fault m v) = vm_depth v" "vm_wake (fault m v) = vm_wake v"
  by (simp_all add: fault_def)

lemma vm_wf_fault [simp]: "vm_wf v \<Longrightarrow> vm_wf (fault m v)"
  by (simp add: vm_wf_def)

lemma vm_wf_initial [simp]: "vm_wf initial_vm"
  by (simp add: vm_wf_def vm_shape_def initial_vm_def vm_sizes vm_active_def)

lemma vm_load_wf [noob_inv]: "vm_wf v \<Longrightarrow> vm_load p v = Inr v' \<Longrightarrow> vm_wf v'"
  by (auto simp: vm_load_def vm_wf_def vm_shape_def vm_active_def vm_sizes
      split: option.splits if_splits)

lemma vm_run_wf [noob_inv]: "vm_wf v \<Longrightarrow> vm_run v = Inr v' \<Longrightarrow> vm_wf v'"
  by (auto simp: vm_run_def vm_wf_def vm_shape_def vm_active_def split: if_splits)

lemma vm_stop_wf [noob_inv]: "vm_wf v \<Longrightarrow> vm_wf (vm_stop v)"
  by (auto simp: vm_stop_def vm_wf_def vm_shape_def vm_active_def)

lemma vm_reset_wf [noob_inv]: "vm_wf v \<Longrightarrow> vm_wf (vm_reset v)"
  by (auto simp: vm_reset_def vm_wf_def vm_shape_def vm_active_def vm_sizes)

section \<open>Fetch stays inside the arrays\<close>

lemma vm_program_in_range:
  "vm_shape v \<Longrightarrow> i < vm_length v \<Longrightarrow> arr_get (vm_program v) i = Some (vm_program v ! i)"
  by (simp add: vm_shape_def arr_get_def)

lemma read8_eq: "vm_shape v \<Longrightarrow> vm_pc v < vm_length v \<Longrightarrow>
    read8 v = Some (vm_program v ! vm_pc v, v\<lparr>vm_pc := vm_pc v + 1\<rparr>)"
  by (simp add: read8_def vm_program_in_range)

lemma read16_eq: "vm_shape v \<Longrightarrow> Suc (vm_pc v) < vm_length v \<Longrightarrow>
    read16 v = Some (word16 (vm_program v ! vm_pc v) (vm_program v ! Suc (vm_pc v)),
      v\<lparr>vm_pc := vm_pc v + 2\<rparr>)"
  by (simp add: read16_def vm_program_in_range)

lemma read32_eq: "vm_shape v \<Longrightarrow> vm_pc v + 3 < vm_length v \<Longrightarrow>
    read32 v = Some (word32 (vm_program v ! vm_pc v) (vm_program v ! (vm_pc v + 1))
        (vm_program v ! (vm_pc v + 2)) (vm_program v ! (vm_pc v + 3)), v\<lparr>vm_pc := vm_pc v + 4\<rparr>)"
  by (simp add: read32_def read8_eq eval_nat_numeral)

lemma get_register_eq:
  "vm_shape v \<Longrightarrow> validRegister r \<Longrightarrow> get_register r v = Some (vm_registers v ! unat r)"
  by (simp add: get_register_def arr_get_def vm_shape_def validRegister_def)

lemma set_register_eq: "vm_shape v \<Longrightarrow> validRegister r \<Longrightarrow>
    set_register r x v = Some (v\<lparr>vm_registers := (vm_registers v)[unat r := x]\<rparr>)"
  by (simp add: set_register_def arr_set_def vm_shape_def validRegister_def)

lemma vm_shape_registers [simp]:
  "vm_shape (v\<lparr>vm_registers := (vm_registers v)[i := x]\<rparr>) = vm_shape v"
  "vm_shape (v\<lparr>vm_pc := p, vm_registers := (vm_registers v)[i := x]\<rparr>) = vm_shape v"
  by (simp_all add: vm_shape_def vm_active_def)

lemma vm_shape_memory [simp]:
  "vm_shape (v\<lparr>vm_pc := p, vm_memory := (vm_memory v)[i := x]\<rparr>) = vm_shape v"
  by (simp add: vm_shape_def vm_active_def)

lemma vm_shape_lengths:
  "vm_shape v \<Longrightarrow> length (vm_stack v) = CALL_DEPTH"
  "vm_shape v \<Longrightarrow> length (vm_memory v) = 256"
  by (simp_all add: vm_shape_def MEMORY_BYTES_def)

lemmas fetch_eqs = read8_eq read16_eq read32_eq get_register_eq set_register_eq need_def vm_wf_def

text \<open>Each instruction, started inside the program, ends defined and keeps the invariant.\<close>

definition vm_total :: "(NoobVm \<Rightarrow> NoobVm option) \<Rightarrow> bool" where
  "vm_total f \<longleftrightarrow> (\<forall>v. vm_wf v \<longrightarrow> (\<exists>v'. f v = Some v' \<and> vm_wf v'))"

lemma exec_imm_total: "vm_total exec_imm"
  by (auto simp: vm_total_def exec_imm_def fetch_eqs)

lemma exec_mov_total: "vm_total exec_mov"
  by (auto simp: vm_total_def exec_mov_def fetch_eqs)

lemma exec_arith_total: "vm_total (exec_arith opcode)"
  by (auto simp: vm_total_def exec_arith_def fetch_eqs Let_def)

lemma exec_jump_total: "vm_total exec_jump"
  by (auto simp: vm_total_def exec_jump_def fetch_eqs)

lemma exec_branch_total: "vm_total (exec_branch opcode)"
  by (auto simp: vm_total_def exec_branch_def fetch_eqs)

lemma vm_shape_push:
  assumes "vm_shape v" "vm_depth v < CALL_DEPTH" "a \<le> vm_length v"
  shows "vm_shape (v\<lparr>vm_stack := (vm_stack v)[vm_depth v := a],
    vm_depth := Suc (vm_depth v)\<rparr>)"
  using assms by (auto simp: vm_shape_def vm_active_def nth_list_update less_Suc_eq)

lemma vm_shape_pop:
  "vm_shape v \<Longrightarrow> vm_shape (v\<lparr>vm_depth := vm_depth v - Suc 0\<rparr>)"
  by (auto simp: vm_shape_def vm_active_def)

lemma exec_call_total: "vm_total exec_call"
  by (auto simp: vm_total_def exec_call_def fetch_eqs arr_set_def vm_shape_lengths vm_shape_push)

lemma exec_ret_total: "vm_total exec_ret"
  unfolding vm_total_def
proof (intro allI impI)
  fix v
  assume wf: "vm_wf v"
  show "\<exists>v'. exec_ret v = Some v' \<and> vm_wf v'"
  proof (cases "vm_depth v = 0")
    case True
    with wf show ?thesis by (simp add: exec_ret_def)
  next
    case False
    with wf have "vm_depth v - 1 < length (vm_stack v)"
      and "vm_stack v ! (vm_depth v - 1) \<le> vm_length v"
      by (auto simp: vm_wf_def vm_shape_def)
    with False wf vm_shape_pop [of v] show ?thesis
      by (simp add: exec_ret_def arr_get_def vm_wf_def)
  qed
qed

lemma unat_u8_lt [simp]: "unat (b :: u8) < 256"
  using unsigned_less [of b] by simp

lemma exec_load_total: "vm_total exec_load"
  by (auto simp: vm_total_def exec_load_def fetch_eqs arr_get_def vm_shape_lengths)

lemma exec_store_total: "vm_total exec_store"
  by (auto simp: vm_total_def exec_store_def fetch_eqs arr_set_def vm_shape_lengths)

lemmas exec_totals = exec_imm_total exec_mov_total exec_arith_total exec_jump_total
  exec_branch_total exec_call_total exec_ret_total exec_load_total exec_store_total

lemma read_args_wf:
  assumes "vm_wf v" "need n v"
  shows "\<exists>xs v'. read_args n v = Some (xs, v') \<and> vm_wf v' \<and>
    (xs \<noteq> None \<longrightarrow> v' = v\<lparr>vm_pc := vm_pc v + n\<rparr>)"
  using assms
proof (induction n arbitrary: v)
  case 0
  then show ?case by simp
next
  case (Suc n)
  let ?v = "v\<lparr>vm_pc := vm_pc v + 1\<rparr>"
  have r: "read8 v = Some (vm_program v ! vm_pc v, ?v)" and wf: "vm_wf ?v" "need n ?v"
    using Suc.prems by (simp_all add: fetch_eqs)
  show ?case
  proof (cases "validRegister (vm_program v ! vm_pc v)")
    case False
    with r wf show ?thesis by simp
  next
    case True
    then have g: "get_register (vm_program v ! vm_pc v) ?v =
        Some (vm_registers v ! unat (vm_program v ! vm_pc v))"
      using wf by (simp add: fetch_eqs)
    from Suc.IH [OF wf] obtain xs v' where "read_args n ?v = Some (xs, v')" "vm_wf v'"
      "xs \<noteq> None \<longrightarrow> v' = ?v\<lparr>vm_pc := vm_pc ?v + n\<rparr>" by blast
    with r True g show ?thesis by auto
  qed
qed

lemma read_text_wf:
  assumes "vm_wf v" "need n v"
  shows "\<exists>cs. read_text n v = Some (cs, v\<lparr>vm_pc := vm_pc v + n\<rparr>)"
  using assms
proof (induction n arbitrary: v)
  case 0
  then show ?case by simp
next
  case (Suc n)
  let ?v = "v\<lparr>vm_pc := vm_pc v + 1\<rparr>"
  have "read8 v = Some (vm_program v ! vm_pc v, ?v)" and "vm_wf ?v" "need n ?v"
    using Suc.prems by (simp_all add: fetch_eqs)
  with Suc.IH [of ?v] show ?case by auto
qed

section \<open>The machine over a registry of well-behaved natives\<close>

lemma vm_wf_waiting: "vm_wf v \<Longrightarrow> 0 < vm_length v \<Longrightarrow> vm_wf (v\<lparr>vm_wake := t, vm_state := WAITING\<rparr>)"
  by (auto simp: vm_wf_def vm_shape_def vm_active_def)

lemma vm_wf_halted: "vm_wf v \<Longrightarrow> vm_wf (v\<lparr>vm_state := HALTED\<rparr>)"
  by (auto simp: vm_wf_def vm_shape_def vm_active_def)

lemma vm_wf_resume: "vm_wf v \<Longrightarrow> vm_state v = WAITING \<Longrightarrow> vm_wf (v\<lparr>vm_state := RUNNING\<rparr>)"
  by (auto simp: vm_wf_def vm_shape_def vm_active_def)

lemma vm_wf_advance: "vm_wf v \<Longrightarrow> vm_pc v + n \<le> vm_length v \<Longrightarrow> vm_wf (v\<lparr>vm_pc := vm_pc v + n\<rparr>)"
  by (simp add: vm_wf_def)

lemma set_register_wf:
  "vm_wf v \<Longrightarrow> validRegister r \<Longrightarrow> \<exists>v'. set_register r x v = Some v' \<and> vm_wf v'"
  by (simp add: fetch_eqs)

lemma on_vm_total:
  "vm_total f \<Longrightarrow> vm_wf (vm w) \<Longrightarrow> \<exists>w'. on_vm f w = Some w' \<and> vm_wf (vm w')"
  by (force simp: vm_total_def on_vm_def)

lemma exec_wait_total:
  assumes "vm_wf (vm w)"
  shows "\<exists>w'. exec_wait w = Some w' \<and> vm_wf (vm w')"
proof (cases "need 2 (vm w)")
  case False
  with assms show ?thesis by (simp add: exec_wait_def)
next
  case True
  with assms have "vm_wf ((vm w)\<lparr>vm_pc := vm_pc (vm w) + 2\<rparr>)" and "0 < vm_length (vm w)"
    by (auto simp: vm_wf_def need_def)
  with vm_wf_waiting [of "(vm w)\<lparr>vm_pc := vm_pc (vm w) + 2\<rparr>"] True assms show ?thesis
    by (simp add: exec_wait_def Let_def fetch_eqs case_prod_beta)
qed

locale vm_over_natives =
  fixes reg :: "('a vm_world_scheme) NativeRegistry"
  assumes natives_keep_vm: "registry_keeps_vm reg"
begin

lemma callMixed_keeps:
  assumes "vm_wf (vm w)" "find_id reg i = Some e"
  shows "vm_wf (vm (snd (registry_callMixed e args ascii w)))"
  using assms natives_keep_vm find_id_Some [OF assms(2)]
  by (auto simp: registry_callMixed_def registry_keeps_vm_def native_keeps_vm_def
      split: option.splits)

lemma syscall_total:
  assumes "vm_wf (vm w)" "validRegister d"
  shows "\<exists>w'. syscall reg opcode d i args ascii w = Some w' \<and> vm_wf (vm w')"
proof (cases "find_id reg i")
  case None
  with assms show ?thesis by (simp add: syscall_def)
next
  case (Some e)
  obtain result w' where c: "registry_callMixed e args ascii w = (result, w')" by force
  have "vm_wf (vm w')" using callMixed_keeps [OF assms(1) Some, of args ascii] c by simp
  with set_register_wf [OF this assms(2), of "r_value result"] Some c assms(1) show ?thesis
    by (auto simp: syscall_def Let_def)
qed

lemma exec_syscall_text_total:
  assumes wf: "vm_wf v" and d: "validRegister d"
  shows "\<exists>w'. exec_syscall_text reg opcode d i args v w = Some w' \<and> vm_wf (vm w')"
proof (cases "opcode = 0x22 \<and> need 1 v")
  case False
  with wf d syscall_total show ?thesis by (simp add: exec_syscall_text_def)
next
  case lit: True
  define v' where "v' = v\<lparr>vm_pc := vm_pc v + 1\<rparr>"
  let ?n = "unat (vm_program v ! vm_pc v)"
  have r: "read8 v = Some (vm_program v ! vm_pc v, v')" and wf': "vm_wf v'"
    using lit wf by (simp_all add: fetch_eqs v'_def)
  show ?thesis
  proof (cases "need ?n v'")
    case False
    with lit r wf' show ?thesis by (simp add: exec_syscall_text_def)
  next
    case True
    with read_text_wf [OF wf' True] vm_wf_advance [OF wf', of ?n] obtain cs v'' where
      "read_text ?n v' = Some (cs, v'')" "vm_wf v''" by (auto simp: need_def)
    with lit r True d syscall_total show ?thesis by (simp add: exec_syscall_text_def)
  qed
qed

lemma exec_syscall_args_total:
  assumes wf: "vm_wf v"
  shows "\<exists>w'. exec_syscall_args reg opcode d i n v w = Some w' \<and> vm_wf (vm w')"
proof (cases "validRegister d \<and> unat n \<le> REGISTER_COUNT \<and> need (unat n) v")
  case False
  with wf show ?thesis by (auto simp: exec_syscall_args_def)
next
  case True
  with read_args_wf [OF wf, of "unat n"] obtain xs v' where
    "read_args (unat n) v = Some (xs, v')" "vm_wf v'" by blast
  with True exec_syscall_text_total [of v' d] show ?thesis
    by (cases xs) (simp_all add: exec_syscall_args_def)
qed

lemma exec_syscall_total:
  assumes wf: "vm_wf (vm w)"
  shows "\<exists>w'. exec_syscall reg opcode w = Some w' \<and> vm_wf (vm w')"
proof (cases "need 4 (vm w)")
  case False
  with wf show ?thesis by (simp add: exec_syscall_def Let_def)
next
  case True
  let ?v = "vm w"
  have "vm_wf (?v\<lparr>vm_pc := vm_pc ?v + 4\<rparr>)" using True wf by (simp add: fetch_eqs)
  with True wf exec_syscall_args_total [of "?v\<lparr>vm_pc := vm_pc ?v + 4\<rparr>"] show ?thesis
    by (simp add: exec_syscall_def Let_def fetch_eqs eval_nat_numeral)
qed

lemma executeOne_total:
  assumes wf: "vm_wf (vm w)"
  shows "\<exists>w'. executeOne reg w = Some w' \<and> vm_wf (vm w')"
proof (cases "need 1 (vm w)")
  case False
  with wf show ?thesis by (simp add: executeOne_def)
next
  case True
  let ?op = "vm_program (vm w) ! vm_pc (vm w)"
  define v where "v = (vm w)\<lparr>vm_pc := vm_pc (vm w) + 1\<rparr>"
  have r: "read8 (vm w) = Some (?op, v)" and wfv: "vm_wf v"
    using True wf by (simp_all add: fetch_eqs v_def)
  define u where "u = w\<lparr>vm := v\<rparr>"
  have wfu: "vm_wf (vm u)" by (simp add: u_def wfv)
  have total: "\<exists>w'. on_vm f u = Some w' \<and> vm_wf (vm w')" if "vm_total f" for f
    using on_vm_total [OF that wfu] .
  show ?thesis
    using True r vm_wf_halted [OF wfv] vm_wf_fault [OF wfv] exec_syscall_total [OF wfu]
      exec_wait_total [OF wfu] total [OF exec_imm_total] total [OF exec_mov_total]
      total [OF exec_arith_total] total [OF exec_jump_total] total [OF exec_branch_total]
      total [OF exec_call_total] total [OF exec_ret_total] total [OF exec_load_total]
      total [OF exec_store_total]
    by (simp add: executeOne_def Let_def flip: u_def)
qed

lemma run_budget_total:
  "vm_wf (vm w) \<Longrightarrow> \<exists>w'. run_budget reg n w = Some w' \<and> vm_wf (vm w')"
proof (induction n arbitrary: w)
  case 0
  then show ?case by simp
next
  case (Suc n)
  from executeOne_total [OF Suc.prems] obtain w1 where
    "executeOne reg w = Some w1" "vm_wf (vm w1)" by blast
  with Suc show ?case by auto
qed

lemma vm_tick_total:
  assumes "vm_wf (vm w)"
  shows "\<exists>w'. vm_tick reg n w = Some w' \<and> vm_wf (vm w')"
  using assms run_budget_total vm_wf_resume [OF assms]
  by (simp add: vm_tick_def Let_def case_prod_beta)

end

section \<open>Properties\<close>

text \<open>A small board for concrete runs: one native function that adds its arguments.\<close>

definition sum_native :: "'w NativeFunction" where
  "sum_native args w = (native_ok (sum_list args) [], w)"

definition sum_registry :: "'w NativeRegistry" where
  "sum_registry = snd (registry_add 9 (Some ''SUM'') (Some sum_native) empty_registry)"

definition vm_board :: "u8 list \<Rightarrow> (nat \<Rightarrow> u32) \<Rightarrow> vm_world" where
  "vm_board bytes c = \<lparr>clock = c, clock_reads = 0,
     vm = (case vm_load (Some bytes) initial_vm of Inl _ \<Rightarrow> initial_vm
           | Inr v \<Rightarrow> (case vm_run v of Inl _ \<Rightarrow> v | Inr u \<Rightarrow> u))\<rparr>"

lemma sum_registry_entries: "entries sum_registry =
    [\<lparr>ent_id = 9, ent_name = ''SUM'', ent_impl = Some (NumericFunctionAdapter (Some sum_native))\<rparr>]"
  by (simp add: sum_registry_def registry_add_def registry_full_or_taken_def registry_store_def
      empty_registry_def find_id_def find_name_def MAX_FUNCTIONS_def)

lemma sum_registry_keeps: "registry_keeps_vm sum_registry"
  by (simp add: registry_keeps_vm_def sum_registry_entries native_keeps_vm_def base_callMixed_def
      sum_native_def)

lemma vm_board_wf: "vm_wf (vm (vm_board bytes c))"
  using vm_load_wf [OF vm_wf_initial, of "Some bytes"] vm_run_wf
  by (simp add: vm_board_def split: sum.splits) blast

text \<open>C1: Whatever bytes a program holds, a tick of a well-formed machine returns: it never reads or
  writes outside the program, the memory, the register file or the return stack, and it leaves the
  machine well formed, for any budget and any native functions that keep the machine well formed.\<close>

theorem vm_tick_safe:
  assumes "registry_keeps_vm reg" "vm_wf (vm w)"
  shows "\<exists>w'. vm_tick reg budget w = Some w' \<and> vm_wf (vm w')"
  using vm_over_natives.vm_tick_total [OF vm_over_natives.intro] assms by blast

theorem vm_tick_safe_witness:
  "\<exists>w'. vm_tick sum_registry 32 (vm_board [0x20, 0, 9, 0, 2, 1, 7, 0xFF] (\<lambda>_. 0)) = Some w' \<and>
     vm_wf (vm w')"
  using vm_tick_safe [of sum_registry "vm_board [0x20, 0, 9, 0, 2, 1, 7, 0xFF] (\<lambda>_. 0)" 32]
    sum_registry_keeps vm_board_wf by blast

text \<open>A machine that waits with deadline \<open>start + ms\<close> and is ticked when the clock shows
  \<open>start + elapsed\<close> stays as it is when \<open>elapsed < ms\<close>, and otherwise resumes at once with its whole
  instruction budget. This holds across the wrap of the 32-bit millisecond clock, for elapsed
  times below 2^31.\<close>

theorem vm_wait_deadline:
  fixes start elapsed :: u32 and ms :: u16
  assumes "vm_state (vm w) = WAITING" "vm_wake (vm w) = start + ucast ms"
    and "clock w (clock_reads w) = start + elapsed" "unat elapsed < 2147483648"
  shows "vm_tick reg budget w =
    (if unat elapsed < unat ms then Some (w\<lparr>clock_reads := Suc (clock_reads w)\<rparr>)
     else run_budget reg budget
       (w\<lparr>clock_reads := Suc (clock_reads w), vm := (vm w)\<lparr>vm_state := RUNNING\<rparr>\<rparr>))"
proof -
  have small: "unat ms < 65536" using unsigned_less [of ms] by simp
  have ms: "unat (ucast ms :: u32) = unat ms" 
    using small by (simp add: unsigned_ucast_eq take_bit_nat_eq_self)
  then have "unat (ucast ms :: u32) < 2147483648"
    using small by simp
  then show ?thesis
    using assms not_due_deadline [of "ucast ms" elapsed start] ms
    by (simp add: vm_tick_def millis_def)
qed

theorem vm_wait_deadline_witness:
  "vm_tick sum_registry 4 \<lparr>clock = (\<lambda>_. 2), clock_reads = 0, vm = initial_vm\<lparr>vm_state := WAITING, vm_wake := 6\<rparr>\<rparr> =
     Some \<lparr>clock = (\<lambda>_. 2), clock_reads = 1, vm = initial_vm\<lparr>vm_state := WAITING, vm_wake := 6\<rparr>\<rparr>"
  using vm_wait_deadline [of "\<lparr>clock = (\<lambda>_. 2), clock_reads = 0,
      vm = initial_vm\<lparr>vm_state := WAITING, vm_wake := 6\<rparr>\<rparr>" "0xFFFFFFFE" 8 4 sum_registry 4]
  by simp

end
