(* ===== verification/Vm_Isa.thy ===== *)
theory Vm_Isa
  imports Noob_VM
begin

text \<open>
  The version-1 instruction set as its documentation (\<open>src/iris/firmware/iris_noob/VM.md\<close>) gives
  it: an instruction datatype, its little-endian encoding, and one transition per instruction
  without any byte decoding. The decoder and executor of \<open>noob_vm.cpp\<close> refine it.
\<close>

datatype aop = Add | Sub | Mul | Div

datatype instr =
    Halt
  | Imm u8 int32
  | Mov u8 u8
  | Arith aop u8 u8 u8
  | Jump u16
  | JumpZ u8 u16
  | JumpNZ u8 u16
  | Call u16
  | Ret
  | Sys u8 u16 "u8 list"
  | Wait u16
  | SysText u8 u16 "u8 list" string
  | Load u8 u8
  | Store u8 u8

definition byte0 :: "'l::len word \<Rightarrow> u8" where "byte0 x = ucast x"
definition byte1 :: "'l::len word \<Rightarrow> u8" where "byte1 x = ucast (drop_bit 8 x)"
definition byte2 :: "'l::len word \<Rightarrow> u8" where "byte2 x = ucast (drop_bit 16 x)"
definition byte3 :: "'l::len word \<Rightarrow> u8" where "byte3 x = ucast (drop_bit 24 x)"

definition le16 :: "u16 \<Rightarrow> u8 list" where "le16 x = [byte0 x, byte1 x]"
definition le32 :: "int32 \<Rightarrow> u8 list" where "le32 x = [byte0 x, byte1 x, byte2 x, byte3 x]"

fun aop_code :: "aop \<Rightarrow> u8" where
  "aop_code Add = 0x03" | "aop_code Sub = 0x04" | "aop_code Mul = 0x05" | "aop_code Div = 0x06"

fun encode :: "instr \<Rightarrow> u8 list" where
  "encode Halt = [0x00]"
| "encode (Imm d x) = 0x01 # d # le32 x"
| "encode (Mov d s) = [0x02, d, s]"
| "encode (Arith f d a b) = [aop_code f, d, a, b]"
| "encode (Jump t) = 0x10 # le16 t"
| "encode (JumpZ r t) = 0x11 # r # le16 t"
| "encode (JumpNZ r t) = 0x12 # r # le16 t"
| "encode (Call t) = 0x13 # le16 t"
| "encode Ret = [0x14]"
| "encode (Sys d i rs) = 0x20 # d # le16 i @ of_nat (length rs) # rs"
| "encode (Wait ms) = 0x21 # le16 ms"
| "encode (SysText d i rs cs) = 0x22 # d # le16 i @ of_nat (length rs) # rs @
     of_nat (length cs) # map (\<lambda>c. of_nat (of_char c)) cs"
| "encode (Load d a) = [0x30, d, a]"
| "encode (Store a s) = [0x31, a, s]"

fun instr_ok :: "instr \<Rightarrow> bool" where
  "instr_ok (Sys d i rs) = (validRegister d \<and> length rs \<le> 8 \<and> list_all validRegister rs)"
| "instr_ok (SysText d i rs cs) =
     (validRegister d \<and> length rs \<le> 8 \<and> list_all validRegister rs \<and> length cs \<le> 255)"
| "instr_ok _ = True"

text \<open>The exact integer result; a machine register keeps it modulo \<open>2^32\<close>.\<close>

fun aop_int :: "aop \<Rightarrow> int \<Rightarrow> int \<Rightarrow> int" where
  "aop_int Add x y = x + y"
| "aop_int Sub x y = x - y"
| "aop_int Mul x y = x * y"
| "aop_int Div x y = trunc_div x y"

definition put_register :: "u8 \<Rightarrow> int32 \<Rightarrow> NoobVm \<Rightarrow> NoobVm" where
  "put_register d x v = v\<lparr>vm_registers := (vm_registers v)[unat d := x]\<rparr>"

definition jump_to :: "u16 \<Rightarrow> NoobVm \<Rightarrow> NoobVm" where
  "jump_to t v = (if unat t < vm_length v then v\<lparr>vm_pc := unat t\<rparr>
     else fault ''jump outside program'' v)"

text \<open>The transition of one instruction; \<open>v\<close> already stands behind it.\<close>

fun isa_vm :: "instr \<Rightarrow> NoobVm \<Rightarrow> NoobVm" where
  "isa_vm Halt v = v\<lparr>vm_state := HALTED\<rparr>"
| "isa_vm (Imm d x) v = (if validRegister d then put_register d x v else bad_register v)"
| "isa_vm (Mov d s) v = (if validRegister d \<and> validRegister s
     then put_register d (vm_registers v ! unat s) v else bad_register v)"
| "isa_vm (Arith f d a b) v =
     (if validRegister d \<and> validRegister a \<and> validRegister b
      then if f = Div \<and> vm_registers v ! unat b = 0 then fault ''division by zero'' v
           else put_register d (word_of_int (aop_int f (sint (vm_registers v ! unat a))
                                                       (sint (vm_registers v ! unat b)))) v
      else bad_register v)"
| "isa_vm (Jump t) v = jump_to t v"
| "isa_vm (JumpZ r t) v = (if \<not> validRegister r then bad_register v
     else if vm_registers v ! unat r = 0 then jump_to t v else v)"
| "isa_vm (JumpNZ r t) v = (if \<not> validRegister r then bad_register v
     else if vm_registers v ! unat r \<noteq> 0 then jump_to t v else v)"
| "isa_vm (Call t) v = (if unat t < vm_length v \<and> vm_depth v < CALL_DEPTH
     then v\<lparr>vm_stack := (vm_stack v)[vm_depth v := vm_pc v], vm_depth := vm_depth v + 1,
            vm_pc := unat t\<rparr>
     else fault ''invalid call'' v)"
| "isa_vm Ret v = (if vm_depth v = 0 then fault ''return stack empty'' v
     else v\<lparr>vm_depth := vm_depth v - 1, vm_pc := vm_stack v ! (vm_depth v - 1)\<rparr>)"
| "isa_vm (Load d a) v = (if validRegister d then put_register d (ucast (vm_memory v ! unat a)) v
     else bad_register v)"
| "isa_vm (Store a s) v = (if validRegister s
     then v\<lparr>vm_memory := (vm_memory v)[unat a := ucast (vm_registers v ! unat s)]\<rparr>
     else bad_register v)"
| "isa_vm _ v = v"

definition isa_step :: "('a vm_world_scheme) NativeRegistry \<Rightarrow> instr \<Rightarrow> 'a vm_world_scheme
    \<Rightarrow> 'a vm_world_scheme option" where
  "isa_step reg i w = (let v = (vm w)\<lparr>vm_pc := vm_pc (vm w) + length (encode i)\<rparr> in
     case i of
       Sys d n rs \<Rightarrow> syscall reg 0x20 d n (map (\<lambda>r. vm_registers v ! unat r) rs) [] (w\<lparr>vm := v\<rparr>)
     | SysText d n rs cs \<Rightarrow>
         syscall reg 0x22 d n (map (\<lambda>r. vm_registers v ! unat r) rs) cs (w\<lparr>vm := v\<rparr>)
     | Wait ms \<Rightarrow> (let (now, w) = millis w in
         Some (w\<lparr>vm := v\<lparr>vm_wake := now + ucast ms, vm_state := WAITING\<rparr>\<rparr>))
     | _ \<Rightarrow> Some (w\<lparr>vm := isa_vm i v\<rparr>))"

definition instr_at :: "instr \<Rightarrow> NoobVm \<Rightarrow> bool" where
  "instr_at i v \<longleftrightarrow>
     take (length (encode i)) (drop (vm_pc v) (take (vm_length v) (vm_program v))) = encode i"

section \<open>Little-endian operands\<close>

lemma le16_read: "word16 (byte0 x) (byte1 x) = x"
proof (rule bit_word_eqI)
  fix n
  assume "n < LENGTH(16)"
  then show "bit (word16 (byte0 x) (byte1 x)) n = bit x n"
    by (cases "n < 8") (auto simp: word16_def byte0_def byte1_def bit_simps)
qed

lemma le32_read: "word32 (byte0 x) (byte1 x) (byte2 x) (byte3 x) = x"
proof (rule bit_word_eqI)
  fix n
  assume n: "n < LENGTH(32)"
  consider "n < 8" | "8 \<le> n" "n < 16" | "16 \<le> n" "n < 24" | "24 \<le> n" by linarith
  then show "bit (word32 (byte0 x) (byte1 x) (byte2 x) (byte3 x)) n = bit x n"
    using n by cases (auto simp: word32_def byte0_def byte1_def byte2_def byte3_def bit_simps)
qed

lemma arith_aop: "arith (aop_code f) x y = word_of_int (aop_int f (sint x) (sint y))"
  by (cases f) (simp_all add: arith_def wi_hom_syms)

lemma instr_at_bytes:
  assumes "instr_at i v" "vm_shape v"
  shows "vm_pc v + length (encode i) \<le> vm_length v"
    and "k < length (encode i) \<Longrightarrow> vm_program v ! (vm_pc v + k) = encode i ! k"
proof -
  let ?n = "length (encode i)"
  have ne: "0 < ?n" by (cases i) auto
  have "min (min (length (vm_program v)) (vm_length v) - vm_pc v) ?n = ?n"
    using arg_cong [OF assms(1) [unfolded instr_at_def], of length] by simp
  then show fits: "vm_pc v + ?n \<le> vm_length v" using ne by linarith
  assume k: "k < ?n"
  have "encode i ! k = take ?n (drop (vm_pc v) (take (vm_length v) (vm_program v))) ! k"
    using assms(1) by (simp add: instr_at_def)
  also have "\<dots> = vm_program v ! (vm_pc v + k)"
    using k fits assms(2) by (simp add: vm_shape_def)
  finally show "vm_program v ! (vm_pc v + k) = encode i ! k" ..
qed

section \<open>Execution refines the instruction set\<close>

text \<open>The bytes of an instruction, with indices in successor form.\<close>

lemma instr_at_fetch:
  assumes "instr_at i v" "vm_wf v"
  shows "vm_pc v + length (encode i) \<le> vm_length v"
    and "vm_program v ! vm_pc v = encode i ! 0"
    and "1 < length (encode i) \<Longrightarrow> vm_program v ! Suc (vm_pc v) = encode i ! 1"
    and "2 < length (encode i) \<Longrightarrow> vm_program v ! Suc (Suc (vm_pc v)) = encode i ! 2"
    and "3 < length (encode i) \<Longrightarrow> vm_program v ! Suc (Suc (Suc (vm_pc v))) = encode i ! 3"
    and "4 < length (encode i) \<Longrightarrow> vm_program v ! Suc (Suc (Suc (Suc (vm_pc v)))) = encode i ! 4"
    and "5 < length (encode i) \<Longrightarrow>
      vm_program v ! Suc (Suc (Suc (Suc (Suc (vm_pc v))))) = encode i ! 5"
proof -
  have sh: "vm_shape v" using assms(2) by (simp add: vm_wf_def)
  note b = instr_at_bytes [OF assms(1) sh]
  show "vm_pc v + length (encode i) \<le> vm_length v" by (rule b(1))
  have "0 < length (encode i)" by (cases i) auto
  then show "vm_program v ! vm_pc v = encode i ! 0" using b(2) [of 0] by simp
qed (use instr_at_bytes(2) [OF assms(1)] assms(2) in \<open>force simp: vm_wf_def eval_nat_numeral\<close>)+

lemmas isa_defs = isa_step_def on_vm_def Let_def put_register_def jump_to_def
lemmas le_defs = le16_def le32_def le16_read le32_read

lemma ucast_low_byte: "ucast (x AND 0xff) = (ucast (x :: int32) :: u8)"
proof (rule bit_word_eqI)
  fix n
  assume "n < LENGTH(8)"
  then have "n \<in> {0, 1, 2, 3, 4, 5, 6, 7}" by auto
  then show "bit (ucast (x AND 0xff) :: u8) n = bit (ucast x :: u8) n"
    by (auto simp: bit_simps)
qed

lemma vm_shape_depth: "vm_shape v \<Longrightarrow> vm_depth v - Suc 0 < CALL_DEPTH"
  by (auto simp: vm_shape_def CALL_DEPTH_def)

lemma small_nat_numerals: "(2::nat) = Suc (Suc 0)" "(3::nat) = Suc (Suc (Suc 0))"
  "(4::nat) = Suc (Suc (Suc (Suc 0)))" "(5::nat) = Suc (Suc (Suc (Suc (Suc 0))))"
  by simp_all

text \<open>The world once the opcode byte is consumed.\<close>

definition behind_opcode :: "'a vm_world_scheme \<Rightarrow> 'a vm_world_scheme" where
  "behind_opcode w = w\<lparr>vm := (vm w)\<lparr>vm_pc := Suc (vm_pc (vm w))\<rparr>\<rparr>"

lemma executeOne_dispatch:
  assumes "vm_wf (vm w)" "vm_pc (vm w) < vm_length (vm w)"
    and "vm_program (vm w) ! vm_pc (vm w) = opcode"
  shows
    "opcode = 0x00 \<Longrightarrow> executeOne reg w = on_vm (\<lambda>v. Some (v\<lparr>vm_state := HALTED\<rparr>)) (behind_opcode w)"
    "opcode = 0x01 \<Longrightarrow> executeOne reg w = on_vm exec_imm (behind_opcode w)"
    "opcode = 0x02 \<Longrightarrow> executeOne reg w = on_vm exec_mov (behind_opcode w)"
    "opcode = aop_code f \<Longrightarrow> executeOne reg w = on_vm (exec_arith (aop_code f)) (behind_opcode w)"
    "opcode = 0x10 \<Longrightarrow> executeOne reg w = on_vm exec_jump (behind_opcode w)"
    "opcode = 0x11 \<Longrightarrow> executeOne reg w = on_vm (exec_branch 0x11) (behind_opcode w)"
    "opcode = 0x12 \<Longrightarrow> executeOne reg w = on_vm (exec_branch 0x12) (behind_opcode w)"
    "opcode = 0x13 \<Longrightarrow> executeOne reg w = on_vm exec_call (behind_opcode w)"
    "opcode = 0x14 \<Longrightarrow> executeOne reg w = on_vm exec_ret (behind_opcode w)"
    "opcode = 0x20 \<Longrightarrow> executeOne reg w = exec_syscall reg 0x20 (behind_opcode w)"
    "opcode = 0x21 \<Longrightarrow> executeOne reg w = exec_wait (behind_opcode w)"
    "opcode = 0x22 \<Longrightarrow> executeOne reg w = exec_syscall reg 0x22 (behind_opcode w)"
    "opcode = 0x30 \<Longrightarrow> executeOne reg w = on_vm exec_load (behind_opcode w)"
    "opcode = 0x31 \<Longrightarrow> executeOne reg w = on_vm exec_store (behind_opcode w)"
  using assms
  by (simp_all add: executeOne_def fetch_eqs behind_opcode_def Let_def on_vm_def)
     (cases f; simp)

lemma isa_imm:
  assumes wf: "vm_wf (vm w)" and at: "instr_at (Imm d x) (vm w)"
  shows "executeOne reg w = isa_step reg (Imm d x) w"
  using instr_at_fetch [OF at wf] wf executeOne_dispatch(2) [OF wf, of _ reg]
  by (simp add: isa_defs exec_imm_def fetch_eqs le_defs
      small_nat_numerals behind_opcode_def)

lemma isa_mov:
  assumes wf: "vm_wf (vm w)" and at: "instr_at (Mov d s) (vm w)"
  shows "executeOne reg w = isa_step reg (Mov d s) w"
  using instr_at_fetch [OF at wf] wf executeOne_dispatch(3) [OF wf, of _ reg]
  by (simp add: isa_defs exec_mov_def fetch_eqs le_defs
      small_nat_numerals behind_opcode_def)

lemma isa_halt:
  assumes wf: "vm_wf (vm w)" and at: "instr_at Halt (vm w)"
  shows "executeOne reg w = isa_step reg Halt w"
  using instr_at_fetch [OF at wf] wf executeOne_dispatch(1) [OF wf, of _ reg]
  by (simp add: isa_defs  fetch_eqs le_defs
      small_nat_numerals behind_opcode_def)

lemma isa_jump:
  assumes wf: "vm_wf (vm w)" and at: "instr_at (Jump t) (vm w)"
  shows "executeOne reg w = isa_step reg (Jump t) w"
  using instr_at_fetch [OF at wf] wf executeOne_dispatch(5) [OF wf, of _ reg]
  by (simp add: isa_defs exec_jump_def fetch_eqs le_defs
      small_nat_numerals behind_opcode_def)

lemma isa_call:
  assumes wf: "vm_wf (vm w)" and at: "instr_at (Call t) (vm w)"
  shows "executeOne reg w = isa_step reg (Call t) w"
  using instr_at_fetch [OF at wf] wf executeOne_dispatch(8) [OF wf, of _ reg]
  by (simp add: isa_defs exec_call_def arr_set_def vm_shape_lengths fetch_eqs le_defs
      small_nat_numerals behind_opcode_def)

lemma isa_ret:
  assumes wf: "vm_wf (vm w)" and at: "instr_at Ret (vm w)"
  shows "executeOne reg w = isa_step reg Ret w"
  using instr_at_fetch [OF at wf] wf executeOne_dispatch(9) [OF wf, of _ reg]
  by (simp add: isa_defs exec_ret_def arr_get_def vm_shape_lengths vm_shape_depth fetch_eqs le_defs
      small_nat_numerals behind_opcode_def)

lemma isa_wait:
  assumes wf: "vm_wf (vm w)" and at: "instr_at (Wait t) (vm w)"
  shows "executeOne reg w = isa_step reg (Wait t) w"
  using instr_at_fetch [OF at wf] wf executeOne_dispatch(11) [OF wf, of _ reg]
  by (simp add: isa_defs exec_wait_def millis_def fetch_eqs le_defs
      small_nat_numerals behind_opcode_def)

lemma isa_load:
  assumes wf: "vm_wf (vm w)" and at: "instr_at (Load d a) (vm w)"
  shows "executeOne reg w = isa_step reg (Load d a) w"
  using instr_at_fetch [OF at wf] wf executeOne_dispatch(13) [OF wf, of _ reg]
  by (simp add: isa_defs exec_load_def arr_get_def vm_shape_lengths fetch_eqs le_defs
      small_nat_numerals behind_opcode_def)

lemma isa_store:
  assumes wf: "vm_wf (vm w)" and at: "instr_at (Store a s) (vm w)"
  shows "executeOne reg w = isa_step reg (Store a s) w"
  using instr_at_fetch [OF at wf] wf executeOne_dispatch(14) [OF wf, of _ reg]
  by (simp add: isa_defs exec_store_def arr_set_def vm_shape_lengths ucast_low_byte fetch_eqs le_defs
      small_nat_numerals behind_opcode_def)

lemma isa_arith:
  assumes wf: "vm_wf (vm w)" and at: "instr_at (Arith f d a b) (vm w)"
  shows "executeOne reg w = isa_step reg (Arith f d a b) w"
proof -
  have div: "aop_code f = 0x06 \<longleftrightarrow> f = Div" by (cases f) simp_all
  show ?thesis
    using instr_at_fetch [OF at wf] wf executeOne_dispatch(4) [OF wf, of _ f reg]
    by (simp add: isa_defs exec_arith_def div arith_aop fetch_eqs small_nat_numerals
        behind_opcode_def)
qed

lemma exec_branch_nonzero: "exec_branch 0x12 v = (if \<not> need 3 v then Some (truncated v) else do {
     (r, v) \<leftarrow> read8 v; (target, v) \<leftarrow> read16 v;
     if \<not> validRegister r then Some (bad_register v)
     else do {
       x \<leftarrow> get_register r v;
       if x \<noteq> 0
       then if unat target \<ge> vm_length v then Some (fault ''jump outside program'' v)
            else Some (v\<lparr>vm_pc := unat target\<rparr>)
       else Some v } })"
proof -
  have "((0x12 :: u8) = 0x11) = False" by simp
  then show ?thesis unfolding exec_branch_def by (simp only: if_False)
qed

lemma isa_jumpZ:
  assumes wf: "vm_wf (vm w)" and at: "instr_at (JumpZ r t) (vm w)"
  shows "executeOne reg w = isa_step reg (JumpZ r t) w"
  using instr_at_fetch [OF at wf] wf executeOne_dispatch(6) [OF wf, of _ reg]
  by (simp add: isa_defs exec_branch_def fetch_eqs le_defs small_nat_numerals behind_opcode_def)

lemma isa_jumpNZ:
  assumes wf: "vm_wf (vm w)" and at: "instr_at (JumpNZ r t) (vm w)"
  shows "executeOne reg w = isa_step reg (JumpNZ r t) w"
  using instr_at_fetch [OF at wf] wf executeOne_dispatch(7) [OF wf, of _ reg]
  by (simp add: isa_defs exec_branch_nonzero fetch_eqs le_defs small_nat_numerals
      behind_opcode_def)

text \<open>System calls: the argument registers and the inline text.\<close>

lemma read_args_bytes:
  assumes "vm_wf v" "vm_pc v + length rs \<le> vm_length v" "list_all validRegister rs"
    and "\<And>k. k < length rs \<Longrightarrow> vm_program v ! (vm_pc v + k) = rs ! k"
  shows "read_args (length rs) v =
    Some (Some (map (\<lambda>r. vm_registers v ! unat r) rs), v\<lparr>vm_pc := vm_pc v + length rs\<rparr>)"
  using assms
proof (induction rs arbitrary: v)
  case Nil
  then show ?case by simp
next
  case (Cons r rs)
  let ?v = "v\<lparr>vm_pc := vm_pc v + 1\<rparr>"
  have r: "read8 v = Some (r, ?v)" and wf: "vm_wf ?v"
    using Cons.prems(1,2) Cons.prems(4) [of 0] by (simp_all add: fetch_eqs)
  have "read_args (length rs) ?v =
      Some (Some (map (\<lambda>r. vm_registers ?v ! unat r) rs), ?v\<lparr>vm_pc := vm_pc ?v + length rs\<rparr>)"
    using Cons.prems wf Cons.prems(4) [of "Suc _"] by (intro Cons.IH) auto
  moreover have "get_register r ?v = Some (vm_registers v ! unat r)"
    using Cons.prems(3) wf by (simp add: fetch_eqs)
  ultimately show ?case using r Cons.prems(3) by simp
qed

lemma read_text_bytes:
  assumes "vm_wf v" "vm_pc v + length cs \<le> vm_length v"
    and "\<And>k. k < length cs \<Longrightarrow> vm_program v ! (vm_pc v + k) = of_nat (of_char (cs ! k))"
  shows "read_text (length cs) v = Some (cs, v\<lparr>vm_pc := vm_pc v + length cs\<rparr>)"
  using assms
proof (induction cs arbitrary: v)
  case Nil
  then show ?case by simp
next
  case (Cons c cs)
  let ?v = "v\<lparr>vm_pc := vm_pc v + 1\<rparr>"
  have r: "read8 v = Some (of_nat (of_char c), ?v)" and wf: "vm_wf ?v"
    using Cons.prems(1,2) Cons.prems(3) [of 0] by (simp_all add: fetch_eqs)
  have "read_text (length cs) ?v = Some (cs, ?v\<lparr>vm_pc := vm_pc ?v + length cs\<rparr>)"
    using Cons.prems wf Cons.prems(3) [of "Suc _"] by (intro Cons.IH) auto
  moreover have "char_of (unat (of_nat (of_char c) :: u8)) = c"
    by (simp add: unat_of_nat)
  ultimately show ?case using r by simp
qed

lemma encode_sys_length:
  "length (encode (Sys d i rs)) = 5 + length rs"
  "length (encode (SysText d i rs cs)) = 6 + length rs + length cs"
  by (simp_all add: le16_def)

lemma isa_sys:
  assumes wf: "vm_wf (vm w)" and at: "instr_at (Sys d i rs) (vm w)" and ok: "instr_ok (Sys d i rs)"
  shows "executeOne reg w = isa_step reg (Sys d i rs) w"
proof -
  let ?v = "(vm w)\<lparr>vm_pc := vm_pc (vm w) + 5\<rparr>"
  have sh: "vm_shape (vm w)" using wf by (simp add: vm_wf_def)
  note b = instr_at_bytes [OF at sh]
  have fits: "vm_pc (vm w) + 5 + length rs \<le> vm_length (vm w)" using b(1) by (simp add: le16_def)
  have n: "unat (of_nat (length rs) :: u8) = length rs" using ok by (simp add: unat_of_nat)
  have "vm_program ?v ! (vm_pc ?v + k) = rs ! k" if "k < length rs" for k
    using b(2) [of "k + 5"] that by (simp add: le16_def add.commute add.left_commute)
  then have args: "read_args (length rs) ?v = Some (Some (map (\<lambda>r. vm_registers ?v ! unat r) rs),
      ?v\<lparr>vm_pc := vm_pc ?v + length rs\<rparr>)"
    using fits ok wf by (intro read_args_bytes) (simp_all add: vm_wf_def)
  have "executeOne reg w = exec_syscall reg 0x20 (behind_opcode w)"
    using instr_at_fetch [OF at wf] executeOne_dispatch(10) [OF wf, of _ reg]
    by (simp add: le16_def)
  also have "\<dots> = exec_syscall_args reg 0x20 d i (of_nat (length rs)) ?v (behind_opcode w)"
    using instr_at_fetch [OF at wf] wf fits
    by (simp add: exec_syscall_def behind_opcode_def Let_def fetch_eqs le_defs small_nat_numerals)
  also have "\<dots> = isa_step reg (Sys d i rs) w"
    using ok n fits args encode_sys_length(1) [of d i rs]
    by (simp add: exec_syscall_args_def exec_syscall_text_def REGISTER_COUNT_def need_def
        isa_step_def behind_opcode_def add.commute add.left_commute del: encode.simps)
  finally show ?thesis .
qed

lemma isa_sys_text:
  assumes wf: "vm_wf (vm w)" and at: "instr_at (SysText d i rs cs) (vm w)"
    and ok: "instr_ok (SysText d i rs cs)"
  shows "executeOne reg w = isa_step reg (SysText d i rs cs) w"
proof -
  let ?pc = "vm_pc (vm w)"
  let ?v = "(vm w)\<lparr>vm_pc := ?pc + 5\<rparr>"
  let ?va = "(vm w)\<lparr>vm_pc := ?pc + 5 + length rs\<rparr>"
  let ?vt = "(vm w)\<lparr>vm_pc := ?pc + 6 + length rs\<rparr>"
  let ?args = "map (\<lambda>r. vm_registers (vm w) ! unat r) rs"
  have sh: "vm_shape (vm w)" using wf by (simp add: vm_wf_def)
  note b = instr_at_bytes [OF at sh]
  note len = encode_sys_length(2) [of d i rs cs]
  have fits: "?pc + 6 + length rs + length cs \<le> vm_length (vm w)" using b(1) len by simp
  have n: "unat (of_nat (length rs) :: u8) = length rs" "unat (of_nat (length cs) :: u8) = length cs"
    using ok by (simp_all add: unat_of_nat)
  have "vm_program ?v ! (vm_pc ?v + k) = rs ! k" if "k < length rs" for k
    using b(2) [of "k + 5"] that
    by (simp add: le16_def nth_append add.commute add.left_commute)
  then have args: "read_args (length rs) ?v = Some (Some ?args, ?va)"
    using fits ok wf read_args_bytes [of ?v rs] by (simp add: vm_wf_def)
  have byte: "vm_program (vm w) ! (?pc + 5 + length rs) = of_nat (length cs)"
    using b(2) [of "length rs + 5"] len
    by (simp add: le16_def nth_append add.commute add.left_commute)
  then have count: "read8 ?va = Some (of_nat (length cs), ?vt)"
    using fits sh by (simp add: read8_eq)
  have "vm_program ?vt ! (vm_pc ?vt + k) = of_nat (of_char (cs ! k))" if "k < length cs" for k
  proof -
    have "vm_program (vm w) ! (?pc + (k + length rs + 6)) = of_nat (of_char (cs ! k))"
      using b(2) [of "k + length rs + 6"] that len by (simp add: le16_def nth_append)
    then show ?thesis by (simp add: ac_simps)
  qed
  then have chars: "read_text (length cs) ?vt =
      Some (cs, (vm w)\<lparr>vm_pc := ?pc + 6 + length rs + length cs\<rparr>)"
    using fits wf read_text_bytes [of ?vt cs] by (simp add: vm_wf_def)
  have "executeOne reg w = exec_syscall reg 0x22 (behind_opcode w)"
    using instr_at_fetch [OF at wf] executeOne_dispatch(12) [OF wf, of _ reg]
    by (simp add: le16_def)
  also have "\<dots> = exec_syscall_args reg 0x22 d i (of_nat (length rs)) ?v (behind_opcode w)"
    using instr_at_fetch [OF at wf] wf fits
    by (simp add: exec_syscall_def behind_opcode_def Let_def fetch_eqs le_defs small_nat_numerals)
  also have "\<dots> = exec_syscall_text reg 0x22 d i ?args ?va (behind_opcode w)"
    using ok n fits args by (simp add: exec_syscall_args_def REGISTER_COUNT_def need_def)
  also have "\<dots> = isa_step reg (SysText d i rs cs) w"
    using n fits count chars len
    by (simp add: exec_syscall_text_def need_def isa_step_def behind_opcode_def
        add.commute add.left_commute del: encode.simps)
  finally show ?thesis .
qed

lemma executeOne_refines_isa:
  assumes "vm_wf (vm w)" "instr_at i (vm w)" "instr_ok i"
  shows "executeOne reg w = isa_step reg i w"
  using assms
  by (cases i) (simp_all only: isa_halt isa_imm isa_mov isa_arith isa_jump isa_jumpZ isa_jumpNZ
      isa_call isa_ret isa_sys isa_wait isa_sys_text isa_load isa_store)

section \<open>Assembled programs\<close>

definition assemble :: "instr list \<Rightarrow> u8 list" where
  "assemble is = concat (map encode is)"

lemma assemble_nth:
  assumes "k < length is"
  shows "assemble is = assemble (take k is) @ encode (is ! k) @ assemble (drop (Suc k) is)"
  using id_take_nth_drop [OF assms] unfolding assemble_def
  by (metis concat.simps(2) concat_append list.map(2) map_append)

lemma instr_at_assembled:
  assumes "take (vm_length v) (vm_program v) = assemble is" "k < length is"
    and "vm_pc v = length (assemble (take k is))"
  shows "instr_at (is ! k) v"
  unfolding instr_at_def assms(1,3) by (subst assemble_nth [OF assms(2)]) simp

text \<open>C2: Running machine code refines the documented instruction set. With the assembled program
  \<open>is\<close> in program memory and the program counter at the start of its \<open>k\<close>-th instruction, one call of
  \<open>executeOne\<close> has exactly the effect of that instruction, fault or success, register, memory,
  stack, native call and clock included.\<close>

theorem machine_code_refines_isa:
  assumes "vm_wf (vm w)" "take (vm_length (vm w)) (vm_program (vm w)) = assemble is"
    and "k < length is" "vm_pc (vm w) = length (assemble (take k is))" "instr_ok (is ! k)"
  shows "executeOne reg w = isa_step reg (is ! k) w"
  using executeOne_refines_isa [OF assms(1) instr_at_assembled [OF assms(2-4)] assms(5)] .

lemma sample_program:
  "vm_length (vm (vm_board (assemble [Imm 0 5, Halt]) c)) = 7"
  "take 7 (vm_program (vm (vm_board (assemble [Imm 0 5, Halt]) c))) = assemble [Imm 0 5, Halt]"
  "vm_pc (vm (vm_board (assemble [Imm 0 5, Halt]) c)) = 0"
  by (simp_all add: assemble_def le32_def vm_board_def vm_load_def vm_run_def initial_vm_def
      vm_active_def PROGRAM_BYTES_def)

theorem machine_code_refines_isa_witness:
  "executeOne sum_registry (vm_board (assemble [Imm 0 5, Halt]) (\<lambda>_. 0)) =
     isa_step sum_registry (Imm 0 5) (vm_board (assemble [Imm 0 5, Halt]) (\<lambda>_. 0))"
  using machine_code_refines_isa [of "vm_board (assemble [Imm 0 5, Halt]) (\<lambda>_. 0)" "[Imm 0 5, Halt]" 0
      sum_registry] vm_board_wf sample_program
  by (simp add: assemble_def)

text \<open>The arithmetic instructions compute the exact integer sum, difference, product or quotient
  (truncated towards zero) of the signed operands whenever that value fits a signed 32-bit register;
  a zero divisor faults and leaves every register as it was.\<close>

theorem arithmetic_exact:
  assumes "vm_wf (vm w)" "instr_at (Arith f d a b) (vm w)"
    and "validRegister d" "validRegister a" "validRegister b"
  defines "x \<equiv> sint (vm_registers (vm w) ! unat a)" and "y \<equiv> sint (vm_registers (vm w) ! unat b)"
  shows "\<exists>w'. executeOne reg w = Some w' \<and>
    (if f = Div \<and> y = 0
     then vm_state (vm w') = FAULT \<and> vm_registers (vm w') = vm_registers (vm w)
     else - (2 ^ 31) \<le> aop_int f x y \<and> aop_int f x y < 2 ^ 31 \<longrightarrow>
       sint (vm_registers (vm w') ! unat d) = aop_int f x y \<and> vm_state (vm w') = vm_state (vm w))"
proof -
  have len: "unat d < length (vm_registers (vm w))"
    using assms(1,3) by (simp add: vm_wf_def vm_shape_def validRegister_def)
  have zero: "y = 0 \<longleftrightarrow> vm_registers (vm w) ! unat b = 0" by (simp add: y_def signed_eq_0_iff)
  show ?thesis
    using executeOne_refines_isa [OF assms(1,2)] assms(3-5) len zero
    by (simp add: isa_step_def Let_def put_register_def x_def y_def sint_word_of_int_32)
qed

definition mul_board :: vm_world where
  "mul_board = (let w = vm_board (encode (Arith Mul 2 0 1)) (\<lambda>_. 0) in
     w\<lparr>vm := (vm w)\<lparr>vm_registers := [6, -7, 0, 0, 0, 0, 0, 0]\<rparr>\<rparr>)"

theorem arithmetic_exact_witness:
  "\<exists>w'. executeOne sum_registry mul_board = Some w' \<and> sint (vm_registers (vm w') ! 2) = - 42"
proof -
  have "vm_wf (vm mul_board)" "instr_at (Arith Mul 2 0 1) (vm mul_board)"
    "vm_registers (vm mul_board) = [6, -7, 0, 0, 0, 0, 0, 0]"
    by (simp_all add: mul_board_def vm_board_def vm_load_def vm_run_def initial_vm_def vm_active_def
        vm_wf_def vm_shape_def vm_sizes instr_at_def Let_def)
  with arithmetic_exact [of mul_board Mul 2 0 1 sum_registry]
  show ?thesis by (auto simp: validRegister_def REGISTER_COUNT_def)
qed

end
