(* ===== verification/Monotonic_Time.thy ===== *)
theory Monotonic_Time
  imports Noob_VM
begin

text \<open>
  The resettable millisecond counter of \<open>src/esp/common/src/services/MonotonicTimeService.cpp\<close>. Its
  epoch is a field of the world.
\<close>

record time_world = vm_world +
  epochMilliseconds :: u32

definition milliseconds :: "'a time_world_scheme \<Rightarrow> u32 \<times> 'a time_world_scheme" where
  "milliseconds w = (let (t, w) = millis w in (t - epochMilliseconds w, w))"

definition time_now :: "('a time_world_scheme) NativeFunction" where
  "time_now args w = (if args \<noteq> [] then (native_fail ''usage: no arguments'', w)
     else let (value, w) = milliseconds w in
       (native_ok (ucast value) (''monotonic_ms='' @ show_nat (unat value) @ '' wrap_bits=32''), w))"

definition time_reset :: "('a time_world_scheme) NativeFunction" where
  "time_reset args w = (if args \<noteq> [] then (native_fail ''usage: no arguments'', w)
     else let (t, w) = millis w in (native_ok 0 ''monotonic_ms=0'', w\<lparr>epochMilliseconds := t\<rparr>))"

lemma time_frame [simp]:
  "vm (snd (time_now args w)) = vm w" "vm (snd (time_reset args w)) = vm w"
  by (simp_all add: time_now_def time_reset_def milliseconds_def millis_def)

text \<open>After a reset at clock value \<open>start\<close>, a reading taken \<open>elapsed\<close> milliseconds later returns
  exactly \<open>elapsed\<close>, also when the 32-bit millisecond clock has wrapped in between.\<close>

theorem time_since_reset:
  fixes elapsed :: u32
  assumes "clock w (clock_reads w) = start" "clock w (Suc (clock_reads w)) = start + elapsed"
  shows "r_ok (fst (time_now [] (snd (time_reset [] w)))) \<and>
    unat (r_value (fst (time_now [] (snd (time_reset [] w))))) = unat elapsed"
  using assms by (simp add: time_now_def time_reset_def milliseconds_def millis_def)

theorem time_since_reset_witness:
  "unat (r_value (fst (time_now [] (snd (time_reset []
     \<lparr>clock = (\<lambda>n. if n = 0 then 0xFFFFFFF0 else 0x10), clock_reads = 0, vm = initial_vm,
      epochMilliseconds = 7\<rparr>))))) = 32"
  using time_since_reset [of "\<lparr>clock = (\<lambda>n. if n = 0 then 0xFFFFFFF0 else 0x10), clock_reads = 0,
      vm = initial_vm, epochMilliseconds = 7\<rparr>" "0xFFFFFFF0" 32]
  by simp

end
