(* ===== verification/Noob_Channel.thy ===== *)
theory Noob_Channel
  imports Native_Registry
begin

text \<open>
  Program channels of \<open>src/esp/common/src/core/noob_program.h\<close>: a stored call of a native function
  whose results go to a record queue. A channel is a part of a larger state (a sequence track, a
  thread program), and the called function may change that state, so \<open>invoke\<close> reads and writes the
  channel in the world through a pair of access functions. Their laws are the locale
  \<open>channel_slot\<close>.
\<close>

datatype NoobProgramType = THREAD | SEQUENCE

record NoobProgramChannel =
  ch_functionId :: u16
  ch_arguments :: "int32 list"
  ch_lastOk :: bool
  ch_busy :: bool
  ch_lastDetail :: string
  ch_ascii :: string
  ch_results :: NoobRecordQueue

definition MAX_ARGUMENTS :: nat where "MAX_ARGUMENTS = 7"

definition empty_channel :: NoobProgramChannel where
  "empty_channel = \<lparr>ch_functionId = 0, ch_arguments = [], ch_lastOk = True, ch_busy = False,
     ch_lastDetail = [], ch_ascii = [], ch_results = empty_queue\<rparr>"

definition channel_configure :: "u16 \<Rightarrow> int32 list \<Rightarrow> string \<Rightarrow> NoobProgramChannel
    \<Rightarrow> bool \<times> NoobProgramChannel" where
  "channel_configure functionId arguments ascii c =
     (if length arguments > MAX_ARGUMENTS \<or> length ascii > 255 then (False, c)
      else if \<exists>x \<in> set ascii. \<not> printable x then (False, c)
      else (True, c\<lparr>ch_functionId := functionId, ch_arguments := arguments, ch_ascii := ascii,
                    ch_results := queue_clear (ch_results c), ch_lastOk := True,
                    ch_lastDetail := []\<rparr>))"

text \<open>What a finished call writes into the channel.\<close>

definition channel_finish :: "NativeResult \<Rightarrow> NoobProgramChannel \<Rightarrow> NoobProgramChannel" where
  "channel_finish r c =
     (let c1 = c\<lparr>ch_lastOk := r_ok r, ch_lastDetail := r_detail r\<rparr>;
          c2 = (if r_ok r then
                  if record_empty (r_record r)
                  then c1\<lparr>ch_results := queue_push_value (r_value r) (ch_results c1)\<rparr>
                  else c1\<lparr>ch_results := queue_push (r_record r) (ch_results c1)\<rparr>
                else c1)
      in c2\<lparr>ch_busy := False\<rparr>)"

definition channel_call_arguments :: "NoobProgramChannel \<Rightarrow> int32 \<Rightarrow> bool \<Rightarrow> int32 list" where
  "channel_call_arguments c input appendInput =
     ch_arguments c @ (if appendInput then [input] else [])"

definition channel_invoke :: "('w \<Rightarrow> NoobProgramChannel)
    \<Rightarrow> ((NoobProgramChannel \<Rightarrow> NoobProgramChannel) \<Rightarrow> 'w \<Rightarrow> 'w)
    \<Rightarrow> 'w NativeRegistry \<Rightarrow> int32 \<Rightarrow> bool \<Rightarrow> 'w \<Rightarrow> 'w" where
  "channel_invoke get upd registry input appendInput w =
     (let w = upd (\<lambda>c. c\<lparr>ch_busy := True\<rparr>) w; c = get w in
      case find_id registry (ch_functionId c) of
        None \<Rightarrow> upd (\<lambda>c. c\<lparr>ch_lastOk := False, ch_lastDetail := ''function missing'',
                           ch_busy := False\<rparr>) w
      | Some entry \<Rightarrow>
          (let (result, w) = registry_callMixed entry (channel_call_arguments c input appendInput)
                               (ch_ascii c) w
           in upd (channel_finish result) w))"

definition channel_wf :: "NoobProgramChannel \<Rightarrow> bool" where
  "channel_wf c \<longleftrightarrow> length (ch_arguments c) \<le> MAX_ARGUMENTS \<and> length (ch_ascii c) \<le> 255 \<and>
     (\<forall>x \<in> set (ch_ascii c). printable x) \<and> queue_wf (ch_results c)"

lemma channel_wf_empty [simp]: "channel_wf empty_channel"
  by (simp add: channel_wf_def empty_channel_def)

lemma channel_configure_wf [noob_inv]:
  "channel_wf c \<Longrightarrow> channel_wf (snd (channel_configure f as s c))"
  by (auto simp: channel_wf_def channel_configure_def ring.clear_wf)

lemma channel_finish_wf [noob_inv]: "channel_wf c \<Longrightarrow> channel_wf (channel_finish r c)"
  by (simp add: channel_wf_def channel_finish_def queue_push_value_def queue_push_wf Let_def)

lemma channel_flags_wf [simp]:
  "channel_wf (c\<lparr>ch_busy := b\<rparr>) = channel_wf c" "channel_wf (c\<lparr>ch_lastOk := b\<rparr>) = channel_wf c"
  "channel_wf (c\<lparr>ch_lastDetail := d\<rparr>) = channel_wf c"
  by (simp_all add: channel_wf_def)

section \<open>A channel inside a state\<close>

text \<open>
  \<open>get\<close> and \<open>upd\<close> address one channel in the worlds that satisfy \<open>valid\<close>; natives keep \<open>valid\<close>.
\<close>

locale channel_slot =
  fixes get :: "'w \<Rightarrow> NoobProgramChannel"
    and upd :: "(NoobProgramChannel \<Rightarrow> NoobProgramChannel) \<Rightarrow> 'w \<Rightarrow> 'w"
    and valid :: "'w \<Rightarrow> bool"
  assumes get_upd: "valid w \<Longrightarrow> get (upd f w) = f (get w)"
    and upd_upd: "upd f (upd g w) = upd (\<lambda>c. f (g c)) w"
    and valid_upd: "valid w \<Longrightarrow> (\<And>c. channel_wf c \<Longrightarrow> channel_wf (f c)) \<Longrightarrow> valid (upd f w)"
    and valid_get: "valid w \<Longrightarrow> channel_wf (get w)"
begin

lemma invoke_valid:
  assumes "valid w"
    and keep: "\<And>e as s u. e \<in> set (entries reg) \<Longrightarrow> valid u \<Longrightarrow> valid (snd (registry_callMixed e as s u))"
  shows "valid (channel_invoke get upd reg input app w)"
proof -
  let ?w = "upd (\<lambda>c. c\<lparr>ch_busy := True\<rparr>) w"
  have v: "valid ?w" using assms(1) by (rule valid_upd) simp
  show ?thesis
  proof (cases "find_id reg (ch_functionId (get ?w))")
    case None
    then show ?thesis by (simp add: channel_invoke_def valid_upd [OF v])
  next
    case (Some e)
    then have "e \<in> set (entries reg)" by (simp add: find_id_Some)
    from keep [OF this v] Some show ?thesis
      by (auto simp: channel_invoke_def Let_def intro!: valid_upd channel_finish_wf split: prod.splits)
        (metis snd_conv)
  qed
qed

text \<open>
  One invocation, when the called function leaves the channel alone: the channel is idle again, it
  remembers the outcome, and exactly the successful result is queued.
\<close>

lemma invoke_found:
  assumes "valid w" "find_id reg (ch_functionId (get w)) = Some e"
    and call: "registry_callMixed e (channel_call_arguments (get w) input app) (ch_ascii (get w))
        (upd (\<lambda>c. c\<lparr>ch_busy := True\<rparr>) w) = (r, w')"
    and same: "valid w'" "get w' = get (upd (\<lambda>c. c\<lparr>ch_busy := True\<rparr>) w)"
  shows "channel_invoke get upd reg input app w = upd (channel_finish r) w'"
    and "get (channel_invoke get upd reg input app w) = channel_finish r ((get w)\<lparr>ch_busy := True\<rparr>)"
proof -
  have g: "get (upd (\<lambda>c. c\<lparr>ch_busy := True\<rparr>) w) = (get w)\<lparr>ch_busy := True\<rparr>"
    by (simp add: get_upd [OF assms(1)])
  have "channel_call_arguments ((get w)\<lparr>ch_busy := True\<rparr>) input app = channel_call_arguments (get w) input app"
    by (simp add: channel_call_arguments_def)
  with assms(2) call g show *: "channel_invoke get upd reg input app w = upd (channel_finish r) w'"
    by (simp add: channel_invoke_def)
  show "get (channel_invoke get upd reg input app w) = channel_finish r ((get w)\<lparr>ch_busy := True\<rparr>)"
    unfolding * using same g by (simp add: get_upd)
qed

lemma invoke_missing:
  assumes "valid w" "find_id reg (ch_functionId (get w)) = None"
  shows "channel_invoke get upd reg input app w =
    upd (\<lambda>c. c\<lparr>ch_lastOk := False, ch_lastDetail := ''function missing'', ch_busy := False\<rparr>) w"
  using assms by (simp add: channel_invoke_def get_upd upd_upd)

end

end
