(* ===== verification/Sequence_Service.thy ===== *)
theory Sequence_Service
  imports Monotonic_Time Noob_Channel
begin

text \<open>
  The sequence service of \<open>src/esp/common/src/services/SequenceService.{h,cpp}\<close> and the sequence
  programs of \<open>core/noob_sequence_program.{h,cpp}\<close>: four tracks that replay a pattern of bits into a
  native function at a fixed interval.

  The file-scope variables are the record \<open>SequenceState\<close>, a field of the world. Of the registry it
  points to, the configuring functions only use what \<open>find\<close>, \<open>acceptsNumbers\<close> and \<open>acceptsText\<close>
  answer, which is the \<open>EntryView\<close> list; the runner calls functions and takes the registry itself.
  Pointers that may be null are options.
\<close>

unbundle bit_operations_syntax

section \<open>State\<close>

record EntryView =
  view_id :: u16
  view_name :: string
  view_numbers :: bool
  view_text :: bool

definition registry_view :: "'w NativeRegistry \<Rightarrow> EntryView list" where
  "registry_view reg = map (\<lambda>e. \<lparr>view_id = ent_id e, view_name = ent_name e,
     view_numbers = (case ent_impl e of None \<Rightarrow> False | Some f \<Rightarrow> acceptsNumbers f),
     view_text = (case ent_impl e of None \<Rightarrow> False | Some f \<Rightarrow> acceptsText f)\<rparr>) (entries reg)"

definition view_find_id :: "EntryView list \<Rightarrow> u16 \<Rightarrow> EntryView option" where
  "view_find_id vs i = List.find (\<lambda>v. view_id v = i) vs"

definition view_find_name :: "EntryView list \<Rightarrow> string \<Rightarrow> EntryView option" where
  "view_find_name vs n = List.find (\<lambda>v. equalsIgnoreCase n (view_name v)) vs"

definition MAX_TRACKS :: nat where "MAX_TRACKS = 4"
definition MAX_BITS :: nat where "MAX_BITS = 64"
definition MAX_FIXED_ARGUMENTS :: nat where "MAX_FIXED_ARGUMENTS = 7"
definition MAX_INTERVAL_MS :: int where "MAX_INTERVAL_MS = 60000"

record Track =
  trk_configured :: bool
  trk_active :: bool
  trk_intervalMs :: u32
  trk_nextAt :: u32
  trk_bits :: string
  trk_bitCount :: nat
  trk_position :: nat
  trk_channel :: NoobProgramChannel
  trk_appendInput :: bool

definition empty_track :: Track where
  "empty_track = \<lparr>trk_configured = False, trk_active = False, trk_intervalMs = 0, trk_nextAt = 0,
     trk_bits = replicate (MAX_BITS + 1) (CHR 0x00), trk_bitCount = 0, trk_position = 0,
     trk_channel = empty_channel, trk_appendInput = True\<rparr>"

record SequenceState =
  seq_registry :: "EntryView list"
  tracks :: "Track list"
  channelBusy :: "bool list"
  running :: bool
  repeating :: bool
  lastPopped :: "NoobRecord list"
  haveLastPopped :: "bool list"

record seq_world = time_world +
  seq :: SequenceState

definition initial_seq :: SequenceState where
  "initial_seq = \<lparr>seq_registry = [], tracks = replicate MAX_TRACKS empty_track,
     channelBusy = replicate MAX_TRACKS False, running = False, repeating = False,
     lastPopped = replicate MAX_TRACKS empty_record, haveLastPopped = replicate MAX_TRACKS False\<rparr>"

section \<open>Helpers\<close>

fun parse_digits :: "bool \<Rightarrow> int \<Rightarrow> string \<Rightarrow> int option" where
  "parse_digits negative parsed [] = Some parsed"
| "parse_digits negative parsed (c # cs) =
     (if \<not> isDigit c then None
      else let parsed = parsed * 10 + digit_value c in
        if (\<not> negative \<and> parsed > INT32_MAX) \<or> (negative \<and> parsed > INT32_MAX + 1) then None
        else parse_digits negative parsed cs)"

definition parseInteger :: "string \<Rightarrow> int32 option" where
  "parseInteger token = (if token = [] then None
     else let negative = (hd token = CHR ''-'');
              digits = (if negative then tl token else token)
          in if digits = [] then None
             else map_option (\<lambda>parsed. word_of_int (if negative then - parsed else parsed))
                    (parse_digits negative 0 digits))"

definition configuredCount :: "SequenceState \<Rightarrow> nat" where
  "configuredCount s = length (filter trk_configured (tracks s))"

definition activeCount :: "SequenceState \<Rightarrow> nat" where
  "activeCount s = length (filter trk_active (tracks s))"

definition stateDetail :: "SequenceState \<Rightarrow> string" where
  "stateDetail s = ''running='' @ show_bool (running s) @ '' repeat='' @ show_bool (repeating s) @
     '' configured='' @ show_nat (configuredCount s) @ '' active='' @ show_nat (activeCount s) @
     '' channel_busy='' @ join_with '','' (map show_bool (channelBusy s)) @
     '' positions='' @ join_with '','' (map (\<lambda>t. if trk_configured t
        then show_nat (trk_position t) @ ''/'' @ show_nat (trk_bitCount t) else ''-'') (tracks s))"

definition stopAll :: "SequenceState \<Rightarrow> SequenceState" where
  "stopAll s = s\<lparr>running := False, tracks := map (\<lambda>t. t\<lparr>trk_active := False\<rparr>) (tracks s),
     channelBusy := map (\<lambda>_. False) (channelBusy s)\<rparr>"

definition on_seq :: "(SequenceState \<Rightarrow> SequenceState) \<Rightarrow> 'a seq_world_scheme \<Rightarrow> 'a seq_world_scheme" where
  "on_seq f w = w\<lparr>seq := f (seq w)\<rparr>"

definition set_track :: "nat \<Rightarrow> Track \<Rightarrow> SequenceState \<Rightarrow> SequenceState" where
  "set_track slot t s = s\<lparr>tracks := (tracks s)[slot := t]\<rparr>"

definition track_channel :: "nat \<Rightarrow> 'a seq_world_scheme \<Rightarrow> NoobProgramChannel" where
  "track_channel slot w = trk_channel (tracks (seq w) ! slot)"

definition upd_track_channel :: "nat \<Rightarrow> (NoobProgramChannel \<Rightarrow> NoobProgramChannel)
    \<Rightarrow> 'a seq_world_scheme \<Rightarrow> 'a seq_world_scheme" where
  "upd_track_channel slot f =
     on_seq (\<lambda>s. set_track slot ((tracks s ! slot)\<lparr>trk_channel := f (trk_channel (tracks s ! slot))\<rparr>) s)"

section \<open>The runner\<close>

definition runner_advance :: "nat \<Rightarrow> u32 \<Rightarrow> SequenceState \<Rightarrow> SequenceState" where
  "runner_advance slot now s =
     (let t = tracks s ! slot;
          t1 = t\<lparr>trk_position := (trk_position t + 1) mod 256\<rparr>;
          (t2, busy) =
            (if trk_position t1 \<ge> trk_bitCount t1 then
               if repeating s then (t1\<lparr>trk_position := 0\<rparr>, channelBusy s)
               else (t1\<lparr>trk_active := False\<rparr>, (channelBusy s)[slot := False])
             else (t1, channelBusy s))
      in set_track slot (t2\<lparr>trk_nextAt := now + trk_intervalMs t2\<rparr>) (s\<lparr>channelBusy := busy\<rparr>))"

fun runner_loop :: "('a seq_world_scheme) NativeRegistry \<Rightarrow> u32 \<Rightarrow> nat list \<Rightarrow> bool
    \<Rightarrow> 'a seq_world_scheme \<Rightarrow> string option \<times> bool \<times> 'a seq_world_scheme" where
  "runner_loop reg now [] invoked w = (None, invoked, w)"
| "runner_loop reg now (slot # slots) invoked w =
     (let t = tracks (seq w) ! slot in
      if \<not> trk_active t \<or> not_due now (trk_nextAt t) then runner_loop reg now slots invoked w
      else let w = channel_invoke (track_channel slot) (upd_track_channel slot) reg
                     (if trk_bits t ! trk_position t = CHR ''1'' then 1 else 0) (trk_appendInput t) w;
               c = track_channel slot w
           in if \<not> ch_lastOk c
              then (Some (''NRP/1 0 EVENT SEQUENCE_ERROR slot='' @ show_nat slot @ '' function='' @
                      show_nat (unat (ch_functionId c)) @ '' detail='' @ ch_lastDetail c),
                    True, on_seq stopAll w)
              else runner_loop reg now slots True (on_seq (runner_advance slot now) w))"

definition runner_tick :: "('a seq_world_scheme) NativeRegistry \<Rightarrow> 'a seq_world_scheme
    \<Rightarrow> string option \<times> 'a seq_world_scheme" where
  "runner_tick reg w = (if \<not> running (seq w) then (None, w)
     else let (now, w) = millis w; (event, invoked, w) = runner_loop reg now [0..<MAX_TRACKS] False w
          in case event of Some e \<Rightarrow> (Some e, w)
             | None \<Rightarrow> if invoked \<and> activeCount (seq w) = 0
                       then (Some ''NRP/1 0 EVENT SEQUENCE_COMPLETE'', on_seq (\<lambda>s. s\<lparr>running := False\<rparr>) w)
                       else (None, w))"

section \<open>Configuration\<close>

definition seq_begin :: "'w NativeRegistry \<Rightarrow> 'a seq_world_scheme \<Rightarrow> 'a seq_world_scheme" where
  "seq_begin registry = on_seq (\<lambda>s. (stopAll (s\<lparr>seq_registry := registry_view registry\<rparr>))
     \<lparr>tracks := replicate MAX_TRACKS empty_track, channelBusy := replicate MAX_TRACKS False,
      haveLastPopped := replicate MAX_TRACKS False\<rparr>)"

definition pad_bits :: "string \<Rightarrow> string" where
  "pad_bits bs = bs @ replicate (MAX_BITS + 1 - length bs) (CHR 0x00)"

function set_arguments :: "int32 list \<Rightarrow> string \<Rightarrow> string + int32 list" where
  "set_arguments acc s = (if s = [] then Inr acc
     else if length acc \<ge> MAX_FIXED_ARGUMENTS then Inl ''at most 7 fixed arguments''
     else let (token, rest) = next_token s in
       case parseInteger token of None \<Rightarrow> Inl ''arguments must be integers''
       | Some value \<Rightarrow> set_arguments (acc @ [value]) rest)"
  by auto
termination
  by (relation "measure (\<lambda>(_, s). length s)") (auto intro: next_token_rest)

declare set_arguments.simps [simp del]

definition set_entry :: "EntryView list \<Rightarrow> string \<Rightarrow> string + EntryView" where
  "set_entry vs selector =
     (case parseInteger selector of
        Some n \<Rightarrow> if sint n < 0 \<or> sint n > 65535 then Inl ''function ID must be 0..65535''
          else (case view_find_id vs (ucast n) of Some v \<Rightarrow>
                  if view_numbers v then Inr v else Inl ''function must be a numeric native function''
                | None \<Rightarrow> Inl ''function must be a numeric native function'')
      | None \<Rightarrow> (case view_find_name vs selector of Some v \<Rightarrow>
                  if view_numbers v then Inr v else Inl ''function must be a numeric native function''
                | None \<Rightarrow> Inl ''function must be a numeric native function''))"

definition set_parse :: "EntryView list \<Rightarrow> string
    \<Rightarrow> string + (int32 \<times> int32 \<times> string \<times> EntryView \<times> int32 list)" where
  "set_parse vs arguments =
     (let (slotToken, r1) = next_token arguments; (intervalToken, r2) = next_token r1;
          (selector, r3) = next_token r2; (bits, r4) = next_token r3
      in case parseInteger slotToken of None \<Rightarrow> Inl ''slot must be 0..3''
      | Some slot \<Rightarrow>
          if sint slot < 0 \<or> sint slot \<ge> int MAX_TRACKS then Inl ''slot must be 0..3''
          else case parseInteger intervalToken of None \<Rightarrow> Inl ''interval must be 1..60000 ms''
          | Some interval \<Rightarrow>
              if sint interval < 1 \<or> sint interval > MAX_INTERVAL_MS
              then Inl ''interval must be 1..60000 ms''
              else if selector = [] \<or> bits = [] \<or> length bits > MAX_BITS
              then Inl ''usage: slot interval_ms function bits [args...]''
              else if \<exists>b \<in> set bits. b \<noteq> CHR ''0'' \<and> b \<noteq> CHR ''1''
              then Inl ''bits must contain only 0 or 1''
              else case set_entry vs selector of Inl e \<Rightarrow> Inl e
              | Inr entry \<Rightarrow> (case set_arguments [] r4 of Inl e \<Rightarrow> Inl e
                  | Inr fixed \<Rightarrow> Inr (slot, interval, bits, entry, fixed)))"

definition seq_set :: "('a seq_world_scheme) NativeTextFunction" where
  "seq_set arguments w =
     (if running (seq w) then (native_fail ''stop sequence before editing'', w)
      else case set_parse (seq_registry (seq w)) arguments of Inl e \<Rightarrow> (native_fail e, w)
      | Inr (slot, interval, bits, entry, fixed) \<Rightarrow>
          (native_ok slot (''slot='' @ show_i32 slot @ '' interval_ms='' @ show_i32 interval @
             '' function='' @ show_nat (unat (view_id entry)) @ '' bits='' @ bits),
           on_seq (set_track (unat slot) (empty_track\<lparr>trk_configured := True,
             trk_intervalMs := interval, trk_bits := pad_bits bits, trk_bitCount := length bits,
             trk_channel := snd (channel_configure (view_id entry) fixed [] empty_channel)\<rparr>)) w))"

text \<open>Bit \<open>index\<close> of the pattern is bit \<open>bitCount - index - 1\<close> of the packed word.\<close>

definition packed_bits :: "nat \<Rightarrow> int32 \<Rightarrow> string" where
  "packed_bits bitCount packed = map (\<lambda>index.
     if bit packed (bitCount - index - 1) then CHR ''1'' else CHR ''0'') [0..<bitCount]"

definition seq_setNumeric :: "int32 list \<Rightarrow> string \<Rightarrow> bool \<Rightarrow> 'a seq_world_scheme
    \<Rightarrow> NativeResult \<times> 'a seq_world_scheme" where
  "seq_setNumeric arguments ascii appendInput w =
     (if running (seq w) then (native_fail ''stop sequence before editing'', w)
      else if length arguments < 5
      then (native_fail ''usage: slot interval_ms function_id bit_count packed_bits [args...]'', w)
      else let slot = arguments ! 0; interval = arguments ! 1; functionId = arguments ! 2;
               bitCount = arguments ! 3
      in if sint slot < 0 \<or> sint slot \<ge> int MAX_TRACKS then (native_fail ''slot must be 0..3'', w)
         else if sint interval < 1 \<or> sint interval > MAX_INTERVAL_MS
         then (native_fail ''interval must be 1..60000 ms'', w)
         else if sint functionId < 0 \<or> sint functionId > 65535
         then (native_fail ''function ID must be 0..65535'', w)
         else if sint bitCount < 1 \<or> sint bitCount > 32
         then (native_fail ''VM packed pattern must contain 1..32 bits'', w)
         else if length arguments - 5 > MAX_FIXED_ARGUMENTS
         then (native_fail ''at most 7 fixed arguments'', w)
         else case view_find_id (seq_registry (seq w)) (ucast functionId) of
           None \<Rightarrow> (native_fail ''function must be registered'', w)
         | Some entry \<Rightarrow>
             if \<not> view_numbers entry \<and> \<not> view_text entry
             then (native_fail ''function must be registered'', w)
             else let bits = packed_bits (unat bitCount) (arguments ! 4);
                      (ok, c) = channel_configure (view_id entry) (drop 5 arguments) ascii empty_channel
             in if \<not> ok then (native_fail ''invalid channel arguments'', w)
                else (native_ok slot (''slot='' @ show_i32 slot @ '' interval_ms='' @ show_i32 interval @
                        '' function='' @ show_i32 functionId @ '' bits='' @ bits),
                      on_seq (set_track (unat slot) (empty_track\<lparr>trk_configured := True,
                        trk_intervalMs := interval, trk_bits := pad_bits bits,
                        trk_bitCount := unat bitCount, trk_channel := c,
                        trk_appendInput := appendInput\<rparr>)) w))"

definition seq_setMixed :: "('a seq_world_scheme) NativeMixedFunction" where
  "seq_setMixed arguments ascii w =
     (if length arguments < 6 \<or> length arguments > 13 \<or> (arguments ! 5 \<noteq> 0 \<and> arguments ! 5 \<noteq> 1)
      then (native_fail (''usage: slot interval_ms function_id bit_count packed_bits '' @
              ''append_bit(0|1) [args...] ASCII''), w)
      else seq_setNumeric (take 5 arguments @ drop 6 arguments) ascii (arguments ! 5 \<noteq> 0) w)"

definition configurationFunction :: "('a seq_world_scheme) NoobFunction" where
  "configurationFunction = FunctionObject True True
     (Some (\<lambda>args. seq_setNumeric args [] True)) (Some seq_set) (Some seq_setMixed)"

record ChannelDefinition =
  cd_functionId :: u16
  cd_intervalMs :: u32
  cd_bits :: "u8 list option"
  cd_bitCount :: nat
  cd_arguments :: "int32 list option"
  cd_argumentCount :: nat
  cd_ascii :: "string option"
  cd_appendInput :: bool

definition load_track :: "EntryView list \<Rightarrow> ChannelDefinition \<Rightarrow> string + Track" where
  "load_track vs source =
     (if cd_bits source = None \<or> cd_bitCount source = 0 \<or> cd_bitCount source > MAX_BITS \<or>
         cd_intervalMs source = 0 \<or> int (unat (cd_intervalMs source)) > MAX_INTERVAL_MS \<or>
         cd_argumentCount source > MAX_FIXED_ARGUMENTS \<or>
         (cd_argumentCount source > 0 \<and> cd_arguments source = None)
      then Inl ''invalid channel definition''
      else case view_find_id vs (cd_functionId source) of
        None \<Rightarrow> Inl ''channel function is not registered''
      | Some entry \<Rightarrow>
          if \<not> view_numbers entry \<and> \<not> view_text entry
          then Inl ''channel function is not registered''
          else let bits = map (\<lambda>i. the (cd_bits source) ! i) [0..<cd_bitCount source] in
            if \<exists>b \<in> set bits. b > 1 then Inl ''channel bits must be 0 or 1''
            else case cd_ascii source of None \<Rightarrow> Inl ''invalid channel arguments''
            | Some ascii \<Rightarrow>
                (let arguments = map (\<lambda>i. the (cd_arguments source) ! i) [0..<cd_argumentCount source];
                     (ok, c) = channel_configure (cd_functionId source) arguments ascii empty_channel
                 in if \<not> ok then Inl ''invalid channel arguments''
                    else Inr (empty_track\<lparr>trk_configured := True, trk_intervalMs := cd_intervalMs source,
                      trk_bitCount := cd_bitCount source,
                      trk_bits := pad_bits (map (\<lambda>b. if b = 0 then CHR ''0'' else CHR ''1'') bits),
                      trk_appendInput := cd_appendInput source, trk_channel := c\<rparr>)))"

fun load_tracks :: "EntryView list \<Rightarrow> nat \<Rightarrow> ChannelDefinition list \<Rightarrow> (nat \<times> string) + Track list" where
  "load_tracks vs slot [] = Inr []"
| "load_tracks vs slot (source # sources) = (case load_track vs source of
       Inl e \<Rightarrow> Inl (slot, e)
     | Inr t \<Rightarrow> (case load_tracks vs (Suc slot) sources of Inl e \<Rightarrow> Inl e | Inr ts \<Rightarrow> Inr (t # ts)))"

definition seq_load :: "ChannelDefinition list option \<Rightarrow> 'a seq_world_scheme
    \<Rightarrow> NativeResult \<times> 'a seq_world_scheme" where
  "seq_load channels w =
     (if running (seq w) then (native_fail ''stop sequence before replacing'', w)
      else case channels of None \<Rightarrow> (native_fail ''sequence must contain 1..4 channels'', w)
      | Some cs \<Rightarrow>
          if cs = [] \<or> length cs > MAX_TRACKS
          then (native_fail ''sequence must contain 1..4 channels'', w)
          else case load_tracks (seq_registry (seq w)) 0 cs of
            Inl (slot, e) \<Rightarrow> ((native_fail e)\<lparr>r_value := of_nat slot\<rparr>, w)
          | Inr ts \<Rightarrow> (native_ok (of_nat (length cs)) (''channels='' @ show_nat (length cs)),
              on_seq (\<lambda>s. s\<lparr>tracks := ts @ replicate (MAX_TRACKS - length ts) empty_track\<rparr>) w))"

section \<open>Control\<close>

definition seq_start :: "('a seq_world_scheme) NativeFunction" where
  "seq_start arguments w =
     (if length arguments > 1 \<or> (length arguments = 1 \<and> arguments ! 0 \<noteq> 0 \<and> arguments ! 0 \<noteq> 1)
      then (native_fail ''usage: [repeat(0|1)]'', w)
      else if running (seq w) then (native_fail ''sequence already running'', w)
      else if configuredCount (seq w) = 0 then (native_fail ''no sequence tracks configured'', w)
      else let w = on_seq (\<lambda>s. s\<lparr>repeating := arguments \<noteq> [] \<and> arguments ! 0 \<noteq> 0\<rparr>) w;
               (now, w) = millis w;
               w = on_seq (\<lambda>s. s\<lparr>tracks := map (\<lambda>t. t\<lparr>trk_active := trk_configured t,
                     trk_position := 0, trk_nextAt := now\<rparr>) (tracks s)\<rparr>) w;
               w = on_seq (\<lambda>s. s\<lparr>channelBusy := map trk_active (tracks s), running := True\<rparr>) w
           in (native_ok (of_nat (configuredCount (seq w))) (stateDetail (seq w)), w))"

definition seq_stop :: "('a seq_world_scheme) NativeFunction" where
  "seq_stop arguments w = (if arguments \<noteq> [] then (native_fail ''usage: no arguments'', w)
     else let w = on_seq stopAll w in (native_ok 0 (stateDetail (seq w)), w))"

definition seq_status :: "('a seq_world_scheme) NativeFunction" where
  "seq_status arguments w = (if arguments \<noteq> [] then (native_fail ''usage: no arguments'', w)
     else (native_ok (if running (seq w) then 1 else 0) (stateDetail (seq w)), w))"

definition slot_argument :: "int32 \<Rightarrow> bool" where
  "slot_argument a \<longleftrightarrow> \<not> (sint a < 0 \<or> sint a \<ge> int MAX_TRACKS)"

definition seq_clear :: "('a seq_world_scheme) NativeFunction" where
  "seq_clear arguments w =
     (if running (seq w) then (native_fail ''stop sequence before clearing'', w)
      else if length arguments > 1 then (native_fail ''usage: [slot]'', w)
      else if arguments = []
      then (native_ok 0 ''cleared=all'', on_seq (\<lambda>s. s\<lparr>tracks := replicate MAX_TRACKS empty_track\<rparr>) w)
      else if \<not> slot_argument (arguments ! 0) then (native_fail ''slot must be 0..3'', w)
      else (native_ok (arguments ! 0) (''cleared='' @ show_i32 (arguments ! 0)),
            on_seq (set_track (unat (arguments ! 0)) empty_track) w))"

definition seq_pop :: "('a seq_world_scheme) NativeFunction" where
  "seq_pop arguments w =
     (if length arguments \<noteq> 1 \<or> \<not> slot_argument (arguments ! 0)
      then (native_fail ''usage: slot(0..3)'', w)
      else let slot = unat (arguments ! 0) in
        case queue_pop (ch_results (track_channel slot w)) of
          None \<Rightarrow> (native_fail ''channel queue empty'', w)
        | Some (rec, q) \<Rightarrow>
            (let w = upd_track_channel slot (\<lambda>c. c\<lparr>ch_results := q\<rparr>) w;
                 w = on_seq (\<lambda>s. s\<lparr>lastPopped := (lastPopped s)[slot := rec],
                                   haveLastPopped := (haveLastPopped s)[slot := True]\<rparr>) w;
                 value = (case record_primary rec of None \<Rightarrow> 0 | Some v \<Rightarrow> v)
             in ((native_ok value (''slot='' @ show_i32 (arguments ! 0) @ '' remaining='' @
                   show_nat (queue_size q) @ '' dropped='' @ show_nat (unat (queue_dropped q))))
                   \<lparr>r_record := rec\<rparr>, w)))"

definition seq_queueSize :: "('a seq_world_scheme) NativeFunction" where
  "seq_queueSize arguments w =
     (if length arguments \<noteq> 1 \<or> \<not> slot_argument (arguments ! 0)
      then (native_fail ''usage: slot(0..3)'', w)
      else let q = ch_results (track_channel (unat (arguments ! 0)) w) in
        (native_ok (of_nat (queue_size q)) (''slot='' @ show_i32 (arguments ! 0) @ '' dropped='' @
           show_nat (unat (queue_dropped q))), w))"

definition seq_clearQueue :: "('a seq_world_scheme) NativeFunction" where
  "seq_clearQueue arguments w =
     (if length arguments \<noteq> 1 \<or> \<not> slot_argument (arguments ! 0)
      then (native_fail ''usage: slot(0..3)'', w)
      else let slot = unat (arguments ! 0);
               w = upd_track_channel slot (\<lambda>c. c\<lparr>ch_results := queue_clear (ch_results c)\<rparr>) w;
               w = on_seq (\<lambda>s. s\<lparr>haveLastPopped := (haveLastPopped s)[slot := False]\<rparr>) w
           in (native_ok 0 (''slot='' @ show_i32 (arguments ! 0) @ '' cleared=1''), w))"

definition seq_field :: "('a seq_world_scheme) NativeFunction" where
  "seq_field arguments w =
     (if length arguments \<noteq> 2 \<or> \<not> slot_argument (arguments ! 0) \<or> sint (arguments ! 1) < 0 \<or>
         sint (arguments ! 1) \<ge> int MAX_FIELDS
      then (native_fail ''usage: slot(0..3) field_index(0..5)'', w)
      else let slot = unat (arguments ! 0) in
        if \<not> haveLastPopped (seq w) ! slot then (native_fail ''no popped channel record'', w)
        else case record_get_index (lastPopped (seq w) ! slot) (unat (arguments ! 1)) of
          None \<Rightarrow> (native_fail ''record field absent'', w)
        | Some (name, value) \<Rightarrow>
            (native_ok value (''slot='' @ show_nat slot @ '' field='' @ show_i32 (arguments ! 1) @
               '' name='' @ name), w))"

definition seq_busy :: "('a seq_world_scheme) NativeFunction" where
  "seq_busy arguments w =
     (if length arguments \<noteq> 1 \<or> \<not> slot_argument (arguments ! 0)
      then (native_fail ''usage: slot(0..3)'', w)
      else let isBusy = channelBusy (seq w) ! unat (arguments ! 0) in
        (native_ok (if isBusy then 1 else 0) (''slot='' @ show_i32 (arguments ! 0) @
           '' channel_busy='' @ show_bool isBusy), w))"

definition busyMask :: "SequenceState \<Rightarrow> u8" where
  "busyMask s = fold (\<lambda>slot mask. if channelBusy s ! slot then mask OR push_bit slot 1 else mask)
     [0..<MAX_TRACKS] 0"

section \<open>Sequence programs\<close>

definition sequence_program_call :: "ChannelDefinition list option \<Rightarrow> ('a seq_world_scheme) NativeFunction" where
  "sequence_program_call channels arguments w =
     (if length arguments > 1 \<or> (arguments \<noteq> [] \<and> arguments ! 0 \<noteq> 0 \<and> arguments ! 0 \<noteq> 1)
      then (native_fail ''usage: [repeat(0|1)]'', w)
      else let (_, w) = seq_stop [] w; (result, w) = seq_load channels w in
        if \<not> r_ok result then (result, w) else seq_start arguments w)"

definition sequence_program_stop :: "'a seq_world_scheme \<Rightarrow> NativeResult \<times> 'a seq_world_scheme" where
  "sequence_program_stop w = seq_stop [] w"

definition sequence_program :: "ChannelDefinition list option \<Rightarrow> ('a seq_world_scheme) NoobFunction" where
  "sequence_program channels = FunctionObject True False (Some (sequence_program_call channels)) None None"

section \<open>The invariant\<close>

definition track_wf :: "Track \<Rightarrow> bool" where
  "track_wf t \<longleftrightarrow> length (trk_bits t) = MAX_BITS + 1 \<and> trk_bitCount t \<le> MAX_BITS \<and>
     (\<forall>i < trk_bitCount t. trk_bits t ! i = CHR ''0'' \<or> trk_bits t ! i = CHR ''1'') \<and>
     (trk_configured t \<longrightarrow> 0 < trk_bitCount t \<and> 0 < trk_intervalMs t \<and>
        int (unat (trk_intervalMs t)) \<le> MAX_INTERVAL_MS) \<and>
     (trk_active t \<longrightarrow> trk_configured t \<and> trk_position t < trk_bitCount t) \<and>
     channel_wf (trk_channel t)"

definition seq_wf :: "SequenceState \<Rightarrow> bool" where
  "seq_wf s \<longleftrightarrow> length (tracks s) = MAX_TRACKS \<and> length (lastPopped s) = MAX_TRACKS \<and>
     length (haveLastPopped s) = MAX_TRACKS \<and> list_all track_wf (tracks s) \<and>
     channelBusy s = map trk_active (tracks s) \<and>
     (\<not> running s \<longrightarrow> list_all (\<lambda>t. \<not> trk_active t) (tracks s))"

lemma track_wf_empty [simp]: "track_wf empty_track" "\<not> trk_active empty_track"
  by (simp_all add: track_wf_def empty_track_def)

lemma seq_wf_initial [simp]: "seq_wf initial_seq"
  by (simp add: seq_wf_def initial_seq_def list_all_iff)

lemma seq_wf_lengths:
  "seq_wf s \<Longrightarrow> length (tracks s) = MAX_TRACKS" "seq_wf s \<Longrightarrow> length (channelBusy s) = MAX_TRACKS"
  by (simp_all add: seq_wf_def)

lemma seq_wf_track: "seq_wf s \<Longrightarrow> slot < MAX_TRACKS \<Longrightarrow> track_wf (tracks s ! slot)"
  by (simp add: seq_wf_def list_all_length)

lemma stopAll_wf [noob_inv]: "seq_wf s \<Longrightarrow> seq_wf (stopAll s)"
  by (auto simp: seq_wf_def stopAll_def list_all_iff track_wf_def o_def)

lemma set_track_wf:
  assumes "seq_wf s" "track_wf t" "slot < MAX_TRACKS" "trk_active t = trk_active (tracks s ! slot)"
  shows "seq_wf (set_track slot t s)"
proof -
  have "map trk_active ((tracks s)[slot := t]) = map trk_active (tracks s)"
    using assms by (simp add: map_update seq_wf_def) (metis list_update_id nth_map)
  with assms show ?thesis
    by (simp add: seq_wf_def set_track_def list_all_length nth_list_update)
qed

text \<open>While nothing runs, every idle track may replace a track.\<close>

lemma set_idle_track_wf:
  assumes "seq_wf s" "\<not> running s" "track_wf t" "\<not> trk_active t" "slot < MAX_TRACKS"
  shows "seq_wf (set_track slot t s)"
  using assms by (intro set_track_wf) (auto simp: seq_wf_def list_all_length)

lemma on_seq_simps [simp]:
  "seq (on_seq f w) = f (seq w)" "vm (on_seq f w) = vm w" "clock (on_seq f w) = clock w"
  "clock_reads (on_seq f w) = clock_reads w" "epochMilliseconds (on_seq f w) = epochMilliseconds w"
  by (simp_all add: on_seq_def)

lemma set_track_simps [simp]:
  "running (set_track slot t s) = running s" "repeating (set_track slot t s) = repeating s"
  "channelBusy (set_track slot t s) = channelBusy s" "seq_registry (set_track slot t s) = seq_registry s"
  "length (tracks (set_track slot t s)) = length (tracks s)"
  by (simp_all add: set_track_def)

interpretation track: channel_slot "track_channel slot" "upd_track_channel slot"
    "\<lambda>w. slot < MAX_TRACKS \<and> seq_wf (seq w)" for slot
proof unfold_locales
  fix w :: "'a seq_world_scheme" and f g
  assume "slot < MAX_TRACKS \<and> seq_wf (seq w)"
  then show "track_channel slot (upd_track_channel slot f w) = f (track_channel slot w)"
    by (simp add: track_channel_def upd_track_channel_def set_track_def seq_wf_lengths)
next
  fix w :: "'a seq_world_scheme" and f g
  show "upd_track_channel slot f (upd_track_channel slot g w) = upd_track_channel slot (\<lambda>c. f (g c)) w"
    by (cases "slot < length (tracks (seq w))")
      (simp_all add: upd_track_channel_def set_track_def on_seq_def list_update_beyond)
next
  fix w :: "'a seq_world_scheme" and f
  assume v: "slot < MAX_TRACKS \<and> seq_wf (seq w)" and f: "\<And>c. channel_wf c \<Longrightarrow> channel_wf (f c)"
  have "track_wf ((tracks (seq w) ! slot)\<lparr>trk_channel := f (trk_channel (tracks (seq w) ! slot))\<rparr>)"
    using seq_wf_track [of "seq w" slot] v f by (simp add: track_wf_def)
  with v show "slot < MAX_TRACKS \<and> seq_wf (seq (upd_track_channel slot f w))"
    by (simp add: upd_track_channel_def set_track_wf)
next
  fix w :: "'a seq_world_scheme"
  assume "slot < MAX_TRACKS \<and> seq_wf (seq w)"
  then show "channel_wf (track_channel slot w)"
    using seq_wf_track [of "seq w" slot] by (simp add: track_wf_def track_channel_def)
qed

section \<open>Every operation keeps the invariant\<close>

definition native_keeps_seq :: "('a seq_world_scheme) NoobFunction \<Rightarrow> bool" where
  "native_keeps_seq f \<longleftrightarrow>
     (\<forall>args ascii w. seq_wf (seq w) \<longrightarrow> seq_wf (seq (snd (function_callMixed f args ascii w))))"

definition registry_keeps_seq :: "('a seq_world_scheme) NativeRegistry \<Rightarrow> bool" where
  "registry_keeps_seq reg \<longleftrightarrow>
     (\<forall>e \<in> set (entries reg). \<forall>f. ent_impl e = Some f \<longrightarrow> native_keeps_seq f)"

lemma callMixed_keeps_seq:
  assumes "registry_keeps_seq reg" "e \<in> set (entries reg)" "seq_wf (seq w)"
  shows "seq_wf (seq (snd (registry_callMixed e args s w)))"
  using assms
  by (auto simp: registry_keeps_seq_def native_keeps_seq_def registry_callMixed_def split: option.splits)

lemma set_track_busy_wf:
  assumes "seq_wf s" "track_wf t" "slot < MAX_TRACKS" "trk_active t \<longrightarrow> trk_active (tracks s ! slot)"
    and "busy = (channelBusy s)[slot := trk_active t]"
  shows "seq_wf (set_track slot t (s\<lparr>channelBusy := busy\<rparr>))"
  using assms by (auto simp: seq_wf_def set_track_def list_all_length nth_list_update map_update)

lemma runner_advance_wf [noob_inv]:
  assumes "seq_wf s" "slot < MAX_TRACKS"
  shows "seq_wf (runner_advance slot now s)"
proof -
  define t where "t = tracks s ! slot"
  have t: "track_wf t" using seq_wf_track [OF assms] by (simp add: t_def)
  define p where "p = (trk_position t + 1) mod 256"
  consider "p < trk_bitCount t" | "trk_bitCount t \<le> p" "repeating s" | "trk_bitCount t \<le> p" "\<not> repeating s"
    by linarith
  then show ?thesis
  proof cases
    case 1
    then show ?thesis
      using t assms unfolding runner_advance_def Let_def t_def [symmetric] p_def [symmetric]
      by (auto simp: track_wf_def t_def intro!: set_track_wf [OF assms(1) _ assms(2)])
  next
    case 2
    then show ?thesis
      using t assms unfolding runner_advance_def Let_def t_def [symmetric] p_def [symmetric]
      by (auto simp: track_wf_def t_def intro!: set_track_wf [OF assms(1) _ assms(2)])
  next
    case 3
    then show ?thesis
      using t assms unfolding runner_advance_def Let_def t_def [symmetric] p_def [symmetric]
      by (auto simp: track_wf_def intro!: set_track_busy_wf [OF assms(1) _ assms(2)])
  qed
qed

lemma runner_loop_wf:
  assumes "registry_keeps_seq reg" "list_all (\<lambda>i. i < MAX_TRACKS) slots" "seq_wf (seq w)"
  shows "seq_wf (seq (snd (snd (runner_loop reg now slots invoked w))))"
  using assms
proof (induction slots arbitrary: invoked w)
  case (Cons slot slots)
  let ?t = "tracks (seq w) ! slot"
  let ?w = "channel_invoke (track_channel slot) (upd_track_channel slot) reg
      (if trk_bits ?t ! trk_position ?t = CHR ''1'' then 1 else 0) (trk_appendInput ?t) w"
  have slot: "slot < MAX_TRACKS" using Cons.prems(2) by simp
  have "slot < MAX_TRACKS \<and> seq_wf (seq ?w)"
    using Cons.prems slot callMixed_keeps_seq by (intro track.invoke_valid) auto
  with Cons slot show ?case
    by (simp add: Let_def stopAll_wf runner_advance_wf)
qed simp

lemma activeCount_0: "activeCount s = 0 \<longleftrightarrow> list_all (\<lambda>t. \<not> trk_active t) (tracks s)"
  by (simp add: activeCount_def filter_empty_conv list_all_iff)

lemma seq_wf_idle: "seq_wf s \<Longrightarrow> activeCount s = 0 \<Longrightarrow> seq_wf (s\<lparr>running := False\<rparr>)"
  by (simp add: seq_wf_def activeCount_0)

lemma seq_millis [simp]: "seq (snd (millis w)) = seq w" "seq (w\<lparr>clock_reads := n\<rparr>) = seq w"
  by (simp_all add: millis_def)

lemma slots_valid: "list_all (\<lambda>i. i < MAX_TRACKS) [0..<MAX_TRACKS]"
  by (simp add: list_all_iff)

lemma runner_tick_wf [noob_inv]:
  assumes "registry_keeps_seq reg" "seq_wf (seq w)"
  shows "seq_wf (seq (snd (runner_tick reg w)))"
proof -
  let ?r = "runner_loop reg (fst (millis w)) [0..<MAX_TRACKS] False (snd (millis w))"
  have "seq_wf (seq (snd (snd ?r)))"
    using assms by (intro runner_loop_wf slots_valid) simp_all
  then show ?thesis
    using assms(2) unfolding runner_tick_def case_prod_beta Let_def
    by (simp add: seq_wf_idle split: option.splits)
qed

lemma track_wfI:
  assumes "trk_bits t = pad_bits bs" "trk_bitCount t = length bs" "bs \<noteq> []" "length bs \<le> MAX_BITS"
    and "\<forall>b \<in> set bs. b = CHR ''0'' \<or> b = CHR ''1''" "0 < trk_intervalMs t"
    and "int (unat (trk_intervalMs t)) \<le> MAX_INTERVAL_MS" "\<not> trk_active t" "channel_wf (trk_channel t)"
  shows "track_wf t"
  using assms by (auto simp: track_wf_def pad_bits_def nth_append)

lemma interval_range:
  fixes n :: int32
  assumes "\<not> (sint n < 1 \<or> sint n > MAX_INTERVAL_MS)"
  shows "0 < n" "int (unat n) \<le> MAX_INTERVAL_MS"
proof -
  have "int (unat n) = sint n" using assms by (simp add: sint_eq_uint_nonneg)
  with assms show "0 < n" "int (unat n) \<le> MAX_INTERVAL_MS" by (auto simp: word_gt_0)
qed

lemma slot_range:
  fixes n :: int32
  assumes "\<not> (sint n < 0 \<or> sint n \<ge> int MAX_TRACKS)"
  shows "unat n < MAX_TRACKS"
proof -
  have "int (unat n) = sint n" using assms by (simp add: sint_eq_uint_nonneg)
  with assms show ?thesis by linarith
qed

lemma configured_track_wf:
  fixes interval :: int32
  assumes "\<not> (sint interval < 1 \<or> sint interval > MAX_INTERVAL_MS)" "channel_wf c"
    and "bs \<noteq> []" "length bs \<le> MAX_BITS" "\<forall>b \<in> set bs. b = CHR ''0'' \<or> b = CHR ''1''"
  shows "track_wf (empty_track\<lparr>trk_configured := True, trk_intervalMs := interval,
    trk_bits := pad_bits bs, trk_bitCount := length bs, trk_channel := c, trk_appendInput := app\<rparr>)"
  using assms interval_range [OF assms(1)]
  by (intro track_wfI [where bs = bs]) (simp_all add: empty_track_def)

lemmas default_track_wf = configured_track_wf [where app = True, unfolded empty_track_def, simplified,
    folded empty_track_def]

lemma set_parse_ok:
  assumes "set_parse vs args = Inr (slot, interval, bits, entry, fixed)"
  shows "\<not> (sint slot < 0 \<or> sint slot \<ge> int MAX_TRACKS)"
    "\<not> (sint interval < 1 \<or> sint interval > MAX_INTERVAL_MS)"
    "bits \<noteq> []" "length bits \<le> MAX_BITS" "\<forall>b \<in> set bits. b = CHR ''0'' \<or> b = CHR ''1''"
  using assms unfolding set_parse_def Let_def case_prod_beta
  by (auto split: option.splits if_splits sum.splits)

lemma seq_set_wf [noob_inv]:
  assumes "seq_wf (seq w)"
  shows "seq_wf (seq (snd (seq_set args w)))"
proof (cases "running (seq w)")
  case False
  show ?thesis
  proof (cases "set_parse (seq_registry (seq w)) args")
    case (Inr p)
    obtain slot interval bits entry fixed where p: "p = (slot, interval, bits, entry, fixed)"
      by (cases p)
    note ok = set_parse_ok [OF Inr [unfolded p]]
    have "track_wf (empty_track\<lparr>trk_configured := True, trk_intervalMs := interval,
        trk_bits := pad_bits bits, trk_bitCount := length bits,
        trk_channel := snd (channel_configure (view_id entry) fixed [] empty_channel)\<rparr>)"
      using default_track_wf ok channel_configure_wf by (simp add: empty_track_def)
    with False Inr p assms slot_range [OF ok(1)] show ?thesis
      by (simp add: seq_set_def set_idle_track_wf)
  qed (use False assms in \<open>simp add: seq_set_def\<close>)
qed (use assms in \<open>simp add: seq_set_def\<close>)

lemma packed_bits_chars:
  "length (packed_bits n x) = n" "\<forall>b \<in> set (packed_bits n x). b = CHR ''0'' \<or> b = CHR ''1''"
  by (auto simp: packed_bits_def)

lemma packed_count:
  fixes b :: int32
  assumes "\<not> (sint b < 1 \<or> sint b > 32)"
  shows "packed_bits (unat b) x \<noteq> []" "length (packed_bits (unat b) x) \<le> MAX_BITS"
proof -
  have "int (unat b) = sint b" using assms by (simp add: sint_eq_uint_nonneg)
  with assms have "0 < unat b" "unat b \<le> MAX_BITS" unfolding MAX_BITS_def by linarith+
  then show "packed_bits (unat b) x \<noteq> []" "length (packed_bits (unat b) x) \<le> MAX_BITS"
    by (simp_all add: packed_bits_def)
qed

lemma packed_track_wf:
  fixes b interval :: int32
  assumes "\<not> (sint b < 1 \<or> sint b > 32)" "\<not> (sint interval < 1 \<or> sint interval > MAX_INTERVAL_MS)"
    and "channel_wf c"
  shows "track_wf (empty_track\<lparr>trk_configured := True, trk_intervalMs := interval,
    trk_bits := pad_bits (packed_bits (unat b) x), trk_bitCount := unat b, trk_channel := c,
    trk_appendInput := app\<rparr>)"
  using configured_track_wf [OF assms(2,3) packed_count [OF assms(1)] packed_bits_chars(2)]
  by (simp add: packed_bits_chars(1))

lemma seq_setNumeric_wf [noob_inv]:
  assumes "seq_wf (seq w)"
  shows "seq_wf (seq (snd (seq_setNumeric args ascii app w)))"
proof -
  have c: "channel_wf (snd (channel_configure i as ascii empty_channel))" for i as
    by (simp add: channel_configure_wf)
  show ?thesis
    using assms c unfolding seq_setNumeric_def Let_def case_prod_beta
    by (auto split: option.splits intro!: set_idle_track_wf slot_range packed_track_wf)
qed

lemma seq_setMixed_wf [noob_inv]: "seq_wf (seq w) \<Longrightarrow> seq_wf (seq (snd (seq_setMixed args ascii w)))"
  by (simp add: seq_setMixed_def seq_setNumeric_wf)

lemma load_track_wf:
  assumes "load_track vs source = Inr t"
  shows "track_wf t" "\<not> trk_active t"
proof -
  define bits where "bits = map (\<lambda>i. the (cd_bits source) ! i) [0..<cd_bitCount source]"
  define as where "as = map (\<lambda>i. the (cd_arguments source) ! i) [0..<cd_argumentCount source]"
  obtain s where
    ok: "0 < cd_bitCount source" "cd_bitCount source \<le> MAX_BITS" "0 < cd_intervalMs source"
      "int (unat (cd_intervalMs source)) \<le> MAX_INTERVAL_MS" and
    t: "t = empty_track\<lparr>trk_configured := True, trk_intervalMs := cd_intervalMs source,
      trk_bitCount := cd_bitCount source,
      trk_bits := pad_bits (map (\<lambda>b. if b = 0 then CHR ''0'' else CHR ''1'') bits),
      trk_appendInput := cd_appendInput source,
      trk_channel := snd (channel_configure (cd_functionId source) as s empty_channel)\<rparr>"
    using assms unfolding load_track_def Let_def case_prod_beta bits_def [symmetric] as_def [symmetric]
    by (auto split: option.splits if_splits simp: word_gt_0)
  show "track_wf t"
    using ok channel_configure_wf [OF channel_wf_empty]
    by (intro track_wfI [where bs = "map (\<lambda>b. if b = 0 then CHR ''0'' else CHR ''1'') bits"])
      (auto simp: t bits_def)
  show "\<not> trk_active t" by (simp add: t)
qed

lemma load_tracks_wf:
  "load_tracks vs slot cs = Inr ts \<Longrightarrow>
     length ts = length cs \<and> list_all track_wf ts \<and> list_all (\<lambda>t. \<not> trk_active t) ts"
  by (induction cs arbitrary: slot ts) (auto split: sum.splits simp: load_track_wf)

lemma idle_tracks_wf:
  assumes "seq_wf s" "\<not> running s" "length ts = MAX_TRACKS" "list_all track_wf ts"
    and "list_all (\<lambda>t. \<not> trk_active t) ts"
  shows "seq_wf (s\<lparr>tracks := ts\<rparr>)"
  using assms by (auto simp: seq_wf_def list_all_length intro!: nth_equalityI)

lemma seq_load_wf [noob_inv]:
  assumes "seq_wf (seq w)"
  shows "seq_wf (seq (snd (seq_load cs w)))"
proof -
  have k: "seq_wf ((seq w)\<lparr>tracks := ts @ replicate (MAX_TRACKS - length ts) empty_track\<rparr>)"
    if "\<not> running (seq w)" "length c \<le> MAX_TRACKS" "load_tracks vs 0 c = Inr ts" for c ts vs
    using that load_tracks_wf [OF that(3)] assms by (intro idle_tracks_wf) (auto simp: list_all_iff)
  show ?thesis
    using assms by (auto simp: seq_load_def not_less intro!: k split: option.splits sum.splits)
qed

lemma seq_start_wf [noob_inv]: "seq_wf (seq w) \<Longrightarrow> seq_wf (seq (snd (seq_start args w)))"
  by (auto simp: seq_start_def Let_def case_prod_beta seq_wf_def list_all_iff track_wf_def)

lemma seq_simple_wf [noob_inv]:
  assumes "seq_wf (seq w)"
  shows "seq_wf (seq (snd (seq_stop args w)))" "seq_wf (seq (snd (seq_status args w)))"
    "seq_wf (seq (snd (seq_queueSize args w)))" "seq_wf (seq (snd (seq_field args w)))"
    "seq_wf (seq (snd (seq_busy args w)))"
  using assms
  by (simp_all add: seq_stop_def seq_status_def seq_queueSize_def seq_field_def seq_busy_def Let_def
      stopAll_wf split: option.splits prod.splits)

lemma seq_clear_wf [noob_inv]: "seq_wf (seq w) \<Longrightarrow> seq_wf (seq (snd (seq_clear args w)))"
  using slot_range [of "args ! 0"] idle_tracks_wf [of "seq w" "replicate MAX_TRACKS empty_track"]
  by (auto simp: seq_clear_def slot_argument_def list_all_iff intro!: set_idle_track_wf)

lemma popped_wf: "seq_wf s \<Longrightarrow> seq_wf (s\<lparr>lastPopped := (lastPopped s)[i := x],
    haveLastPopped := (haveLastPopped s)[j := b]\<rparr>)" "seq_wf s \<Longrightarrow> seq_wf (s\<lparr>haveLastPopped := (haveLastPopped s)[j := b]\<rparr>)"
  by (simp_all add: seq_wf_def)

lemma slot_argument_range: "slot_argument a \<Longrightarrow> unat a < MAX_TRACKS"
  by (simp add: slot_argument_def slot_range)

lemma seq_pop_wf [noob_inv]:
  assumes "seq_wf (seq w)"
  shows "seq_wf (seq (snd (seq_pop args w)))"
proof -
  have u: "seq_wf (seq (upd_track_channel slot (\<lambda>c. c\<lparr>ch_results := q\<rparr>) w))"
    if "slot < MAX_TRACKS" "queue_wf q" for slot q
    using track.valid_upd [of slot w "\<lambda>c. c\<lparr>ch_results := q\<rparr>"] assms that by (simp add: channel_wf_def)
  have q: "queue_wf q" if "slot < MAX_TRACKS"
    "queue_pop (ch_results (track_channel slot w)) = Some (r, q)" for slot r q
    using ring.pop_cons ring.pop_empty track.valid_get [of slot w] assms that
    by (cases "queue_contents (ch_results (track_channel slot w))") (fastforce simp: channel_wf_def)+
  show ?thesis
    using assms
    by (auto simp: seq_pop_def Let_def intro!: popped_wf u split: option.splits
        intro: slot_argument_range q)
qed

lemma seq_clearQueue_wf [noob_inv]:
  assumes "seq_wf (seq w)"
  shows "seq_wf (seq (snd (seq_clearQueue args w)))"
proof -
  have "seq_wf (seq (upd_track_channel slot (\<lambda>c. c\<lparr>ch_results := queue_clear (ch_results c)\<rparr>) w))"
    if "slot < MAX_TRACKS" for slot
    using track.valid_upd [of slot w "\<lambda>c. c\<lparr>ch_results := queue_clear (ch_results c)\<rparr>"] assms that
    by (simp add: channel_wf_def ring.clear_wf)
  with assms slot_argument_range show ?thesis
    by (auto simp: seq_clearQueue_def Let_def popped_wf)
qed

lemma sequence_program_wf [noob_inv]:
  "seq_wf (seq w) \<Longrightarrow> seq_wf (seq (snd (sequence_program_call cs args w)))"
  by (simp add: sequence_program_call_def Let_def case_prod_beta seq_load_wf seq_simple_wf seq_start_wf)

section \<open>Reading integers\<close>

definition digits_from :: "int \<Rightarrow> string \<Rightarrow> int" where
  "digits_from p ds = foldl (\<lambda>a c. a * 10 + digit_value c) p ds"

lemma digits_from_simps [simp]:
  "digits_from p [] = p" "digits_from p (c # cs) = digits_from (p * 10 + digit_value c) cs"
  by (simp_all add: digits_from_def)

lemma digit_value_nonneg: "isDigit c \<Longrightarrow> 0 \<le> digit_value c"
  by (simp add: isDigit_def digit_value_def)

lemma digits_from_ge: "0 \<le> p \<Longrightarrow> list_all isDigit ds \<Longrightarrow> p \<le> digits_from p ds"
proof (induction ds arbitrary: p)
  case (Cons c ds)
  then have "0 \<le> p * 10 + digit_value c" "p \<le> p * 10 + digit_value c"
    using digit_value_nonneg [of c] by auto
  with Cons.IH [of "p * 10 + digit_value c"] Cons.prems show ?case by simp
qed simp

lemma parse_digits_eq:
  assumes "0 \<le> p" "p \<le> (if neg then INT32_MAX + 1 else INT32_MAX)"
  shows "parse_digits neg p ds = (if list_all isDigit ds \<and>
      digits_from p ds \<le> (if neg then INT32_MAX + 1 else INT32_MAX) then Some (digits_from p ds) else None)"
  using assms
proof (induction ds arbitrary: p)
  case (Cons c ds)
  let ?p = "p * 10 + digit_value c"
  show ?case
  proof (cases "isDigit c")
    case True
    with Cons.prems have "0 \<le> ?p" using digit_value_nonneg [of c] by simp
    then show ?thesis
      using True Cons.IH [of ?p] digits_from_ge [of ?p ds] by (cases neg) (auto simp: Let_def)
  qed simp
qed simp

text \<open>The reference reading of a decimal token.\<close>

definition token_digits :: "string \<Rightarrow> string" where
  "token_digits t = (if t \<noteq> [] \<and> hd t = CHR ''-'' then tl t else t)"

definition token_value :: "string \<Rightarrow> int" where
  "token_value t = (if t \<noteq> [] \<and> hd t = CHR ''-'' then - digits_value (token_digits t)
     else digits_value (token_digits t))"

lemma parseInteger_reference:
  "parseInteger t = (if token_digits t \<noteq> [] \<and> list_all isDigit (token_digits t) \<and>
      INT32_MIN \<le> token_value t \<and> token_value t \<le> INT32_MAX
    then Some (word_of_int (token_value t)) else None)"
proof (cases "t = []")
  case False
  have ge: "list_all isDigit ds \<Longrightarrow> 0 \<le> digits_value ds" for ds
    using digits_from_ge [of 0 ds] by (simp add: digits_from_def digits_value_def)
  have "parse_digits neg 0 ds = (if list_all isDigit ds \<and>
      digits_value ds \<le> (if neg then INT32_MAX + 1 else INT32_MAX) then Some (digits_value ds) else None)"
    for neg ds
    using parse_digits_eq [of 0 neg ds] by (simp add: digits_from_def digits_value_def INT32_MAX_def)
  with False ge [of "tl t"] ge [of t] show ?thesis
    by (auto simp: parseInteger_def token_digits_def token_value_def Let_def INT32_MAX_def INT32_MIN_def)
qed (simp add: parseInteger_def token_digits_def)

section \<open>Packed patterns\<close>

definition pack :: "bool list \<Rightarrow> int32" where
  "pack bs = foldl (\<lambda>a b. push_bit 1 a OR of_bool b) 0 bs"

lemma bit_shift_left: "bit (a * 2 :: int32) (Suc n) \<longleftrightarrow> Suc n < 32 \<and> bit a n"
  by (subst mult.commute) (simp add: bit_double_iff)

lemma bit_pack:
  assumes "i < length bs" "length bs \<le> 32"
  shows "bit (pack bs) (length bs - Suc i) = bs ! i"
  using assms
proof (induction bs arbitrary: i rule: rev_induct)
  case (snoc b bs)
  have p: "pack (bs @ [b]) = push_bit 1 (pack bs) OR of_bool b" by (simp add: pack_def)
  show ?case
  proof (cases "i = length bs")
    case True
    then show ?thesis by (simp add: p bit_simps bit_0 even_or_iff)
  next
    case False
    with snoc.prems have i: "i < length bs" by simp
    then have "length bs - i = Suc (length bs - Suc i)" by simp
    with snoc.IH [OF i] snoc.prems i show ?thesis
      by (auto simp: p bit_simps bit_shift_left nth_append)
  qed
qed simp

lemma packed_bits_pack:
  "length bs \<le> 32 \<Longrightarrow> packed_bits (length bs) (pack bs) = map (\<lambda>b. if b then CHR ''1'' else CHR ''0'') bs"
  by (auto simp: packed_bits_def bit_pack intro!: nth_equalityI)

end
