(* ===== verification/Thread_Program.thy ===== *)
theory Thread_Program
  imports Sequence_Service
begin

text \<open>
  Thread programs of \<open>src/esp/common/src/core/noob_thread_program.{h,cpp}\<close>: a periodic step with a
  result queue. The members of the class are an extensible record, so a derived class extends it.
  An object lives at a place of the world, given by a reader and an updater; the virtual methods
  \<open>onStart\<close>, \<open>onStop\<close>, \<open>statusDetail\<close> and \<open>step\<close> are functions on the world. A \<open>step\<close> or \<open>tick\<close> that
  returns true with an event is \<open>Some event\<close>.
\<close>

record ThreadProgram =
  th_intervalMs :: u32
  th_nextAt :: u32
  th_running :: bool
  th_results :: NoobRecordQueue
  th_lastPopped :: NoobRecord
  th_haveLastPopped :: bool
  th_channelBusy :: bool

type_synonym ('w, 's) reader = "'w \<Rightarrow> 's"
type_synonym ('w, 's) updater = "('s \<Rightarrow> 's) \<Rightarrow> 'w \<Rightarrow> 'w"

definition thread_call :: "('a noob_world_scheme, 't ThreadProgram_scheme) reader
    \<Rightarrow> ('a noob_world_scheme, 't ThreadProgram_scheme) updater
    \<Rightarrow> ('a noob_world_scheme \<Rightarrow> 'a noob_world_scheme) \<Rightarrow> ('a noob_world_scheme) NativeFunction" where
  "thread_call get upd onStart arguments w =
     (if length arguments > 1 \<or> (arguments \<noteq> [] \<and> sint (arguments ! 0) < 1)
      then (native_fail ''usage: [interval_ms]'', w)
      else let w = (if arguments \<noteq> [] then upd (\<lambda>t. t\<lparr>th_intervalMs := arguments ! 0\<rparr>) w else w);
               w = upd (\<lambda>t. t\<lparr>th_results := queue_clear (th_results t), th_haveLastPopped := False\<rparr>) w;
               w = onStart w;
               w = upd (\<lambda>t. t\<lparr>th_running := True, th_channelBusy := True\<rparr>) w;
               (now, w) = millis w;
               w = upd (\<lambda>t. t\<lparr>th_nextAt := now\<rparr>) w
           in (native_ok 1 (''type=thread running=1 interval_ms='' @ show_nat (unat (th_intervalMs (get w)))), w))"

definition thread_stop :: "('w, 't ThreadProgram_scheme) reader \<Rightarrow> ('w, 't ThreadProgram_scheme) updater
    \<Rightarrow> ('w \<Rightarrow> 'w) \<Rightarrow> 'w \<Rightarrow> NativeResult \<times> 'w" where
  "thread_stop get upd onStop w =
     (let w = onStop (upd (\<lambda>t. t\<lparr>th_running := False, th_channelBusy := False\<rparr>) w)
      in (native_ok 0 (''type=thread running=0 queued='' @ show_nat (queue_size (th_results (get w)))), w))"

definition thread_status :: "('w, 't ThreadProgram_scheme) reader \<Rightarrow> ('w \<Rightarrow> string \<times> 'w)
    \<Rightarrow> 'w \<Rightarrow> NativeResult \<times> 'w" where
  "thread_status get statusDetail w =
     (let t = get w; (detail, w) = statusDetail w
      in (native_ok (if th_running t then 1 else 0)
            (''type=thread running='' @ show_bool (th_running t) @
             '' interval_ms='' @ show_nat (unat (th_intervalMs t)) @
             '' channel_busy='' @ show_bool (th_channelBusy t) @
             '' queued='' @ show_nat (queue_size (th_results t)) @
             '' dropped='' @ show_nat (unat (queue_dropped (th_results t))) @ detail), w))"

definition record_value :: "NoobRecord \<Rightarrow> int32" where
  "record_value r = (case record_primary r of None \<Rightarrow> 0 | Some v \<Rightarrow> v)"

definition thread_take :: "string \<Rightarrow> NoobRecord \<Rightarrow> NoobRecordQueue \<Rightarrow> ('w, 't ThreadProgram_scheme) updater
    \<Rightarrow> 'w \<Rightarrow> NativeResult \<times> 'w" where
  "thread_take prefix r q upd w =
     ((native_ok (record_value r) (prefix @ ''remaining='' @ show_nat (queue_size q) @ '' dropped='' @
         show_nat (unat (queue_dropped q))))\<lparr>r_record := r\<rparr>,
      upd (\<lambda>t. t\<lparr>th_results := q, th_lastPopped := r, th_haveLastPopped := True\<rparr>) w)"

definition thread_pop :: "('w, 't ThreadProgram_scheme) reader \<Rightarrow> ('w, 't ThreadProgram_scheme) updater
    \<Rightarrow> 'w \<Rightarrow> NativeResult \<times> 'w" where
  "thread_pop get upd w = (case queue_pop (th_results (get w)) of
       None \<Rightarrow> (native_fail ''thread queue empty'', w)
     | Some (r, q) \<Rightarrow> thread_take [] r q upd w)"

definition thread_poll :: "('w, 't ThreadProgram_scheme) reader \<Rightarrow> ('w, 't ThreadProgram_scheme) updater
    \<Rightarrow> 'w \<Rightarrow> NativeResult \<times> 'w" where
  "thread_poll get upd w = (case queue_pop (th_results (get w)) of
       None \<Rightarrow> (native_ok 0 ''event=0 queued=0'', w)
     | Some (r, q) \<Rightarrow> thread_take ''event=1 '' r q upd w)"

definition thread_field :: "('w, 't ThreadProgram_scheme) reader \<Rightarrow> int32 list \<Rightarrow> 'w \<Rightarrow> NativeResult" where
  "thread_field get arguments w =
     (if length arguments \<noteq> 1 \<or> sint (arguments ! 0) < 0 \<or> sint (arguments ! 0) \<ge> int MAX_FIELDS
      then native_fail ''usage: field_index(0..5)''
      else if \<not> th_haveLastPopped (get w) then native_fail ''no popped thread record''
      else case record_get_index (th_lastPopped (get w)) (unat (arguments ! 0)) of
        None \<Rightarrow> native_fail ''record field absent''
      | Some (name, value) \<Rightarrow> native_ok value (''field='' @ show_i32 (arguments ! 0) @ '' name='' @ name))"

definition thread_lastPopped :: "('w, 't ThreadProgram_scheme) reader \<Rightarrow> 'w \<Rightarrow> NoobRecord option" where
  "thread_lastPopped get w = (if th_haveLastPopped (get w) then Some (th_lastPopped (get w)) else None)"

definition thread_tick :: "('a noob_world_scheme, 't ThreadProgram_scheme) reader
    \<Rightarrow> ('a noob_world_scheme, 't ThreadProgram_scheme) updater
    \<Rightarrow> ('a noob_world_scheme \<Rightarrow> string option \<times> 'a noob_world_scheme)
    \<Rightarrow> 'a noob_world_scheme \<Rightarrow> string option \<times> 'a noob_world_scheme" where
  "thread_tick get upd step w = (if \<not> th_running (get w) then (None, w)
     else let (now, w) = millis w in
       if not_due now (th_nextAt (get w)) then (None, w)
       else let (now, w) = millis w;
                w = upd (\<lambda>t. t\<lparr>th_nextAt := now + th_intervalMs t\<rparr>) w
            in step w)"

definition publish_value :: "int32 \<Rightarrow> 't ThreadProgram_scheme \<Rightarrow> 't ThreadProgram_scheme" where
  "publish_value v t = t\<lparr>th_results := queue_push_value v (th_results t)\<rparr>"

definition publish_record :: "NoobRecord \<Rightarrow> 't ThreadProgram_scheme \<Rightarrow> 't ThreadProgram_scheme" where
  "publish_record r t = t\<lparr>th_results := queue_push r (th_results t)\<rparr>"

section \<open>The functions that expose a thread\<close>

definition no_arguments :: "('w \<Rightarrow> NativeResult \<times> 'w) \<Rightarrow> 'w NoobFunction" where
  "no_arguments f = FunctionObject True False
     (Some (\<lambda>args w. if args \<noteq> [] then (native_fail ''usage: no arguments'', w) else f w)) None None"

definition ThreadFieldFunction :: "('w, 't ThreadProgram_scheme) reader \<Rightarrow> 'w NoobFunction" where
  "ThreadFieldFunction get = FunctionObject True False (Some (\<lambda>args w. (thread_field get args w, w))) None None"

definition ThreadStopFunction :: "('w, 't ThreadProgram_scheme) reader \<Rightarrow> ('w, 't ThreadProgram_scheme) updater
    \<Rightarrow> ('w \<Rightarrow> 'w) \<Rightarrow> 'w NoobFunction" where
  "ThreadStopFunction get upd onStop = no_arguments (thread_stop get upd onStop)"

definition ThreadStatusFunction :: "('w, 't ThreadProgram_scheme) reader \<Rightarrow> ('w \<Rightarrow> string \<times> 'w)
    \<Rightarrow> 'w NoobFunction" where
  "ThreadStatusFunction get statusDetail = no_arguments (thread_status get statusDetail)"

definition ThreadPopFunction :: "('w, 't ThreadProgram_scheme) reader \<Rightarrow> ('w, 't ThreadProgram_scheme) updater
    \<Rightarrow> 'w NoobFunction" where
  "ThreadPopFunction get upd = no_arguments (thread_pop get upd)"

definition ThreadPollFunction :: "('w, 't ThreadProgram_scheme) reader \<Rightarrow> ('w, 't ThreadProgram_scheme) updater
    \<Rightarrow> 'w NoobFunction" where
  "ThreadPollFunction get upd = no_arguments (thread_poll get upd)"

section \<open>The place of a thread\<close>

definition thread_wf :: "'t ThreadProgram_scheme \<Rightarrow> bool" where
  "thread_wf t \<longleftrightarrow> queue_wf (th_results t) \<and> th_channelBusy t = th_running t"

definition new_thread :: "u32 \<Rightarrow> ThreadProgram" where
  "new_thread interval = \<lparr>th_intervalMs = interval, th_nextAt = 0, th_running = False,
     th_results = empty_queue, th_lastPopped = empty_record, th_haveLastPopped = False,
     th_channelBusy = False\<rparr>"

text \<open>The laws of a place: reading back what was written, and independence of the clock.\<close>

locale thread_place =
  fixes get :: "('a noob_world_scheme, 't ThreadProgram_scheme) reader"
    and upd :: "('a noob_world_scheme, 't ThreadProgram_scheme) updater"
  assumes get_upd: "get (upd f w) = f (get w)"
    and upd_upd: "upd f (upd g w) = upd (\<lambda>t. f (g t)) w"
    and get_clock: "get (w\<lparr>clock_reads := n\<rparr>) = get w"
    and upd_clock: "clock (upd f w) = clock w" "clock_reads (upd f w) = clock_reads w"
begin

lemma tick_stopped: "\<not> th_running (get w) \<Longrightarrow> thread_tick get upd step w = (None, w)"
  by (simp add: thread_tick_def)

lemma tick_early:
  "th_running (get w) \<Longrightarrow> not_due (clock w (clock_reads w)) (th_nextAt (get w)) \<Longrightarrow>
     thread_tick get upd step w = (None, w\<lparr>clock_reads := Suc (clock_reads w)\<rparr>)"
  by (simp add: thread_tick_def millis_def get_clock)

lemma tick_due:
  assumes "th_running (get w)" "\<not> not_due (clock w (clock_reads w)) (th_nextAt (get w))"
  shows "thread_tick get upd step w = step (upd (\<lambda>t. t\<lparr>th_nextAt :=
      clock w (Suc (clock_reads w)) + th_intervalMs t\<rparr>) (w\<lparr>clock_reads := Suc (Suc (clock_reads w))\<rparr>))"
  using assms by (simp add: thread_tick_def millis_def get_clock)

text \<open>A queued record is returned by \<open>pop\<close> and \<open>poll\<close>, and its fields can then be read one by one.\<close>

lemma take_field:
  assumes "queue_wf (th_results (get w))" "queue_contents (th_results (get w)) = r # rs"
    and "f \<in> {thread_pop get upd, thread_poll get upd}"
  shows "r_ok (fst (f w)) \<and> r_value (fst (f w)) = record_value r \<and> r_record (fst (f w)) = r \<and>
    queue_contents (th_results (get (snd (f w)))) = rs \<and> thread_lastPopped get (snd (f w)) = Some r"
proof -
  obtain q where "queue_pop (th_results (get w)) = Some (r, q)" "queue_contents q = rs"
    using ring.pop_cons [OF assms(1,2)] by blast
  with assms(3) show ?thesis
    by (auto simp: thread_pop_def thread_poll_def thread_take_def get_upd thread_lastPopped_def)
qed

end

end
