(* ===== verification/Sensor_Threads.thy ===== *)
theory Sensor_Threads
  imports Thread_Program
begin

text \<open>
  The three thread programs that sample a native function:
  \<open>src/esp/common/src/core/noob_change_thread.{h,cpp}\<close> (events on a changing value),
  \<open>noob_sampling_thread.{h,cpp}\<close> (a stream of records for a limited time) and
  \<open>noob_window_rise_thread.{h,cpp}\<close> (a sustained rise between two halves of a window).
  Each extends the thread record; \<open>*_bound\<close> says that \<open>begin\<close> has stored the registry pointer.
  The part of a step that only concerns the object's own numbers is a function on the record.
\<close>

unbundle bit_operations_syntax

section \<open>Change threads\<close>

record ChangeThread = ThreadProgram +
  ct_bound :: bool
  ct_source :: NoobProgramChannel
  ct_sourceFunctionId :: u16
  ct_eventName :: string
  ct_changeThreshold :: int32
  ct_rearmSamples :: u8
  ct_pauseMask :: u8
  ct_previous :: int32
  ct_havePrevious :: bool
  ct_armed :: bool
  ct_stableSamples :: u8

abbreviation ct_channel :: "('w \<Rightarrow> 't ChangeThread_scheme) \<Rightarrow> 'w \<Rightarrow> NoobProgramChannel" where
  "ct_channel get w \<equiv> ct_source (get w)"

abbreviation upd_ct_channel :: "(('t ChangeThread_scheme \<Rightarrow> 't ChangeThread_scheme) \<Rightarrow> 'w \<Rightarrow> 'w)
    \<Rightarrow> (NoobProgramChannel \<Rightarrow> NoobProgramChannel) \<Rightarrow> 'w \<Rightarrow> 'w" where
  "upd_ct_channel upd f \<equiv> upd (\<lambda>t. t\<lparr>ct_source := f (ct_source t)\<rparr>)"

definition reconfigure :: "u16 \<Rightarrow> int32 list \<Rightarrow> string \<Rightarrow> NoobProgramChannel \<Rightarrow> NoobProgramChannel" where
  "reconfigure functionId arguments ascii c = snd (channel_configure functionId arguments ascii c)"

definition change_begin :: "'t ChangeThread_scheme \<Rightarrow> 't ChangeThread_scheme" where
  "change_begin t = t\<lparr>ct_bound := True, ct_source := reconfigure (ct_sourceFunctionId t) [] [] (ct_source t)\<rparr>"

definition change_onStart :: "'t ChangeThread_scheme \<Rightarrow> 't ChangeThread_scheme" where
  "change_onStart t = t\<lparr>ct_havePrevious := False, ct_armed := True, ct_stableSamples := 0,
     ct_source := reconfigure (ct_sourceFunctionId t) [] [] (ct_source t)\<rparr>"

definition append_detail :: "string \<Rightarrow> NativeResult \<Rightarrow> NativeResult" where
  "append_detail d r = r\<lparr>r_detail := r_detail r @ d\<rparr>"

definition change_call :: "('a noob_world_scheme, 't ChangeThread_scheme) reader
    \<Rightarrow> ('a noob_world_scheme, 't ChangeThread_scheme) updater \<Rightarrow> ('a noob_world_scheme) NativeFunction" where
  "change_call get upd arguments w =
     (if length arguments > 2 \<or> (arguments \<noteq> [] \<and> sint (arguments ! 0) < 1) \<or>
         (length arguments > 1 \<and> sint (arguments ! 1) < 50)
      then (native_fail ''usage: [change_delta] [interval_ms>=50]'', w)
      else let w = (if arguments \<noteq> [] then upd (\<lambda>t. t\<lparr>ct_changeThreshold := arguments ! 0\<rparr>) w else w);
               w = (if length arguments > 1 then upd (\<lambda>t. t\<lparr>th_intervalMs := arguments ! 1\<rparr>) w else w);
               (result, w) = thread_call get upd (upd change_onStart) [] w
           in (append_detail ('' change_delta='' @ show_i32 (ct_changeThreshold (get w))) result, w))"

text \<open>One sample: the new state, and whether it is reported.\<close>

definition change_delta :: "int32 \<Rightarrow> int32 \<Rightarrow> int32" where
  "change_delta current previous = (if sint current > sint previous then current - previous
     else previous - current)"

definition rearm_margin :: "int32 \<Rightarrow> int" where
  "rearm_margin threshold = (if trunc_div (sint threshold) 4 > 5 then trunc_div (sint threshold) 4 else 5)"

definition change_sample :: "int32 \<Rightarrow> 't ChangeThread_scheme \<Rightarrow> bool \<times> 't ChangeThread_scheme" where
  "change_sample current t =
     (if \<not> ct_havePrevious t then (False, t\<lparr>ct_previous := current, ct_havePrevious := True\<rparr>)
      else let delta = change_delta current (ct_previous t); t = t\<lparr>ct_previous := current\<rparr> in
        if \<not> ct_armed t then
          (let stable = (if sint delta \<le> rearm_margin (ct_changeThreshold t)
                         then ct_stableSamples t + 1 else 0)
           in if stable \<ge> ct_rearmSamples t then (False, t\<lparr>ct_armed := True, ct_stableSamples := 0\<rparr>)
              else (False, t\<lparr>ct_stableSamples := stable\<rparr>))
        else if sint delta < sint (ct_changeThreshold t) then (False, t)
        else (True, t\<lparr>ct_armed := False, ct_stableSamples := 0\<rparr>))"

definition change_step :: "('a seq_world_scheme) NativeRegistry
    \<Rightarrow> ('a seq_world_scheme, 't ChangeThread_scheme) reader
    \<Rightarrow> ('a seq_world_scheme, 't ChangeThread_scheme) updater
    \<Rightarrow> 'a seq_world_scheme \<Rightarrow> string option \<times> 'a seq_world_scheme" where
  "change_step reg get upd w =
     (if \<not> ct_bound (get w) then (None, w)
      else if busyMask (seq w) AND ct_pauseMask (get w) \<noteq> 0
      then (None, upd (\<lambda>t. t\<lparr>ct_havePrevious := False\<rparr>) w)
      else let w = channel_invoke (ct_channel get) (upd_ct_channel upd) reg 0 False w in
        if \<not> ch_lastOk (ct_channel get w)
        then (Some (''NRP/1 0 EVENT '' @ ct_eventName (get w) @ ''_ERROR detail='' @
                ch_lastDetail (ct_channel get w)), w)
        else case queue_pop (ch_results (ct_channel get w)) of
          None \<Rightarrow> (None, w)
        | Some (sampled, q) \<Rightarrow>
            (let w = upd_ct_channel upd (\<lambda>c. c\<lparr>ch_results := q\<rparr>) w in
             case record_primary sampled of None \<Rightarrow> (None, w)
             | Some current \<Rightarrow>
                 (let (detected, _) = change_sample current (get w);
                      w = upd (\<lambda>t. snd (change_sample current t)) w
                  in if \<not> detected then (None, w)
                     else let (detectedAt, w) = milliseconds w;
                              w = upd (publish_value detectedAt) w
                          in (Some (''NRP/1 0 EVENT '' @ ct_eventName (get w) @ '' time_ms='' @
                                show_nat (unat detectedAt)), w))))"

definition ChangeThreadFunction :: "('a noob_world_scheme, 't ChangeThread_scheme) reader
    \<Rightarrow> ('a noob_world_scheme, 't ChangeThread_scheme) updater \<Rightarrow> ('a noob_world_scheme) NoobFunction" where
  "ChangeThreadFunction get upd = FunctionObject True False (Some (change_call get upd)) None None"

definition new_change_thread :: "u16 \<Rightarrow> string \<Rightarrow> u32 \<Rightarrow> int32 \<Rightarrow> u8 \<Rightarrow> u8 \<Rightarrow> ChangeThread" where
  "new_change_thread source eventName intervalMs changeThreshold rearmSamples pauseMask =
     ThreadProgram.extend (new_thread intervalMs) (ChangeThread.fields False empty_channel source eventName
       changeThreshold rearmSamples pauseMask 0 False True 0)"

section \<open>Sampling threads\<close>

record SamplingThread = ThreadProgram +
  sp_bound :: bool
  sp_source :: NoobProgramChannel
  sp_sourceFunctionId :: u16
  sp_eventName :: string
  sp_durationMs :: u32
  sp_startedAt :: u32
  sp_sourceArguments :: "int32 list"
  sp_sourceAscii :: string

definition MAX_SOURCE_ARGUMENTS :: nat where "MAX_SOURCE_ARGUMENTS = 4"

definition new_sampling_thread :: "u16 \<Rightarrow> string \<Rightarrow> u32 \<Rightarrow> u32 \<Rightarrow> int32 list \<Rightarrow> string option \<Rightarrow> SamplingThread" where
  "new_sampling_thread source eventName intervalMs durationMs arguments ascii =
     ThreadProgram.extend (new_thread intervalMs) (SamplingThread.fields False empty_channel source eventName
       durationMs 0 (if length arguments > MAX_SOURCE_ARGUMENTS then [] else arguments)
       (case ascii of None \<Rightarrow> [] | Some a \<Rightarrow> a))"

abbreviation sp_channel :: "('w \<Rightarrow> 't SamplingThread_scheme) \<Rightarrow> 'w \<Rightarrow> NoobProgramChannel" where
  "sp_channel get w \<equiv> sp_source (get w)"

abbreviation upd_sp_channel :: "(('t SamplingThread_scheme \<Rightarrow> 't SamplingThread_scheme) \<Rightarrow> 'w \<Rightarrow> 'w)
    \<Rightarrow> (NoobProgramChannel \<Rightarrow> NoobProgramChannel) \<Rightarrow> 'w \<Rightarrow> 'w" where
  "upd_sp_channel upd f \<equiv> upd (\<lambda>t. t\<lparr>sp_source := f (sp_source t)\<rparr>)"

definition sampling_begin :: "'t SamplingThread_scheme \<Rightarrow> 't SamplingThread_scheme" where
  "sampling_begin t = t\<lparr>sp_bound := True, sp_source := reconfigure (sp_sourceFunctionId t)
     (sp_sourceArguments t) (sp_sourceAscii t) (sp_source t)\<rparr>"

definition sampling_onStart :: "('a noob_world_scheme, 't SamplingThread_scheme) updater
    \<Rightarrow> 'a noob_world_scheme \<Rightarrow> 'a noob_world_scheme" where
  "sampling_onStart upd w = (let (now, w) = millis w in
     upd (\<lambda>t. t\<lparr>sp_startedAt := now, sp_source := reconfigure (sp_sourceFunctionId t)
       (sp_sourceArguments t) (sp_sourceAscii t) (sp_source t)\<rparr>) w)"

definition sampling_bad_arguments :: "int32 list \<Rightarrow> bool" where
  "sampling_bad_arguments arguments \<longleftrightarrow> length arguments > 2 \<or>
     (arguments \<noteq> [] \<and> (sint (arguments ! 0) < 0 \<or> sint (arguments ! 0) > 3600000)) \<or>
     (length arguments > 1 \<and> (sint (arguments ! 1) < 50 \<or> sint (arguments ! 1) > 60000))"

definition sampling_call :: "('a noob_world_scheme, 't SamplingThread_scheme) reader
    \<Rightarrow> ('a noob_world_scheme, 't SamplingThread_scheme) updater \<Rightarrow> ('a noob_world_scheme) NativeFunction" where
  "sampling_call get upd arguments w =
     (if sampling_bad_arguments arguments
      then (native_fail ''usage: [duration_ms(0..3600000)] [interval_ms(50..60000)]'', w)
      else let w = (if arguments \<noteq> [] then upd (\<lambda>t. t\<lparr>sp_durationMs := arguments ! 0\<rparr>) w else w);
               w = (if length arguments > 1 then upd (\<lambda>t. t\<lparr>th_intervalMs := arguments ! 1\<rparr>) w else w);
               (result, w) = thread_call get upd (sampling_onStart upd) [] w
           in (append_detail ('' duration_ms='' @ show_nat (unat (sp_durationMs (get w)))) result, w))"

definition sampling_callMixed :: "('a noob_world_scheme, 't SamplingThread_scheme) reader
    \<Rightarrow> ('a noob_world_scheme, 't SamplingThread_scheme) updater \<Rightarrow> ('a noob_world_scheme) NativeMixedFunction" where
  "sampling_callMixed get upd arguments ascii w =
     (if sampling_bad_arguments arguments then (native_fail ''invalid thread duration/interval'', w)
      else let t = get w;
               (ok, c) = channel_configure (sp_sourceFunctionId t) (sp_sourceArguments t) ascii (sp_source t)
           in if \<not> ok then (native_fail ''invalid source ASCII'', w)
              else sampling_call get upd arguments (upd (\<lambda>t. t\<lparr>sp_source := c, sp_sourceAscii := ascii\<rparr>) w))"

definition sampling_step :: "('a noob_world_scheme) NativeRegistry
    \<Rightarrow> ('a noob_world_scheme, 't SamplingThread_scheme) reader
    \<Rightarrow> ('a noob_world_scheme, 't SamplingThread_scheme) updater
    \<Rightarrow> 'a noob_world_scheme \<Rightarrow> string option \<times> 'a noob_world_scheme" where
  "sampling_step reg get upd w =
     (if \<not> sp_bound (get w) then (None, w)
      else let (elapsed, w) = (if sp_durationMs (get w) = 0 then (0, w)
                 else let (now, w) = millis w in (now - sp_startedAt (get w), w)) in
        if sp_durationMs (get w) \<noteq> 0 \<and> elapsed \<ge> sp_durationMs (get w)
        then let (_, w) = thread_stop get upd (\<lambda>w. w) w
             in (Some (''NRP/1 0 EVENT '' @ sp_eventName (get w) @ ''_COMPLETE''), w)
        else let w = channel_invoke (sp_channel get) (upd_sp_channel upd) reg 0 False w in
          if \<not> ch_lastOk (sp_channel get w)
          then (Some (''NRP/1 0 EVENT '' @ sp_eventName (get w) @ ''_ERROR detail='' @
                  ch_lastDetail (sp_channel get w)), w)
          else case queue_pop (ch_results (sp_channel get w)) of
            None \<Rightarrow> (None, w)
          | Some (r, q) \<Rightarrow>
              (None, upd (publish_record r) (upd_sp_channel upd (\<lambda>c. c\<lparr>ch_results := q\<rparr>) w)))"

definition sampling_statusDetail :: "('a noob_world_scheme, 't SamplingThread_scheme) reader
    \<Rightarrow> 'a noob_world_scheme \<Rightarrow> string \<times> 'a noob_world_scheme" where
  "sampling_statusDetail get w =
     (let (now, w) = millis w; t = get w; elapsed = now - sp_startedAt t;
          remaining = (if sp_durationMs t = 0 \<or> elapsed \<ge> sp_durationMs t then 0
                       else sp_durationMs t - elapsed)
      in ('' duration_ms='' @ show_nat (unat (sp_durationMs t)) @ '' remaining_ms='' @
            show_nat (unat remaining), w))"

definition SamplingThreadFunction :: "('a noob_world_scheme, 't SamplingThread_scheme) reader
    \<Rightarrow> ('a noob_world_scheme, 't SamplingThread_scheme) updater \<Rightarrow> ('a noob_world_scheme) NoobFunction" where
  "SamplingThreadFunction get upd = FunctionObject True True (Some (sampling_call get upd))
     (Some (\<lambda>ascii. sampling_callMixed get upd [] ascii)) (Some (sampling_callMixed get upd))"

section \<open>Window-rise threads\<close>

definition BUCKET_COUNT :: nat where "BUCKET_COUNT = 10"
definition HALF_BUCKETS :: nat where "HALF_BUCKETS = BUCKET_COUNT div 2"

record WindowRiseThread = ThreadProgram +
  wr_bound :: bool
  wr_source :: NoobProgramChannel
  wr_sourceFunctionId :: u16
  wr_eventName :: string
  wr_bucketDurationMs :: u32
  wr_riseRatioPercent :: u16
  wr_minimumNewLevel :: int32
  wr_rearmBuckets :: u8
  wr_buckets :: "int32 list"
  wr_writeIndex :: nat
  wr_filledBuckets :: nat
  wr_bucketSum :: "64 word"
  wr_bucketSamples :: u16
  wr_bucketStartedAt :: u32
  wr_olderMean :: int32
  wr_newerMean :: int32
  wr_armed :: bool
  wr_stableBuckets :: u8

abbreviation wr_channel :: "('w \<Rightarrow> 't WindowRiseThread_scheme) \<Rightarrow> 'w \<Rightarrow> NoobProgramChannel" where
  "wr_channel get w \<equiv> wr_source (get w)"

abbreviation upd_wr_channel :: "(('t WindowRiseThread_scheme \<Rightarrow> 't WindowRiseThread_scheme) \<Rightarrow> 'w \<Rightarrow> 'w)
    \<Rightarrow> (NoobProgramChannel \<Rightarrow> NoobProgramChannel) \<Rightarrow> 'w \<Rightarrow> 'w" where
  "upd_wr_channel upd f \<equiv> upd (\<lambda>t. t\<lparr>wr_source := f (wr_source t)\<rparr>)"

definition new_window_rise_thread :: "u16 \<Rightarrow> string \<Rightarrow> u32 \<Rightarrow> u32 \<Rightarrow> u16 \<Rightarrow> int32 \<Rightarrow> u8 \<Rightarrow> WindowRiseThread" where
  "new_window_rise_thread source eventName sampleIntervalMs bucketDurationMs ratio minimum rearm =
     ThreadProgram.extend (new_thread sampleIntervalMs) (WindowRiseThread.fields False empty_channel source
       eventName bucketDurationMs ratio minimum rearm (replicate BUCKET_COUNT 0) 0 0 0 0 0 0 0 True 0)"

definition window_begin :: "'t WindowRiseThread_scheme \<Rightarrow> 't WindowRiseThread_scheme" where
  "window_begin t = t\<lparr>wr_bound := True, wr_source := reconfigure (wr_sourceFunctionId t) [] [] (wr_source t)\<rparr>"

definition window_onStart :: "('a noob_world_scheme, 't WindowRiseThread_scheme) updater
    \<Rightarrow> 'a noob_world_scheme \<Rightarrow> 'a noob_world_scheme" where
  "window_onStart upd w = (let (now, w) = millis w in
     upd (\<lambda>t. t\<lparr>wr_buckets := replicate BUCKET_COUNT 0, wr_writeIndex := 0, wr_filledBuckets := 0,
       wr_bucketSum := 0, wr_bucketSamples := 0, wr_bucketStartedAt := now, wr_olderMean := 0,
       wr_newerMean := 0, wr_armed := True, wr_stableBuckets := 0,
       wr_source := reconfigure (wr_sourceFunctionId t) [] [] (wr_source t)\<rparr>) w)"

definition window_call :: "('a noob_world_scheme, 't WindowRiseThread_scheme) reader
    \<Rightarrow> ('a noob_world_scheme, 't WindowRiseThread_scheme) updater \<Rightarrow> ('a noob_world_scheme) NativeFunction" where
  "window_call get upd arguments w =
     (if length arguments > 2 \<or> (arguments \<noteq> [] \<and> (sint (arguments ! 0) < 101 \<or> sint (arguments ! 0) > 10000)) \<or>
         (length arguments > 1 \<and> sint (arguments ! 1) < 0)
      then (native_fail ''usage: [ratio_percent(101..10000)] [minimum_level>=0]'', w)
      else let w = (if arguments \<noteq> [] then upd (\<lambda>t. t\<lparr>wr_riseRatioPercent := ucast (arguments ! 0)\<rparr>) w else w);
               w = (if length arguments > 1 then upd (\<lambda>t. t\<lparr>wr_minimumNewLevel := arguments ! 1\<rparr>) w else w);
               (result, w) = thread_call get upd (window_onStart upd) [] w;
               t = get w
           in (append_detail ('' ratio_percent='' @ show_nat (unat (wr_riseRatioPercent t)) @
                 '' minimum_level='' @ show_i32 (wr_minimumNewLevel t)) result, w))"

definition half_sum :: "int32 list \<Rightarrow> nat \<Rightarrow> int32" where
  "half_sum buckets start = sum_list (map (\<lambda>offset. buckets ! ((start + offset) mod BUCKET_COUNT)) [0..<HALF_BUCKETS])"

definition half_mean :: "int32 \<Rightarrow> int32" where
  "half_mean s = word_of_int (trunc_div (sint (s + of_nat (HALF_BUCKETS div 2))) (int HALF_BUCKETS))"

definition updateMeans :: "'t WindowRiseThread_scheme \<Rightarrow> 't WindowRiseThread_scheme" where
  "updateMeans t = (if wr_filledBuckets t < BUCKET_COUNT then t\<lparr>wr_olderMean := 0, wr_newerMean := 0\<rparr>
     else t\<lparr>wr_olderMean := half_mean (half_sum (wr_buckets t) (wr_writeIndex t)),
            wr_newerMean := half_mean (half_sum (wr_buckets t) (wr_writeIndex t + HALF_BUCKETS))\<rparr>)"

definition finishBucket :: "int32 \<Rightarrow> 't WindowRiseThread_scheme \<Rightarrow> 't WindowRiseThread_scheme" where
  "finishBucket average t = updateMeans (t\<lparr>wr_buckets := (wr_buckets t)[wr_writeIndex t := average],
     wr_writeIndex := (wr_writeIndex t + 1) mod BUCKET_COUNT,
     wr_filledBuckets := (if wr_filledBuckets t < BUCKET_COUNT then wr_filledBuckets t + 1
                          else wr_filledBuckets t)\<rparr>)"

definition bucket_average :: "64 word \<Rightarrow> u16 \<Rightarrow> int32" where
  "bucket_average bsum samples = (if samples = 0 then 0
     else word_of_int (trunc_div (sint (bsum + of_nat (unat samples div 2))) (int (unat samples))))"

definition window_rose :: "'t WindowRiseThread_scheme \<Rightarrow> bool" where
  "window_rose t \<longleftrightarrow> sint (wr_newerMean t) \<ge> sint (wr_minimumNewLevel t) \<and>
     sint (wr_newerMean t) * 100 \<ge> sint (wr_olderMean t) * int (unat (wr_riseRatioPercent t))"

text \<open>The decision after a finished bucket.\<close>

definition window_decide :: "'t WindowRiseThread_scheme \<Rightarrow> bool \<times> 't WindowRiseThread_scheme" where
  "window_decide t =
     (if wr_filledBuckets t < BUCKET_COUNT then (False, t)
      else if \<not> wr_armed t then
        (let stable = (if window_rose t then 0 else wr_stableBuckets t + 1)
         in if stable \<ge> wr_rearmBuckets t then (False, t\<lparr>wr_armed := True, wr_stableBuckets := 0\<rparr>)
            else (False, t\<lparr>wr_stableBuckets := stable\<rparr>))
      else if \<not> window_rose t then (False, t)
      else (True, t\<lparr>wr_armed := False, wr_stableBuckets := 0\<rparr>))"

definition window_bucket :: "u32 \<Rightarrow> 't WindowRiseThread_scheme \<Rightarrow> bool \<times> 't WindowRiseThread_scheme" where
  "window_bucket now t = window_decide (finishBucket (bucket_average (wr_bucketSum t) (wr_bucketSamples t))
     (t\<lparr>wr_bucketSum := 0, wr_bucketSamples := 0, wr_bucketStartedAt := now\<rparr>))"

definition wr_account :: "int32 \<Rightarrow> 't WindowRiseThread_scheme \<Rightarrow> 't WindowRiseThread_scheme" where
  "wr_account level t = t\<lparr>wr_bucketSum := wr_bucketSum t + scast level, wr_bucketSamples := wr_bucketSamples t + 1\<rparr>"

definition window_step :: "('a seq_world_scheme) NativeRegistry
    \<Rightarrow> ('a seq_world_scheme, 't WindowRiseThread_scheme) reader
    \<Rightarrow> ('a seq_world_scheme, 't WindowRiseThread_scheme) updater
    \<Rightarrow> 'a seq_world_scheme \<Rightarrow> string option \<times> 'a seq_world_scheme" where
  "window_step reg get upd w =
     (if \<not> wr_bound (get w) then (None, w)
      else let w = channel_invoke (wr_channel get) (upd_wr_channel upd) reg 0 False w in
        if \<not> ch_lastOk (wr_channel get w)
        then (Some (''NRP/1 0 EVENT '' @ wr_eventName (get w) @ ''_ERROR detail='' @
                ch_lastDetail (wr_channel get w)), w)
        else case queue_pop (ch_results (wr_channel get w)) of
          None \<Rightarrow> (None, w)
        | Some (sampled, q) \<Rightarrow>
            (let w = upd_wr_channel upd (\<lambda>c. c\<lparr>ch_results := q\<rparr>) w in
             case record_primary sampled of None \<Rightarrow> (None, w)
             | Some level \<Rightarrow>
                 (let (now, w) = millis (upd (wr_account level) w)
                  in if now - wr_bucketStartedAt (get w) < wr_bucketDurationMs (get w) then (None, w)
                     else let (rose, _) = window_bucket now (get w);
                              w = upd (\<lambda>t. snd (window_bucket now t)) w
                          in if \<not> rose then (None, w)
                             else let (detectedAt, w) = milliseconds w;
                                      w = upd (publish_value detectedAt) w; t = get w
                                  in (Some (''NRP/1 0 EVENT '' @ wr_eventName t @ '' time_ms='' @
                                        show_nat (unat detectedAt) @ '' older='' @ show_i32 (wr_olderMean t) @
                                        '' newer='' @ show_i32 (wr_newerMean t)), w))))"

definition window_statusDetail :: "'t WindowRiseThread_scheme \<Rightarrow> string" where
  "window_statusDetail t = '' buckets='' @ show_nat (wr_filledBuckets t) @ ''/'' @ show_nat BUCKET_COUNT @
     '' older='' @ show_i32 (wr_olderMean t) @ '' newer='' @ show_i32 (wr_newerMean t) @
     '' ratio_percent='' @ show_nat (unat (wr_riseRatioPercent t)) @
     '' minimum_level='' @ show_i32 (wr_minimumNewLevel t) @ '' armed='' @ show_bool (wr_armed t)"

definition WindowRiseThreadFunction :: "('a noob_world_scheme, 't WindowRiseThread_scheme) reader
    \<Rightarrow> ('a noob_world_scheme, 't WindowRiseThread_scheme) updater \<Rightarrow> ('a noob_world_scheme) NoobFunction" where
  "WindowRiseThreadFunction get upd = FunctionObject True False (Some (window_call get upd)) None None"

section \<open>Change threads report a change once\<close>

text \<open>
  What a step feeds to the detector: nothing but a lost baseline while the thread is paused, and a
  sample otherwise. \<open>change_run\<close> says which inputs of a sequence are reported.
\<close>

fun change_feed :: "int32 option \<Rightarrow> 't ChangeThread_scheme \<Rightarrow> bool \<times> 't ChangeThread_scheme" where
  "change_feed None t = (False, t\<lparr>ct_havePrevious := False\<rparr>)"
| "change_feed (Some current) t = change_sample current t"

primrec change_run :: "int32 option list \<Rightarrow> 't ChangeThread_scheme \<Rightarrow> bool list" where
  "change_run [] t = []"
| "change_run (x # xs) t = fst (change_feed x t) # change_run xs (snd (change_feed x t))"

lemma length_change_run [simp]: "length (change_run xs t) = length xs"
  by (induction xs arbitrary: t) simp_all

lemma change_feed_rearm [simp]: "ct_rearmSamples (snd (change_feed x t)) = ct_rearmSamples t"
  by (cases x) (simp_all add: change_sample_def Let_def)

lemma change_feed_detects:
  "fst (change_feed x t) \<Longrightarrow> ct_armed t \<and> \<not> ct_armed (snd (change_feed x t)) \<and>
     ct_stableSamples (snd (change_feed x t)) = 0"
  by (cases x) (auto simp: change_sample_def Let_def split: if_splits)

lemma unat_Suc_le: "unat (x + 1 :: 'a::len word) \<le> unat x + 1"
  by (simp add: unat_word_ariths(1))

lemma change_feed_unarmed:
  assumes "\<not> ct_armed t"
  shows "if ct_armed (snd (change_feed x t)) then unat (ct_rearmSamples t) \<le> unat (ct_stableSamples t) + 1
    else unat (ct_stableSamples (snd (change_feed x t))) \<le> unat (ct_stableSamples t) + 1"
proof (cases x)
  case (Some c)
  have le: "unat r \<le> unat s" if "r \<le> s" for r s :: u8
    using that by (simp add: word_le_nat_alt)
  from assms Some show ?thesis
    using unat_Suc_le [of "ct_stableSamples t"]
    by (auto simp: change_sample_def Let_def dest!: le)
qed (use assms in simp)

lemma change_run_unarmed:
  "\<not> ct_armed t \<Longrightarrow> n < length xs \<Longrightarrow> change_run xs t ! n \<Longrightarrow>
     0 < n \<and> unat (ct_rearmSamples t) \<le> unat (ct_stableSamples t) + n"
proof (induction xs arbitrary: t n)
  case (Cons x xs)
  let ?t = "snd (change_feed x t)"
  obtain m where n: "n = Suc m"
    using Cons.prems change_feed_detects [of x t] by (cases n) auto
  show ?case
  proof (cases "ct_armed ?t")
    case True
    with change_feed_unarmed [OF Cons.prems(1), of x] n show ?thesis by simp
  next
    case False
    with Cons.IH [OF False, of m] Cons.prems n have "unat (ct_rearmSamples t) \<le> unat (ct_stableSamples ?t) + m"
      by simp
    with False change_feed_unarmed [OF Cons.prems(1), of x] n show ?thesis by simp
  qed
qed simp

lemma change_run_gap:
  "change_run xs t ! i \<Longrightarrow> change_run xs t ! j \<Longrightarrow> i < j \<Longrightarrow> j < length xs \<Longrightarrow>
     1 < j - i \<and> unat (ct_rearmSamples t) < j - i"
proof (induction xs arbitrary: t i j)
  case (Cons x xs)
  let ?t = "snd (change_feed x t)"
  obtain m where j: "j = Suc m" using Cons.prems by (cases j) auto
  show ?case
  proof (cases i)
    case 0
    with Cons.prems change_feed_detects [of x t] have "\<not> ct_armed ?t" "ct_stableSamples ?t = 0" by auto
    with change_run_unarmed [of ?t m xs] Cons.prems j 0 show ?thesis by simp
  next
    case (Suc k)
    with Cons.IH [of ?t k m] Cons.prems j show ?thesis by simp
  qed
qed simp

text \<open>A sample is reported exactly when it lies far enough from an existing baseline.\<close>

lemma sint_minus_small:
  fixes a b :: int32
  assumes "\<bar>sint a - sint b\<bar> < 2 ^ 31"
  shows "sint (a - b) = sint a - sint b"
  using assms by (simp add: sint_word_ariths(2) signed_take_bit_int_eq_self abs_less_iff)

lemma change_delta_abs:
  "\<bar>sint current - sint previous\<bar> < 2 ^ 31 \<Longrightarrow> sint (change_delta current previous) = \<bar>sint current - sint previous\<bar>"
  by (auto simp: change_delta_def sint_minus_small abs_minus_commute)

lemma change_sample_detects:
  assumes "\<bar>sint current - sint (ct_previous t)\<bar> < 2 ^ 31"
  shows "fst (change_sample current t) \<longleftrightarrow> ct_havePrevious t \<and> ct_armed t \<and>
    sint (ct_changeThreshold t) \<le> \<bar>sint current - sint (ct_previous t)\<bar>"
  using assms by (auto simp: change_sample_def Let_def change_delta_abs not_less)

section \<open>A window-rise thread compares the two halves of the last ten buckets\<close>

definition window_fill :: "int32 list \<Rightarrow> 't WindowRiseThread_scheme \<Rightarrow> 't WindowRiseThread_scheme" where
  "window_fill averages t = foldl (\<lambda>t a. finishBucket a t) t averages"

definition window_fresh :: "'t WindowRiseThread_scheme \<Rightarrow> bool" where
  "window_fresh t \<longleftrightarrow> wr_buckets t = replicate BUCKET_COUNT 0 \<and> wr_writeIndex t = 0 \<and> wr_filledBuckets t = 0"

text \<open>The ring holds, at its index modulo ten, every one of the last ten averages.\<close>

definition window_holds :: "int32 list \<Rightarrow> 't WindowRiseThread_scheme \<Rightarrow> bool" where
  "window_holds averages t \<longleftrightarrow> length (wr_buckets t) = BUCKET_COUNT \<and>
     wr_writeIndex t = length averages mod BUCKET_COUNT \<and>
     wr_filledBuckets t = min (length averages) BUCKET_COUNT \<and>
     (\<forall>i < length averages. length averages \<le> i + BUCKET_COUNT \<longrightarrow>
        wr_buckets t ! (i mod BUCKET_COUNT) = averages ! i)"

lemma updateMeans_holds [simp]: "window_holds as (updateMeans t) = window_holds as t"
  by (simp add: window_holds_def updateMeans_def)

lemma mod_window_neq:
  "i < n \<Longrightarrow> n < i + BUCKET_COUNT \<Longrightarrow> n mod BUCKET_COUNT \<noteq> i mod BUCKET_COUNT"
  by (simp add: BUCKET_COUNT_def mod_eq_dvd_iff_nat) (metis add_diff_inverse_nat dvd_imp_le
      less_diff_conv2 less_or_eq_imp_le linorder_not_less mod_eq_dvd_iff_nat zero_less_diff add.commute)

lemma finishBucket_holds:
  assumes "window_holds as t"
  shows "window_holds (as @ [a]) (finishBucket a t)"
proof -
  let ?n = "length as"
  have bucket: "(wr_buckets t)[?n mod BUCKET_COUNT := a] ! (i mod BUCKET_COUNT) = (as @ [a]) ! i"
    if "i < Suc ?n" "Suc ?n \<le> i + BUCKET_COUNT" for i
  proof (cases "i = ?n")
    case True
    with assms show ?thesis by (simp add: window_holds_def BUCKET_COUNT_def)
  next
    case False
    with that assms mod_window_neq [of i ?n] show ?thesis
      by (simp add: window_holds_def nth_append)
  qed
  with assms show ?thesis
    unfolding finishBucket_def updateMeans_holds
    by (simp add: window_holds_def mod_Suc_eq min_def BUCKET_COUNT_def [symmetric])
qed

lemma window_fill_holds: "window_fresh t \<Longrightarrow> window_holds as (window_fill as t)"
proof (induction as rule: rev_induct)
  case Nil
  then show ?case by (simp add: window_fill_def window_fresh_def window_holds_def)
next
  case (snoc a as)
  then show ?case by (simp add: window_fill_def finishBucket_holds)
qed

lemma half_sum_holds:
  assumes "window_holds as t" "BUCKET_COUNT \<le> length as" "k + HALF_BUCKETS \<le> BUCKET_COUNT"
  shows "half_sum (wr_buckets t) (wr_writeIndex t + k) =
    sum_list (take HALF_BUCKETS (drop (length as - BUCKET_COUNT + k) as))"
proof -
  let ?b = "length as - BUCKET_COUNT + k"
  have "wr_buckets t ! ((wr_writeIndex t + k + i) mod BUCKET_COUNT) = as ! (?b + i)" if "i < HALF_BUCKETS" for i
  proof -
    have "length as + k + i = ?b + i + BUCKET_COUNT" using assms(2) by simp
    then have "(length as + k + i) mod BUCKET_COUNT = (?b + i) mod BUCKET_COUNT"
      by (metis mod_add_self2)
    then have "(wr_writeIndex t + k + i) mod BUCKET_COUNT = (?b + i) mod BUCKET_COUNT"
      using assms(1) by (simp add: window_holds_def add.assoc mod_add_left_eq)
    with assms that show ?thesis by (simp add: window_holds_def)
  qed
  then have "map (\<lambda>i. wr_buckets t ! ((wr_writeIndex t + k + i) mod BUCKET_COUNT)) [0..<HALF_BUCKETS] =
      take HALF_BUCKETS (drop ?b as)"
    using assms(2,3) by (intro nth_equalityI) simp_all
  then show ?thesis by (simp add: half_sum_def)
qed

lemma window_fill_means:
  assumes "window_fresh t" "BUCKET_COUNT \<le> length as"
  shows "wr_olderMean (window_fill as t) = half_mean (sum_list (take HALF_BUCKETS (drop (length as - BUCKET_COUNT) as)))"
    and "wr_newerMean (window_fill as t) = half_mean (sum_list (drop (length as - HALF_BUCKETS) as))"
proof -
  obtain bs b where as: "as = bs @ [b]" using assms(2) by (cases as rule: rev_cases) (auto simp: BUCKET_COUNT_def)
  let ?u = "window_fill as t"
  have holds: "window_holds as ?u" using assms(1) by (rule window_fill_holds)
  obtain u where u: "?u = updateMeans u" by (simp add: as window_fill_def finishBucket_def)
  then have "window_holds as u" using holds by simp
  then have full: "wr_filledBuckets u = BUCKET_COUNT" using assms(2) by (simp add: window_holds_def)
  note halves = half_sum_holds [OF \<open>window_holds as u\<close> assms(2)]
  show "wr_olderMean ?u = half_mean (sum_list (take HALF_BUCKETS (drop (length as - BUCKET_COUNT) as)))"
    using full halves [of 0] by (simp add: u updateMeans_def HALF_BUCKETS_def BUCKET_COUNT_def)
  show "wr_newerMean ?u = half_mean (sum_list (drop (length as - HALF_BUCKETS) as))"
    using full halves [of HALF_BUCKETS] assms(2) by (simp add: u updateMeans_def HALF_BUCKETS_def BUCKET_COUNT_def)
qed

end
