(* ===== verification/Sensor_Steps.thy ===== *)
theory Sensor_Steps
  imports Sensor_Threads
begin

text \<open>
  What one step of a sampling thread does, as an effect on its object. The place of the object and
  the source function are interfaces: the laws of reading and updating the object, and a call that
  succeeds and leaves the object alone.
\<close>

unbundle bit_operations_syntax

section \<open>Sampling through the source channel\<close>

text \<open>The record that a successful call puts into the source channel, and takes out again.\<close>

definition result_record :: "NativeResult \<Rightarrow> NoobRecord" where
  "result_record r = (if record_empty (r_record r) then value_record (r_value r) else r_record r)"

definition channel_ready :: "NoobProgramChannel \<Rightarrow> bool" where
  "channel_ready c \<longleftrightarrow> channel_wf c \<and> queue_contents (ch_results c) = []"

lemma channel_ready_configure:
  "channel_wf c \<Longrightarrow> length as \<le> MAX_ARGUMENTS \<Longrightarrow> length s \<le> 255 \<Longrightarrow> \<forall>x \<in> set s. printable x \<Longrightarrow>
     channel_ready (reconfigure f as s c)"
  by (auto simp: channel_ready_def reconfigure_def channel_wf_def channel_configure_def
      ring.clear_contents ring.clear_wf)

lemma finish_pop:
  assumes "channel_ready c" "r_ok r"
  shows "\<exists>q. queue_pop (ch_results (channel_finish r c)) = Some (result_record r, q) \<and>
    channel_ready ((channel_finish r c)\<lparr>ch_results := q\<rparr>)"
proof -
  let ?d = "channel_finish r c"
  from assms have d: "ch_results ?d = queue_push (result_record r) (ch_results c)"
    by (simp add: channel_finish_def result_record_def queue_push_value_def Let_def)
  from assms have wf: "queue_wf (ch_results c)" "queue_contents (ch_results c) = []"
    by (simp_all add: channel_ready_def channel_wf_def)
  then have "queue_contents (ch_results ?d) = [result_record r]"
    unfolding d by (simp add: queue_push_contents CAPACITY_def)
  moreover from wf have "queue_wf (ch_results ?d)" unfolding d by (simp add: queue_push_wf)
  ultimately obtain q where "queue_pop (ch_results ?d) = Some (result_record r, q)" "queue_wf q"
      "queue_contents q = []"
    using ring.pop_cons by blast
  with assms(1) show ?thesis
    by (auto simp: channel_ready_def channel_wf_def channel_finish_def Let_def)
qed

lemma finish_lastOk [simp]: "ch_lastOk (channel_finish r c) = r_ok r"
  "ch_lastDetail (channel_finish r c) = r_detail r"
  by (simp_all add: channel_finish_def Let_def)

text \<open>
  \<open>calls\<close>: the source function of a channel is registered, succeeds with result \<open>r\<close>, and leaves the
  object that \<open>get\<close> reads alone.
\<close>

definition calls :: "'w NativeRegistry \<Rightarrow> ('w \<Rightarrow> 's) \<Rightarrow> NoobProgramChannel \<Rightarrow> 'w \<Rightarrow> NativeResult \<Rightarrow> 'w \<Rightarrow> bool" where
  "calls reg get c w r w' \<longleftrightarrow> r_ok r \<and> get w' = get w \<and>
     (\<exists>e. find_id reg (ch_functionId c) = Some e \<and>
          registry_callMixed e (ch_arguments c) (ch_ascii c) w = (r, w'))"

text \<open>The three classes share how they sample: invoke the source channel, then pop its result.\<close>

locale source_place =
  fixes get :: "('w, 's) reader" and upd :: "('w, 's) updater"
    and src :: "'s \<Rightarrow> NoobProgramChannel"
    and map_src :: "(NoobProgramChannel \<Rightarrow> NoobProgramChannel) \<Rightarrow> 's \<Rightarrow> 's"
  assumes get_upd: "get (upd f w) = f (get w)"
    and src_map: "src (map_src g t) = g (src t)"
    and map_map: "map_src g (map_src h t) = map_src (\<lambda>c. g (h c)) t"
    and map_const: "map_src g t = map_src (\<lambda>_. g (src t)) t"
begin

lemma invoke_sampled:
  assumes ready: "channel_ready (src (get w))"
    and call: "calls reg get (src (get w)) (upd (map_src (\<lambda>c. c\<lparr>ch_busy := True\<rparr>)) w) r w'"
  defines "w2 \<equiv> channel_invoke (\<lambda>w. src (get w)) (\<lambda>g. upd (map_src g)) reg 0 False w"
  obtains c q where "ch_lastOk (src (get w2))" "queue_pop (ch_results (src (get w2))) = Some (result_record r, q)"
    "channel_ready c" "get (upd (map_src (\<lambda>c. c\<lparr>ch_results := q\<rparr>)) w2) = map_src (\<lambda>_. c) (get w)"
proof -
  let ?b = "(src (get w))\<lparr>ch_busy := True\<rparr>" and ?w1 = "upd (map_src (\<lambda>c. c\<lparr>ch_busy := True\<rparr>)) w"
  have b: "channel_ready ?b" using ready by (simp add: channel_ready_def)
  from call obtain e where e: "find_id reg (ch_functionId (src (get w))) = Some e"
      "registry_callMixed e (ch_arguments (src (get w))) (ch_ascii (src (get w))) ?w1 = (r, w')"
      and ok: "r_ok r" and g': "get w' = get ?w1"
    by (auto simp: calls_def)
  have w2: "w2 = upd (map_src (channel_finish r)) w'"
    using e by (simp add: w2_def channel_invoke_def channel_call_arguments_def get_upd src_map)
  have g2: "get w2 = map_src (\<lambda>c. channel_finish r (c\<lparr>ch_busy := True\<rparr>)) (get w)"
    by (simp add: w2 get_upd g' map_map)
  obtain q where q: "queue_pop (ch_results (channel_finish r ?b)) = Some (result_record r, q)"
      "channel_ready ((channel_finish r ?b)\<lparr>ch_results := q\<rparr>)"
    using finish_pop [OF b ok] by blast
  have "get (upd (map_src (\<lambda>c. c\<lparr>ch_results := q\<rparr>)) w2) =
      map_src (\<lambda>c. (channel_finish r (c\<lparr>ch_busy := True\<rparr>))\<lparr>ch_results := q\<rparr>) (get w)"
    by (simp add: get_upd g2 map_map)
  also have "\<dots> = map_src (\<lambda>_. (channel_finish r ?b)\<lparr>ch_results := q\<rparr>) (get w)"
    by (rule map_const)
  finally show thesis using that q ok by (simp add: g2 src_map)
qed

end

lemma change_sample_source:
  "change_sample v (t\<lparr>ct_source := c\<rparr>) =
     (fst (change_sample v t), (snd (change_sample v t))\<lparr>ct_source := c\<rparr>)"
  by (simp add: change_sample_def Let_def)

locale change_place = thread_place get upd
  for get :: "('a seq_world_scheme, 't ChangeThread_scheme) reader"
    and upd :: "('a seq_world_scheme, 't ChangeThread_scheme) updater"
begin

sublocale source: source_place get upd ct_source "\<lambda>f t. t\<lparr>ct_source := f (ct_source t)\<rparr>"
  by unfold_locales (simp_all add: get_upd)

lemma step_paused:
  assumes "ct_bound (get w)" "busyMask (seq w) AND ct_pauseMask (get w) \<noteq> 0"
  shows "fst (change_step reg get upd w) = None"
    and "get (snd (change_step reg get upd w)) = snd (change_feed None (get w))"
  using assms by (simp_all add: change_step_def get_upd)

lemma step_sampled:
  assumes "ct_bound (get w)" "busyMask (seq w) AND ct_pauseMask (get w) = 0"
    and ready: "channel_ready (ct_source (get w))"
    and call: "calls reg get (ct_source (get w)) (upd_ct_channel upd (\<lambda>c. c\<lparr>ch_busy := True\<rparr>) w) r w'"
    and v: "record_primary (result_record r) = Some v"
  shows "\<exists>c now. channel_ready c \<and>
    (fst (change_step reg get upd w) \<noteq> None \<longleftrightarrow> fst (change_feed (Some v) (get w))) \<and>
    get (snd (change_step reg get upd w)) =
      (if fst (change_feed (Some v) (get w)) then publish_value now else (\<lambda>t. t))
        ((snd (change_feed (Some v) (get w)))\<lparr>ct_source := c\<rparr>)"
proof -
  define w2 where "w2 = channel_invoke (ct_channel get) (upd_ct_channel upd) reg 0 False w"
  obtain c q where q: "ch_lastOk (ct_source (get w2))"
      "queue_pop (ch_results (ct_source (get w2))) = Some (result_record r, q)" "channel_ready c"
      "get (upd_ct_channel upd (\<lambda>c. c\<lparr>ch_results := q\<rparr>) w2) = (get w)\<lparr>ct_source := c\<rparr>"
    unfolding w2_def using ready call by (rule source.invoke_sampled)
  define w3 where "w3 = upd_ct_channel upd (\<lambda>c. c\<lparr>ch_results := q\<rparr>) w2"
  define w4 where "w4 = upd (\<lambda>t. snd (change_sample v t)) w3"
  have g3: "get w3 = (get w)\<lparr>ct_source := c\<rparr>" using q(4) by (simp add: w3_def)
  have g4: "get w4 = (snd (change_sample v (get w)))\<lparr>ct_source := c\<rparr>"
    by (simp add: w4_def get_upd g3 change_sample_source)
  have ms: "get (snd (milliseconds u)) = get u" for u
    by (simp add: milliseconds_def millis_def get_clock)
  have "change_step reg get upd w = (if \<not> fst (change_sample v (get w3)) then (None, w4)
      else let w5 = upd (publish_value (fst (milliseconds w4))) (snd (milliseconds w4))
        in (Some (''NRP/1 0 EVENT '' @ ct_eventName (get w5) @ '' time_ms='' @
              show_nat (unat (fst (milliseconds w4)))), w5))"
    using assms(1,2) q(1,2) v
    by (simp add: change_step_def w2_def [symmetric] w3_def [symmetric] w4_def [symmetric] split_beta Let_def)
  then show ?thesis
    by (intro exI [of _ c] exI [of _ "fst (milliseconds w4)"])
      (simp add: g3 g4 ms Let_def get_upd change_sample_source q(3))
qed

text \<open>A source that is not registered is reported, and the detector stays as it was.\<close>

lemma step_missing:
  assumes "ct_bound (get w)" "busyMask (seq w) AND ct_pauseMask (get w) = 0"
    and "find_id reg (ch_functionId (ct_source (get w))) = None"
  shows "fst (change_step reg get upd w) =
      Some (''NRP/1 0 EVENT '' @ ct_eventName (get w) @ ''_ERROR detail=function missing'')"
  using assms by (simp add: change_step_def channel_invoke_def get_upd)

end

text \<open>A sampling thread queues every successful result until its duration is over.\<close>

locale sampling_place = thread_place get upd
  for get :: "('a noob_world_scheme, 't SamplingThread_scheme) reader"
    and upd :: "('a noob_world_scheme, 't SamplingThread_scheme) updater"
begin

sublocale source: source_place get upd sp_source "\<lambda>f t. t\<lparr>sp_source := f (sp_source t)\<rparr>"
  by unfold_locales (simp_all add: get_upd)

lemma step_complete:
  assumes "sp_bound (get w)" "sp_durationMs (get w) \<noteq> 0"
    and "sp_durationMs (get w) \<le> clock w (clock_reads w) - sp_startedAt (get w)"
  shows "fst (sampling_step reg get upd w) = Some (''NRP/1 0 EVENT '' @ sp_eventName (get w) @ ''_COMPLETE'')"
    and "\<not> th_running (get (snd (sampling_step reg get upd w)))"
    and "th_results (get (snd (sampling_step reg get upd w))) = th_results (get w)"
  using assms by (simp_all add: sampling_step_def thread_stop_def millis_def get_upd get_clock)

lemma step_publishes:
  assumes "sp_bound (get w)" "sp_durationMs (get w) = 0"
    and ready: "channel_ready (sp_source (get w))"
    and call: "calls reg get (sp_source (get w)) (upd_sp_channel upd (\<lambda>c. c\<lparr>ch_busy := True\<rparr>) w) r w'"
  shows "\<exists>c. channel_ready c \<and> fst (sampling_step reg get upd w) = None \<and>
    get (snd (sampling_step reg get upd w)) = publish_record (result_record r) ((get w)\<lparr>sp_source := c\<rparr>)"
proof -
  define w2 where "w2 = channel_invoke (sp_channel get) (upd_sp_channel upd) reg 0 False w"
  obtain c q where q: "ch_lastOk (sp_source (get w2))"
      "queue_pop (ch_results (sp_source (get w2))) = Some (result_record r, q)" "channel_ready c"
      "get (upd_sp_channel upd (\<lambda>c. c\<lparr>ch_results := q\<rparr>) w2) = (get w)\<lparr>sp_source := c\<rparr>"
    unfolding w2_def using ready call by (rule source.invoke_sampled)
  define w3 where "w3 = upd_sp_channel upd (\<lambda>c. c\<lparr>ch_results := q\<rparr>) w2"
  have g3: "get w3 = (get w)\<lparr>sp_source := c\<rparr>" using q(4) by (simp add: w3_def)
  have "sampling_step reg get upd w = (None, upd (publish_record (result_record r)) w3)"
    using assms(1,2) q(1,2) by (simp add: sampling_step_def Let_def w2_def [symmetric] w3_def [symmetric])
  then show ?thesis using q(3) by (intro exI [of _ c]) (simp add: get_upd g3)
qed

end

text \<open>
  A window-rise thread adds each sample to the current bucket; when the bucket's time is over, the
  bucket is finished and judged.
\<close>

lemma updateMeans_source: "updateMeans (t\<lparr>wr_source := c\<rparr>) = (updateMeans t)\<lparr>wr_source := c\<rparr>"
  by (cases "wr_filledBuckets t < BUCKET_COUNT") (simp_all add: updateMeans_def)

lemma finishBucket_source:
  "finishBucket a (t\<lparr>wr_source := c\<rparr>) = (finishBucket a t)\<lparr>wr_source := c\<rparr>"
proof -
  let ?r = "\<lambda>t. t\<lparr>wr_buckets := (wr_buckets t)[wr_writeIndex t := a],
     wr_writeIndex := (wr_writeIndex t + 1) mod BUCKET_COUNT,
     wr_filledBuckets := (if wr_filledBuckets t < BUCKET_COUNT then wr_filledBuckets t + 1
                          else wr_filledBuckets t)\<rparr>"
  have "?r (t\<lparr>wr_source := c\<rparr>) = (?r t)\<lparr>wr_source := c\<rparr>" by simp
  then show ?thesis unfolding finishBucket_def by (simp only: updateMeans_source)
qed

lemma window_rose_source: "window_rose (t\<lparr>wr_source := c\<rparr>) = window_rose t"
  by (simp add: window_rose_def)

lemma window_decide_source:
  "window_decide (t\<lparr>wr_source := c\<rparr>) = (fst (window_decide t), (snd (window_decide t))\<lparr>wr_source := c\<rparr>)"
  by (cases "wr_filledBuckets t < BUCKET_COUNT"; cases "wr_armed t"; cases "window_rose t")
    (simp_all add: window_decide_def window_rose_source Let_def)

lemma window_bucket_source:
  "window_bucket now (t\<lparr>wr_source := c\<rparr>) =
     (fst (window_bucket now t), (snd (window_bucket now t))\<lparr>wr_source := c\<rparr>)"
proof -
  let ?r = "\<lambda>t. t\<lparr>wr_bucketSum := 0, wr_bucketSamples := 0, wr_bucketStartedAt := now\<rparr>"
  have "?r (t\<lparr>wr_source := c\<rparr>) = (?r t)\<lparr>wr_source := c\<rparr>" by simp
  then show ?thesis
    unfolding window_bucket_def by (simp only: finishBucket_source window_decide_source) simp
qed



lemma wr_account_source [simp]: "wr_account v (t\<lparr>wr_source := c\<rparr>) = (wr_account v t)\<lparr>wr_source := c\<rparr>"
  by (simp add: wr_account_def)

locale window_place = thread_place get upd
  for get :: "('a seq_world_scheme, 't WindowRiseThread_scheme) reader"
    and upd :: "('a seq_world_scheme, 't WindowRiseThread_scheme) updater"
begin

sublocale source: source_place get upd wr_source "\<lambda>f t. t\<lparr>wr_source := f (wr_source t)\<rparr>"
  by unfold_locales (simp_all add: get_upd)

lemma step_sampled:
  assumes "wr_bound (get w)" and ready: "channel_ready (wr_source (get w))"
    and call: "calls reg get (wr_source (get w)) (upd_wr_channel upd (\<lambda>c. c\<lparr>ch_busy := True\<rparr>) w) r w'"
    and v: "record_primary (result_record r) = Some v"
  shows "\<exists>c now at. channel_ready c \<and>
    (let t = wr_account v (get w); over = (wr_bucketDurationMs t \<le> now - wr_bucketStartedAt t);
         (rose, t') = (if over then window_bucket now t else (False, t))
     in (fst (window_step reg get upd w) \<noteq> None \<longleftrightarrow> rose) \<and>
        get (snd (window_step reg get upd w)) =
          (if rose then publish_value at else (\<lambda>t. t)) (t'\<lparr>wr_source := c\<rparr>))"
proof -
  define w2 where "w2 = channel_invoke (wr_channel get) (upd_wr_channel upd) reg 0 False w"
  obtain c q where q: "ch_lastOk (wr_source (get w2))"
      "queue_pop (ch_results (wr_source (get w2))) = Some (result_record r, q)" "channel_ready c"
      "get (upd_wr_channel upd (\<lambda>c. c\<lparr>ch_results := q\<rparr>) w2) = (get w)\<lparr>wr_source := c\<rparr>"
    unfolding w2_def using ready call by (rule source.invoke_sampled)
  define w3 where "w3 = upd_wr_channel upd (\<lambda>c. c\<lparr>ch_results := q\<rparr>) w2"
  obtain now w4 where m: "millis (upd (wr_account v) w3) = (now, w4)" by (cases "millis (upd (wr_account v) w3)")
  define w5 where "w5 = upd (\<lambda>t. snd (window_bucket now t)) w4"
  obtain at w6 where ms: "milliseconds w5 = (at, w6)" by (cases "milliseconds w5")
  have g3: "get w3 = (get w)\<lparr>wr_source := c\<rparr>" using q(4) by (simp add: w3_def)
  have g4: "get w4 = (wr_account v (get w))\<lparr>wr_source := c\<rparr>"
    using m by (auto simp: millis_def get_clock get_upd g3 window_bucket_source)
  have g5: "get w5 = (snd (window_bucket now (wr_account v (get w))))\<lparr>wr_source := c\<rparr>"
    by (simp add: w5_def get_upd g4 window_bucket_source)
  have g6: "get w6 = get w5"
    using ms by (auto simp: milliseconds_def millis_def get_clock)
  have "window_step reg get upd w =
      (if now - wr_bucketStartedAt (get w4) < wr_bucketDurationMs (get w4) then (None, w4)
       else if \<not> fst (window_bucket now (get w4)) then (None, w5)
       else let w7 = upd (publish_value at) w6; t = get w7
         in (Some (''NRP/1 0 EVENT '' @ wr_eventName t @ '' time_ms='' @
               show_nat (unat at) @ '' older='' @ show_i32 (wr_olderMean t) @
               '' newer='' @ show_i32 (wr_newerMean t)), w7))"
    using assms(1) q(1,2) v m ms
    by (simp add: window_step_def w2_def [symmetric] w3_def [symmetric] w5_def [symmetric] case_prod_unfold Let_def)
  then show ?thesis
    using q(3) by (intro exI [of _ c] exI [of _ now] exI [of _ at])
      (cases "now - wr_bucketStartedAt (wr_account v (get w)) < wr_bucketDurationMs (wr_account v (get w))";
       cases "fst (window_bucket now (wr_account v (get w)))";
       simp add: Let_def g4 g5 g6 get_upd window_bucket_source case_prod_unfold not_less)
qed

end

end
