(* ===== verification/Noob_Protocol.thy ===== *)
theory Noob_Protocol
  imports Noob_Prelude
begin

text \<open>
  NRP/1 framing of \<open>src/esp/common/src/protocol/noob_protocol.{h,cpp}\<close>. \<open>parse\<close> fills the request
  even when it reports an error, because the error reply uses the request id that was found.
\<close>

record NoobRequest =
  requestId :: string
  req_command :: string
  req_arguments :: string

definition VERSION :: string where "VERSION = ''NRP/1''"

definition protocol_parse :: "string \<Rightarrow> NoobRequest \<times> string option" where
  "protocol_parse frame =
     (let (version, r1) = next_token frame;
          (rid, r2) = next_token r1;
          (cmd, r3) = next_token r2;
          request = \<lparr>requestId = rid, req_command = toUpperCase cmd,
                     req_arguments = skip_spaces r3\<rparr>
      in if version \<noteq> VERSION then (request, Some ''unsupported protocol version'')
         else if rid = [] \<or> cmd = []
         then (request, Some ''expected NRP/1 request-id command [arguments]'')
         else (request, None))"

definition protocol_ok :: "string \<Rightarrow> string \<Rightarrow> string" where
  "protocol_ok rid payload = VERSION @ '' '' @ rid @ '' OK'' @
     (if payload = [] then [] else '' '' @ payload)"

definition protocol_fail :: "string \<Rightarrow> string \<Rightarrow> string \<Rightarrow> string" where
  "protocol_fail rid code message = VERSION @ '' '' @ rid @ '' ERR '' @ code @ '' '' @ message"

text \<open>The request line that a client sends.\<close>

definition request_line :: "string \<Rightarrow> string \<Rightarrow> string \<Rightarrow> string" where
  "request_line rid cmd args = VERSION @ '' '' @ rid @ '' '' @ cmd @ '' '' @ args"

definition spaceless :: "string \<Rightarrow> bool" where
  "spaceless t \<longleftrightarrow> t \<noteq> [] \<and> CHR '' '' \<notin> set t"

lemma spaceless_VERSION [simp]: "spaceless VERSION"
  by (simp add: spaceless_def VERSION_def)

lemma protocol_parse_fields:
  assumes "spaceless rid" "spaceless cmd"
  shows "protocol_parse (VERSION @ '' '' @ rid @ '' '' @ cmd @ '' '' @ args) =
    (\<lparr>requestId = rid, req_command = toUpperCase cmd, req_arguments = skip_spaces args\<rparr>, None)"
  using assms spaceless_VERSION
  by (simp add: protocol_parse_def spaceless_def next_token_append next_token_space)

lemma protocol_parse_bare:
  assumes "spaceless rid" "spaceless cmd"
  shows "protocol_parse (VERSION @ '' '' @ rid @ '' '' @ cmd) =
    (\<lparr>requestId = rid, req_command = toUpperCase cmd, req_arguments = []\<rparr>, None)"
  using assms spaceless_VERSION
  by (simp add: protocol_parse_def spaceless_def next_token_append next_token_space
      next_token_last)

lemma toUpperCase_reply: "toUpperCase ''OK'' = ''OK''" "toUpperCase ''ERR'' = ''ERR''"
  by (simp_all add: toUpperCase_def toUpper_def)

lemma parse_ok_reply:
  assumes "spaceless rid"
  shows "protocol_parse (protocol_ok rid payload) =
    (\<lparr>requestId = rid, req_command = ''OK'', req_arguments = skip_spaces payload\<rparr>, None)"
  using assms protocol_parse_fields [of rid "''OK''" payload] protocol_parse_bare [of rid "''OK''"]
  by (cases "payload = []") (simp_all add: protocol_ok_def spaceless_def toUpperCase_reply skip_spaces_def)

lemma parse_fail_reply:
  assumes "spaceless rid" "spaceless code"
  shows "protocol_parse (protocol_fail rid code message) =
    (\<lparr>requestId = rid, req_command = ''ERR'', req_arguments = code @ '' '' @ message\<rparr>, None)"
proof -
  obtain c cs where c: "code = c # cs" "c \<noteq> CHR '' ''"
    using assms(2) by (cases code) (auto simp: spaceless_def)
  then have "skip_spaces (code @ '' '' @ message) = code @ '' '' @ message"
    by (simp add: skip_spaces_def)
  then show ?thesis
    using assms protocol_parse_fields [of rid "''ERR''" "code @ '' '' @ message"]
    by (simp add: protocol_fail_def spaceless_def toUpperCase_reply)
qed

lemma protocol_parse_tokens:
  "CHR '' '' \<notin> set (requestId (fst (protocol_parse frame)))"
  "snd (protocol_parse frame) = None \<Longrightarrow> requestId (fst (protocol_parse frame)) \<noteq> []"
  using next_token_nospace [of "snd (next_token frame)"]
  by (auto simp: protocol_parse_def Let_def case_prod_beta split: if_splits)

section \<open>Properties\<close>

text \<open>C8: A request line with a request id and a command that contain no space, and arguments that do
  not start with one, parses without error into exactly these parts, the command in upper case.\<close>

theorem request_roundtrip:
  assumes "spaceless rid" "spaceless cmd" "args = [] \<or> hd args \<noteq> CHR '' ''"
  shows "protocol_parse (request_line rid cmd args) =
    (\<lparr>requestId = rid, req_command = toUpperCase cmd, req_arguments = args\<rparr>, None)"
proof -
  have "skip_spaces args = args"
    using assms(3) by (cases args) (auto simp: skip_spaces_def)
  with assms protocol_parse_fields [of rid cmd args] show ?thesis by (simp add: request_line_def)
qed

theorem request_roundtrip_witness:
  "protocol_parse (request_line ''17'' ''call_mixed'' ''LED 3'') =
     (\<lparr>requestId = ''17'', req_command = ''CALL_MIXED'', req_arguments = ''LED 3''\<rparr>, None)"
proof -
  have "toUpperCase ''call_mixed'' = ''CALL_MIXED''" by code_simp
  then show ?thesis
    using request_roundtrip [of "''17''" "''call_mixed''" "''LED 3''"] by (simp add: spaceless_def)
qed

text \<open>A reply is itself a well-formed frame. A client that parses a success reply finds its
  request id, the word \<open>OK\<close> and the payload; parsing a failure reply finds the request id, the word
  \<open>ERR\<close>, and the error code and message separated by one space.\<close>

theorem reply_roundtrip:
  assumes "spaceless rid" "spaceless code" "payload = [] \<or> hd payload \<noteq> CHR '' ''"
  shows "protocol_parse (protocol_ok rid payload) =
      (\<lparr>requestId = rid, req_command = ''OK'', req_arguments = payload\<rparr>, None) \<and>
    protocol_parse (protocol_fail rid code message) =
      (\<lparr>requestId = rid, req_command = ''ERR'', req_arguments = code @ '' '' @ message\<rparr>, None)"
proof -
  have "skip_spaces payload = payload"
    using assms(3) by (cases payload) (auto simp: skip_spaces_def)
  with assms show ?thesis by (simp add: parse_ok_reply parse_fail_reply)
qed

theorem reply_roundtrip_witness:
  "protocol_parse (protocol_ok ''8'' ''PONG'') =
      (\<lparr>requestId = ''8'', req_command = ''OK'', req_arguments = ''PONG''\<rparr>, None) \<and>
   protocol_parse (protocol_fail ''8'' ''VM_STATE'' ''no program loaded'') =
      (\<lparr>requestId = ''8'', req_command = ''ERR'', req_arguments = ''VM_STATE no program loaded''\<rparr>, None)"
  using reply_roundtrip [of "''8''" "''VM_STATE''" "''PONG''" "''no program loaded''"]
  by (simp add: spaceless_def)

end
