(* ===== verification/Command_Dispatcher.thy ===== *)
theory Command_Dispatcher
  imports Noob_VM Noob_Protocol
begin

text \<open>
  The common command set of \<open>src/esp/common/src/commands/noob_command_dispatcher.{h,cpp}\<close>.
  The dispatcher holds the board's name and version, the registries and the optional lifecycle
  hook of \<open>core/noob_vm_lifecycle.h\<close>; the VM is part of the world. A position in the argument
  string is the suffix that is still to be read.
\<close>

section \<open>The dispatcher\<close>

record 'w NoobVmLifecycle =
  onStarted :: "'w \<Rightarrow> string \<times> 'w"
  onStopped :: "'w \<Rightarrow> string \<times> 'w"
  onReset :: "'w \<Rightarrow> string \<times> 'w"

record 'w CommandDispatcher =
  noobName :: string
  firmwareVersion :: string
  natives :: "'w NativeRegistry"
  capabilities :: "string list"
  lifecycle :: "'w NoobVmLifecycle option"

definition setVmLifecycle :: "'w NoobVmLifecycle option \<Rightarrow> 'w CommandDispatcher
    \<Rightarrow> 'w CommandDispatcher" where
  "setVmLifecycle l d = d\<lparr>lifecycle := l\<rparr>"

section \<open>Hexadecimal programs\<close>

definition hexValue :: "char \<Rightarrow> nat option" where
  "hexValue c = (let n = of_char c :: nat in
     if of_char CHR ''0'' \<le> n \<and> n \<le> of_char CHR ''9'' then Some (n - of_char CHR ''0'')
     else if of_char CHR ''a'' \<le> n \<and> n \<le> of_char CHR ''f'' then Some (n - of_char CHR ''a'' + 10)
     else if of_char CHR ''A'' \<le> n \<and> n \<le> of_char CHR ''F'' then Some (n - of_char CHR ''A'' + 10)
     else None)"

definition hex_separator :: "char \<Rightarrow> bool" where
  "hex_separator c \<longleftrightarrow> c = CHR '' '' \<or> c = CHR ''_'' \<or> c = CHR '':''"

text \<open>The loop of \<open>decodeHex\<close>: the index, the pending high nibble and the bytes written.\<close>

fun decodeHex_loop :: "nat \<Rightarrow> nat \<Rightarrow> nat option \<Rightarrow> u8 list \<Rightarrow> string
    \<Rightarrow> string + (nat option \<times> u8 list)" where
  "decodeHex_loop capacity index high out [] = Inr (high, out)"
| "decodeHex_loop capacity index high out (c # cs) =
     (if hex_separator c then decodeHex_loop capacity (Suc index) high out cs
      else case hexValue c of
        None \<Rightarrow> Inl (''non-hex character at '' @ show_nat index)
      | Some nibble \<Rightarrow> (case high of
          None \<Rightarrow> decodeHex_loop capacity (Suc index) (Some nibble) out cs
        | Some h \<Rightarrow>
            if length out \<ge> capacity then Inl ''program exceeds 1024 bytes''
            else decodeHex_loop capacity (Suc index) None (out @ [of_nat (16 * h + nibble)]) cs))"

definition decodeHex :: "nat \<Rightarrow> string \<Rightarrow> string + u8 list" where
  "decodeHex capacity s = (case decodeHex_loop capacity 0 None [] s of
       Inl e \<Rightarrow> Inl e
     | Inr (high, out) \<Rightarrow>
         if high \<noteq> None then Inl ''odd number of hex digits''
         else if out = [] then Inl ''empty program'' else Inr out)"

section \<open>Native calls\<close>

definition native_payload :: "NativeResult \<Rightarrow> string" where
  "native_payload r = ''value='' @ show_i32 (r_value r) @
     (if record_empty (r_record r) then [] else '' record='' @ record_serialize (r_record r)) @
     (if r_detail r = [] then [] else '' detail='' @ r_detail r)"

definition native_reply :: "string \<Rightarrow> NativeResult \<times> 'w \<Rightarrow> string \<times> 'w" where
  "native_reply rid rw = (case rw of (r, w) \<Rightarrow>
     (if \<not> r_ok r then protocol_fail rid ''NATIVE_ERROR'' (r_detail r)
      else protocol_ok rid (native_payload r), w))"

text \<open>\<open>CALL\<close>: at most \<open>budget\<close> tokens are read, each with \<open>toInt\<close>.\<close>

function call_arguments :: "nat \<Rightarrow> string \<Rightarrow> int32 list" where
  "call_arguments budget s = (if s = [] \<or> budget = 0 then []
     else let (token, rest) = next_token s in
       if token = [] then call_arguments budget rest
       else word_of_int (toInt token) # call_arguments (budget - 1) rest)"
  by auto
termination
  by (relation "measure (\<lambda>(_, s). length s)") (auto intro: next_token_rest)

definition callNative :: "'w CommandDispatcher \<Rightarrow> NoobRequest \<Rightarrow> 'w \<Rightarrow> string \<times> 'w" where
  "callNative d req w =
     (let (selector, rest) = next_token (req_arguments req);
          numeric = (selector \<noteq> [] \<and> list_all isDigit selector);
          entry = (if numeric then find_id (natives d) (word_of_int (toInt selector))
                   else find_name (natives d) selector)
      in case entry of
           None \<Rightarrow> (protocol_fail (requestId req) ''NO_FUNCTION'' selector, w)
         | Some e \<Rightarrow>
             if ent_impl e = None \<or> \<not> acceptsNumbers (the (ent_impl e))
             then (protocol_fail (requestId req) ''FUNCTION_KIND'' (''use CALL_TEXT for '' @ selector), w)
             else native_reply (requestId req)
                    (registry_call e (call_arguments REGISTER_COUNT rest) w))"

definition callTextNative :: "'w CommandDispatcher \<Rightarrow> NoobRequest \<Rightarrow> 'w \<Rightarrow> string \<times> 'w" where
  "callTextNative d req w =
     (let (selector, rest) = next_token (req_arguments req)
      in case find_name (natives d) selector of
           None \<Rightarrow> (protocol_fail (requestId req) ''NO_TEXT_FUNCTION'' selector, w)
         | Some e \<Rightarrow>
             if ent_impl e = None \<or> \<not> acceptsText (the (ent_impl e))
             then (protocol_fail (requestId req) ''NO_TEXT_FUNCTION'' selector, w)
             else native_reply (requestId req) (registry_callText e (skip_spaces rest) w))"

text \<open>\<open>CALL_MIXED\<close>: the number loop returns the numbers and what is left.\<close>

function mixed_numbers :: "int32 list \<Rightarrow> string \<Rightarrow> (int32 list \<times> string) option" where
  "mixed_numbers acc s = (if s = [] then Some (acc, s)
     else let s' = skip_spaces s in
       if s' = [] \<or> hd s' = CHR 0x22 then Some (acc, s')
       else let (token, rest) = next_token s';
                (value, tail, erange) = strtol10 INT64_MIN INT64_MAX token
            in if length acc \<ge> REGISTER_COUNT \<or> token = [] \<or> tail \<noteq> [] \<or> erange \<or>
                  value < INT32_MIN \<or> value > INT32_MAX
               then None
               else mixed_numbers (acc @ [word_of_int value]) rest)"
  by auto
termination
  by (relation "measure (\<lambda>(_, s). length s)")
    (auto intro: less_le_trans [OF next_token_rest] simp: length_skip_spaces)

text \<open>The quoted string: the characters read, whether the quote was closed, and the rest.\<close>

fun quoted :: "string \<Rightarrow> string \<Rightarrow> string + (string \<times> bool \<times> string)" where
  "quoted ascii [] = Inr (ascii, False, [])"
| "quoted ascii (c # cs) =
     (if c = CHR 0x22 then Inr (ascii, True, cs)
      else if c = CHR 0x5C then (case cs of
          [] \<Rightarrow> Inr (ascii, False, [])
        | e # es \<Rightarrow>
            if e \<noteq> CHR 0x22 \<and> e \<noteq> CHR 0x5C
            then Inl ''only quote and backslash escapes supported''
            else if length (ascii @ [e]) > MAX_ASCII_BYTES then Inl ''ASCII argument too long''
            else quoted (ascii @ [e]) es)
      else if length (ascii @ [c]) > MAX_ASCII_BYTES then Inl ''ASCII argument too long''
      else quoted (ascii @ [c]) cs)"

definition mixed_entry :: "'w NativeRegistry \<Rightarrow> string \<Rightarrow> 'w NativeEntry option" where
  "mixed_entry reg selector = (case find_name reg selector of
       Some e \<Rightarrow> Some e
     | None \<Rightarrow> (let (i, tail, _) = strtol10 INT32_MIN INT32_MAX selector in
         if selector \<noteq> [] \<and> tail = [] \<and> 0 \<le> i \<and> i \<le> 65535
         then find_id reg (word_of_int i) else None))"

definition mixed_payload :: "string \<Rightarrow> string + (int32 list \<times> string)" where
  "mixed_payload s = (case mixed_numbers [] s of
       None \<Rightarrow> Inl ''expected signed 32-bit number''
     | Some (numbers, rest) \<Rightarrow>
         if rest = [] \<or> hd rest \<noteq> CHR 0x22
         then Inl (''expected quoted ASCII string; use '' @ [CHR 0x22, CHR 0x22] @ '' for empty'')
         else (case quoted [] (tl rest) of
             Inl e \<Rightarrow> Inl e
           | Inr (ascii, closed, rest') \<Rightarrow>
               if \<not> closed \<or> skip_spaces rest' \<noteq> []
               then Inl ''unterminated string or trailing arguments''
               else Inr (numbers, ascii)))"

definition callMixedNative :: "'w CommandDispatcher \<Rightarrow> NoobRequest \<Rightarrow> 'w \<Rightarrow> string \<times> 'w" where
  "callMixedNative d req w =
     (let (selector, rest) = next_token (req_arguments req)
      in case mixed_entry (natives d) selector of
           None \<Rightarrow> (protocol_fail (requestId req) ''NO_FUNCTION'' selector, w)
         | Some e \<Rightarrow> (case mixed_payload rest of
               Inl m \<Rightarrow> (protocol_fail (requestId req) ''BAD_ARGUMENT'' m, w)
             | Inr (numbers, ascii) \<Rightarrow>
                 native_reply (requestId req) (registry_callMixed e numbers ascii w)))"

section \<open>Dispatch\<close>

definition with_hook :: "('w NoobVmLifecycle \<Rightarrow> 'w \<Rightarrow> string \<times> 'w) \<Rightarrow> 'w CommandDispatcher
    \<Rightarrow> string \<Rightarrow> string \<Rightarrow> 'w \<Rightarrow> string \<times> 'w" where
  "with_hook hook d rid payload w = (case lifecycle d of
       None \<Rightarrow> (protocol_ok rid payload, w)
     | Some l \<Rightarrow> (let (detail, w') = hook l w in
         (protocol_ok rid (if detail = [] then payload else payload @ '' '' @ detail), w')))"

definition dispatch_load :: "NoobRequest \<Rightarrow> 'a vm_world_scheme \<Rightarrow> string \<times> 'a vm_world_scheme" where
  "dispatch_load req w = (case decodeHex PROGRAM_BYTES (req_arguments req) of
       Inl e \<Rightarrow> (protocol_fail (requestId req) ''BAD_PROGRAM'' e, w)
     | Inr bytes \<Rightarrow> (case vm_load (Some bytes) (vm w) of
           Inl e \<Rightarrow> (protocol_fail (requestId req) ''VM_STATE'' e, w)
         | Inr v \<Rightarrow> (protocol_ok (requestId req) (''loaded='' @ show_nat (length bytes)), w\<lparr>vm := v\<rparr>)))"

definition dispatch_run :: "('a vm_world_scheme) CommandDispatcher \<Rightarrow> NoobRequest
    \<Rightarrow> 'a vm_world_scheme \<Rightarrow> string \<times> 'a vm_world_scheme" where
  "dispatch_run d req w = (case vm_run (vm w) of
       Inl e \<Rightarrow> (protocol_fail (requestId req) ''VM_STATE'' e, w)
     | Inr v \<Rightarrow> with_hook onStarted d (requestId req) ''started'' (w\<lparr>vm := v\<rparr>))"

definition dispatch :: "('a vm_world_scheme) CommandDispatcher \<Rightarrow> NoobRequest
    \<Rightarrow> 'a vm_world_scheme \<Rightarrow> string \<times> 'a vm_world_scheme" where
  "dispatch d req w =
     (let rid = requestId req; cmd = req_command req in
      if cmd = ''PING'' then (protocol_ok rid ''PONG'', w)
      else if cmd = ''INFO'' then (protocol_ok rid (''name='' @ noobName d @ '' firmware='' @
             firmwareVersion d @ '' protocol=1 vm=1''), w)
      else if cmd = ''CAPS'' then (protocol_ok rid (''caps='' @ capability_list (capabilities d) @
             '' functions='' @ registry_list (natives d)), w)
      else if cmd = ''LOAD'' then dispatch_load req w
      else if cmd = ''RUN'' \<or> cmd = ''START_THREAD'' then dispatch_run d req w
      else if cmd = ''STOP'' \<or> cmd = ''STOP_THREAD'' then
        (let w' = w\<lparr>vm := vm_stop (vm w)\<rparr> in with_hook onStopped d rid (vm_status (vm w')) w')
      else if cmd = ''RESET_VM'' then
        (let w' = w\<lparr>vm := vm_reset (vm w)\<rparr> in with_hook onReset d rid (vm_status (vm w')) w')
      else if cmd = ''CALL'' then callNative d req w
      else if cmd = ''CALL_TEXT'' then callTextNative d req w
      else if cmd = ''CALL_MIXED'' then callMixedNative d req w
      else if cmd = ''STATUS'' \<or> cmd = ''THREAD_STATUS'' then (protocol_ok rid (vm_status (vm w)), w)
      else (protocol_fail rid ''UNKNOWN_COMMAND'' cmd, w))"

section \<open>What a client prints\<close>

text \<open>Reference encodings, used to state what the readers above accept.\<close>

definition nibbles :: "u8 list \<Rightarrow> nat list" where
  "nibbles bs = concat (map (\<lambda>b. [unat b div 16, unat b mod 16]) bs)"

definition print_numbers :: "int32 list \<Rightarrow> string" where
  "print_numbers ns = concat (map (\<lambda>n. CHR '' '' # show_i32 n) ns)"

definition escape :: "string \<Rightarrow> string" where
  "escape s = concat (map (\<lambda>c. if c = CHR 0x22 \<or> c = CHR 0x5C then [CHR 0x5C, c] else [c]) s)"

definition print_mixed :: "int32 list \<Rightarrow> string \<Rightarrow> string" where
  "print_mixed ns s = print_numbers ns @ [CHR '' '', CHR 0x22] @ escape s @ [CHR 0x22]"

section \<open>Programs in hexadecimal\<close>

lemma nibbles_simps [simp]: "nibbles [] = []" "nibbles (b # bs) = unat b div 16 # unat b mod 16 # nibbles bs"
  by (simp_all add: nibbles_def)

lemma nibbles_pair: "h # n # ns = nibbles bs \<Longrightarrow>
    \<exists>b bs'. bs = b # bs' \<and> h = unat b div 16 \<and> n = unat b mod 16 \<and> ns = nibbles bs'"
  by (cases bs) auto

lemma nibbles_single: "[h] \<noteq> nibbles bs"
  by (cases bs) auto

lemma nibbles_Nil [simp]: "nibbles bs = [] \<longleftrightarrow> bs = []"
  by (cases bs) auto

lemma decodeHex_loop_nibbles:
  assumes "map hexValue (filter (\<lambda>c. \<not> hex_separator c) s) = map Some ns"
    and "(case high of None \<Rightarrow> ns | Some h \<Rightarrow> h # ns) = nibbles bs"
    and "length out + length bs \<le> capacity"
  shows "decodeHex_loop capacity i high out s = Inr (None, out @ bs)"
  using assms
proof (induction s arbitrary: ns high bs out i)
  case Nil
  then show ?case by (auto simp: nibbles_single split: option.splits)
next
  case (Cons c s)
  show ?case
  proof (cases "hex_separator c")
    case True
    with Cons show ?thesis by simp
  next
    case False
    with Cons.prems(1) obtain n ns' where ns: "ns = n # ns'" "hexValue c = Some n"
      "map hexValue (filter (\<lambda>c. \<not> hex_separator c) s) = map Some ns'"
      by auto
    show ?thesis
    proof (cases high)
      case None
      with False ns Cons.prems Cons.IH [OF ns(3), of "Some n" bs out] show ?thesis by simp
    next
      case (Some h)
      then obtain b bs' where b: "bs = b # bs'" "h = unat b div 16" "n = unat b mod 16"
        "ns' = nibbles bs'"
        using Cons.prems(2) ns(1) nibbles_pair [of h n ns' bs] by auto
      then have "of_nat (16 * h + n) = b" by simp
      with False ns Some b Cons.prems(3) Cons.IH [OF ns(3), of None bs' "out @ [b]"]
      show ?thesis by simp
    qed
  qed
qed

lemma decodeHex_nibbles:
  assumes "map hexValue (filter (\<lambda>c. \<not> hex_separator c) s) = map Some (nibbles bs)"
    and "bs \<noteq> []" "length bs \<le> capacity"
  shows "decodeHex capacity s = Inr bs"
  using decodeHex_loop_nibbles [of s "nibbles bs" None bs "[]" capacity 0] assms
  by (simp add: decodeHex_def)

lemma decodeHex_loop_bound:
  "decodeHex_loop capacity i high out s = Inr (h, bs) \<Longrightarrow> length out \<le> capacity \<Longrightarrow> length bs \<le> capacity"
  by (induction capacity i high out s rule: decodeHex_loop.induct)
    (auto split: if_splits option.splits)

lemma decodeHex_bound: "decodeHex capacity s = Inr bs \<Longrightarrow> bs \<noteq> [] \<and> length bs \<le> capacity"
  using decodeHex_loop_bound [of capacity 0 None "[]" s]
  by (auto simp: decodeHex_def split: sum.splits prod.splits if_splits)

section \<open>Printed arguments are read back\<close>

declare call_arguments.simps [simp del] mixed_numbers.simps [simp del]

lemma show_i32_no_space [simp]: "CHR '' '' \<notin> set (show_i32 n)" "show_i32 n \<noteq> []"
  by (simp_all add: show_i32_def)

lemma sint_range32: "INT32_MIN \<le> sint (n :: int32)" "sint (n :: int32) \<le> INT32_MAX"
  using sint_greater_eq [of n] sint_less [of n] by (simp_all add: INT32_MIN_def INT32_MAX_def)

lemma strtol10_show_i32:
  "strtol10 INT32_MIN INT32_MAX (show_i32 n) = (sint n, [], False)"
  "strtol10 INT64_MIN INT64_MAX (show_i32 n) = (sint n, [], False)"
  using sint_range32 [of n]
  by (auto simp: show_i32_def INT32_MIN_def INT32_MAX_def INT64_MIN_def INT64_MAX_def
      intro!: strtol10_show_int)

lemma print_numbers_simps [simp]:
  "print_numbers [] = []" "print_numbers (n # ns) = CHR '' '' # show_i32 n @ print_numbers ns"
  by (simp_all add: print_numbers_def)

lemma print_numbers_cases: "print_numbers ns = [] \<or> (\<exists>r. print_numbers ns = CHR '' '' # r)"
  by (cases ns) simp_all

lemma next_token_number:
  assumes "r = [] \<or> (\<exists>u. r = CHR '' '' # u)"
  shows "next_token (CHR '' '' # show_i32 n @ r) = (show_i32 n, r)"
  using assms
  by (auto simp: next_token_space next_token_append next_token_last)

lemma call_arguments_print: "call_arguments k (print_numbers ns) = take k ns"
proof (induction ns arbitrary: k)
  case Nil
  then show ?case by (simp add: call_arguments.simps)
next
  case (Cons n ns)
  then show ?case
    using print_numbers_cases [of ns] strtol10_show_i32(1) [of n]
    by (subst call_arguments.simps) (cases k, simp_all add: next_token_number toInt_def)
qed

lemma skip_spaces_number: "skip_spaces (show_i32 n @ r) = show_i32 n @ r"
  by (cases "show_i32 n") (use show_i32_no_space [of n] in \<open>auto simp: skip_spaces_def\<close>)

lemma hd_show_i32: "hd (show_i32 n @ r) \<noteq> CHR 0x22"
  using show_int_chars [of "hd (show_i32 n)" "sint n"] hd_in_set [of "show_i32 n"]
  by (auto simp: show_i32_def isDigit_def)

lemma mixed_numbers_print:
  assumes "length acc + length ns \<le> REGISTER_COUNT"
  shows "mixed_numbers acc (print_numbers ns @ CHR '' '' # CHR 0x22 # r) = Some (acc @ ns, CHR 0x22 # r)"
  using assms
proof (induction ns arbitrary: acc)
  case Nil
  then show ?case by (subst mixed_numbers.simps) (simp add: skip_spaces_def)
next
  case (Cons n ns)
  let ?r = "print_numbers ns @ CHR '' '' # CHR 0x22 # r"
  have r: "\<exists>u. ?r = CHR '' '' # u" using print_numbers_cases [of ns] by auto
  have t: "next_token (show_i32 n @ ?r) = (show_i32 n, ?r)"
    using r by (auto simp: next_token_append)
  have "length acc < REGISTER_COUNT" using Cons.prems by simp
  with t Cons.IH [of "acc @ [n]"] Cons.prems strtol10_show_i32(2) [of n] sint_range32 [of n] hd_show_i32 [of n ?r]
  show ?case
    by (subst mixed_numbers.simps) (simp add: skip_spaces_number)
qed

lemma quoted_escape:
  assumes "length acc + length s \<le> MAX_ASCII_BYTES"
  shows "quoted acc (escape s @ CHR 0x22 # r) = Inr (acc @ s, True, r)"
  using assms
proof (induction s arbitrary: acc)
  case (Cons c s)
  from Cons.IH [of "acc @ [c]"] Cons.prems show ?case by (auto simp: escape_def)
qed (simp add: escape_def)

lemma mixed_payload_print:
  assumes "length ns \<le> REGISTER_COUNT" "length s \<le> MAX_ASCII_BYTES"
  shows "mixed_payload (print_mixed ns s) = Inr (ns, s)"
  using assms mixed_numbers_print [of "[]" ns "escape s @ [CHR 0x22]"] quoted_escape [of "[]" s "[]"]
  by (simp add: mixed_payload_def print_mixed_def skip_spaces_def)

section \<open>Every request\<close>

text \<open>A hook that leaves the VM well formed, and a dispatcher all of whose callees do.\<close>

definition hook_keeps_vm :: "('a vm_world_scheme \<Rightarrow> string \<times> 'a vm_world_scheme) \<Rightarrow> bool" where
  "hook_keeps_vm h \<longleftrightarrow> (\<forall>w. vm_wf (vm w) \<longrightarrow> vm_wf (vm (snd (h w))))"

definition dispatcher_keeps_vm :: "('a vm_world_scheme) CommandDispatcher \<Rightarrow> bool" where
  "dispatcher_keeps_vm d \<longleftrightarrow> registry_keeps_vm (natives d) \<and>
     (\<forall>l. lifecycle d = Some l \<longrightarrow>
        hook_keeps_vm (onStarted l) \<and> hook_keeps_vm (onStopped l) \<and> hook_keeps_vm (onReset l))"

text \<open>A reply to request \<open>rid\<close>: a frame with that id, with status \<open>OK\<close> or \<open>ERR\<close>.\<close>

definition reply_to :: "string \<Rightarrow> string \<Rightarrow> bool" where
  "reply_to rid frame \<longleftrightarrow> (case protocol_parse frame of (q, e) \<Rightarrow>
     e = None \<and> requestId q = rid \<and> (req_command q = ''OK'' \<or> req_command q = ''ERR''))"

lemma reply_to_ok [simp]: "spaceless rid \<Longrightarrow> reply_to rid (protocol_ok rid p)"
  by (simp add: reply_to_def parse_ok_reply)

lemma reply_to_fail [simp]: "spaceless rid \<Longrightarrow> spaceless code \<Longrightarrow> reply_to rid (protocol_fail rid code m)"
  by (simp add: reply_to_def parse_fail_reply)

lemma spaceless_codes [simp]:
  "spaceless ''NATIVE_ERROR''" "spaceless ''NO_FUNCTION''" "spaceless ''FUNCTION_KIND''"
  "spaceless ''NO_TEXT_FUNCTION''" "spaceless ''BAD_ARGUMENT''" "spaceless ''BAD_PROGRAM''"
  "spaceless ''VM_STATE''" "spaceless ''UNKNOWN_COMMAND''"
  by (simp_all add: spaceless_def)

lemma native_reply_to [simp]: "spaceless rid \<Longrightarrow> reply_to rid (fst (native_reply rid rw))"
  by (simp add: native_reply_def split: prod.splits)

lemma call_reply_to [simp]:
  assumes "spaceless (requestId req)"
  shows "reply_to (requestId req) (fst (callNative d req w))"
    "reply_to (requestId req) (fst (callTextNative d req w))"
    "reply_to (requestId req) (fst (callMixedNative d req w))"
  using assms
  by (simp_all add: callNative_def callTextNative_def callMixedNative_def Let_def
      split: prod.splits option.splits sum.splits)

lemma with_hook_reply_to [simp]: "spaceless rid \<Longrightarrow> reply_to rid (fst (with_hook hook d rid p w))"
  by (simp add: with_hook_def Let_def split: option.splits prod.splits)

lemma dispatch_reply_to:
  assumes "spaceless (requestId req)"
  shows "reply_to (requestId req) (fst (dispatch d req w))"
  using assms
  by (simp add: dispatch_def dispatch_load_def dispatch_run_def Let_def split: sum.splits)

lemma native_reply_world [simp]: "snd (native_reply rid rw) = snd rw"
  by (simp add: native_reply_def split: prod.splits)

lemma registry_calls_keep:
  assumes "registry_keeps_vm reg" "e \<in> set (entries reg)" "vm_wf (vm w)"
  shows "vm_wf (vm (snd (registry_callMixed e args s w)))"
    "vm_wf (vm (snd (registry_call e args w)))"
    "vm_wf (vm (snd (registry_callText e s w)))"
  using assms
  by (auto simp: registry_keeps_vm_def native_keeps_vm_def registry_callMixed_def registry_call_def
      registry_callText_def split: option.splits)

lemma entry_found: "find_id reg i = Some e \<Longrightarrow> e \<in> set (entries reg)"
  "find_name reg n = Some e \<Longrightarrow> e \<in> set (entries reg)"
  "mixed_entry reg n = Some e \<Longrightarrow> e \<in> set (entries reg)"
  by (auto simp: mixed_entry_def dest: find_id_Some find_name_Some split: option.splits prod.splits if_splits)

lemma call_keeps_vm:
  assumes "registry_keeps_vm (natives d)" "vm_wf (vm w)"
  shows "vm_wf (vm (snd (callNative d req w)))" "vm_wf (vm (snd (callTextNative d req w)))"
    "vm_wf (vm (snd (callMixedNative d req w)))"
  using assms
  by (auto simp: callNative_def callTextNative_def callMixedNative_def Let_def
      dest: entry_found intro: registry_calls_keep split: prod.splits option.splits sum.splits)

lemma with_hook_keeps_vm:
  "\<forall>l. lifecycle d = Some l \<longrightarrow> hook_keeps_vm (hook l) \<Longrightarrow> vm_wf (vm w) \<Longrightarrow>
     vm_wf (vm (snd (with_hook hook d rid p w)))"
  by (auto simp: with_hook_def Let_def hook_keeps_vm_def split: option.splits prod.splits)
    (metis snd_conv)

lemma dispatch_keeps_vm:
  assumes "dispatcher_keeps_vm d" "vm_wf (vm w)"
  shows "vm_wf (vm (snd (dispatch d req w)))"
proof -
  have n: "registry_keeps_vm (natives d)" and
    h: "\<forall>l. lifecycle d = Some l \<longrightarrow> hook_keeps_vm (onStarted l)"
       "\<forall>l. lifecycle d = Some l \<longrightarrow> hook_keeps_vm (onStopped l)"
       "\<forall>l. lifecycle d = Some l \<longrightarrow> hook_keeps_vm (onReset l)"
    using assms(1) by (auto simp: dispatcher_keeps_vm_def)
  have load: "vm_wf (vm (snd (dispatch_load req w)))"
    using assms(2) by (auto simp: dispatch_load_def intro: vm_load_wf split: sum.splits)
  have run: "vm_wf (vm (snd (dispatch_run d req w)))"
    using assms(2) by (auto simp: dispatch_run_def intro!: with_hook_keeps_vm [OF h(1)]
        intro: vm_run_wf split: sum.splits)
  show ?thesis
    using assms(2) load run call_keeps_vm [OF n assms(2)]
      with_hook_keeps_vm [OF h(2), of "w\<lparr>vm := vm_stop (vm w)\<rparr>"]
      with_hook_keeps_vm [OF h(3), of "w\<lparr>vm := vm_reset (vm w)\<rparr>"]
    by (simp add: dispatch_def Let_def vm_stop_wf vm_reset_wf)
qed

lemma dispatch_load_hex:
  assumes "req_command req = ''LOAD''"
    and "map hexValue (filter (\<lambda>c. \<not> hex_separator c) (req_arguments req)) = map Some (nibbles bs)"
    and "bs \<noteq> []" "length bs \<le> PROGRAM_BYTES" "\<not> vm_active (vm w)" "vm_wf (vm w)"
  shows "fst (dispatch d req w) = protocol_ok (requestId req) (''loaded='' @ show_nat (length bs)) \<and>
    take (length bs) (vm_program (vm (snd (dispatch d req w)))) = bs \<and>
    vm_length (vm (snd (dispatch d req w))) = length bs \<and>
    vm_state (vm (snd (dispatch d req w))) = READY \<and> vm_pc (vm (snd (dispatch d req w))) = 0"
  using assms decodeHex_nibbles [OF assms(2-4)]
  by (simp add: dispatch_def dispatch_load_def vm_load_def Let_def)

section \<open>Properties\<close>

text \<open>C3: Every request, known or unknown, well formed or not, gets a reply frame that carries the
  request's own id and the status \<open>OK\<close> or \<open>ERR\<close>, and leaves the VM well formed, provided the
  registered functions and the lifecycle hooks do.\<close>

theorem dispatch_replies_safely:
  assumes "dispatcher_keeps_vm d" "vm_wf (vm w)" "spaceless (requestId req)"
  shows "reply_to (requestId req) (fst (dispatch d req w)) \<and> vm_wf (vm (snd (dispatch d req w)))"
  using dispatch_reply_to [OF assms(3)] dispatch_keeps_vm [OF assms(1,2)] by blast

definition sum_dispatcher :: "('a vm_world_scheme) CommandDispatcher" where
  "sum_dispatcher = \<lparr>noobName = ''iris'', firmwareVersion = ''1'', natives = sum_registry,
     capabilities = [''VM''], lifecycle = None\<rparr>"

theorem dispatch_replies_safely_witness:
  "reply_to ''5'' (fst (dispatch sum_dispatcher
      \<lparr>requestId = ''5'', req_command = ''RUN'', req_arguments = []\<rparr> (vm_board [0] (\<lambda>_. 0))))"
  using dispatch_replies_safely [of sum_dispatcher "vm_board [0] (\<lambda>_. 0)"
      "\<lparr>requestId = ''5'', req_command = ''RUN'', req_arguments = []\<rparr>"]
  by (simp add: dispatcher_keeps_vm_def sum_dispatcher_def sum_registry_keeps vm_board_wf spaceless_def)

text \<open>C4: \<open>LOAD\<close> of any text that spells a program of 1 to 1024 bytes in hexadecimal, in either case
  and with spaces, underscores and colons anywhere, stores exactly these bytes in a stopped machine,
  reports their number, and leaves the machine \<open>READY\<close> at address 0.\<close>

theorem load_roundtrip:
  assumes "req_command req = ''LOAD''"
    and "map hexValue (filter (\<lambda>c. \<not> hex_separator c) (req_arguments req)) = map Some (nibbles bs)"
    and "bs \<noteq> []" "length bs \<le> PROGRAM_BYTES" "\<not> vm_active (vm w)" "vm_wf (vm w)"
  shows "fst (dispatch d req w) = protocol_ok (requestId req) (''loaded='' @ show_nat (length bs)) \<and>
    take (length bs) (vm_program (vm (snd (dispatch d req w)))) = bs \<and>
    vm_length (vm (snd (dispatch d req w))) = length bs \<and>
    vm_state (vm (snd (dispatch d req w))) = READY \<and> vm_pc (vm (snd (dispatch d req w))) = 0"
  by (rule dispatch_load_hex [OF assms])

lemma initial_inactive: "\<not> vm_active initial_vm"
  by (simp add: vm_active_def initial_vm_def)

theorem load_roundtrip_witness:
  "take 3 (vm_program (vm (snd (dispatch sum_dispatcher
      \<lparr>requestId = ''5'', req_command = ''LOAD'', req_arguments = ''10:0a FF''\<rparr>
      \<lparr>clock = (\<lambda>_. 0), clock_reads = 0, vm = initial_vm\<rparr>)))) = [0x10, 0x0A, 0xFF]"
  using load_roundtrip [of "\<lparr>requestId = ''5'', req_command = ''LOAD'', req_arguments = ''10:0a FF''\<rparr>"
      "[0x10, 0x0A, 0xFF]" "\<lparr>clock = (\<lambda>_. 0), clock_reads = 0, vm = initial_vm\<rparr>" sum_dispatcher]
  by (simp add: hex_separator_def hexValue_def PROGRAM_BYTES_def initial_inactive numeral_3_eq_3)

section \<open>Selecting a function\<close>

lemma show_nat_as_int: "show_nat n = show_int (int n)"
  by (simp add: show_int_def)

lemma toInt_show_nat: "int n \<le> INT32_MAX \<Longrightarrow> toInt (show_nat n) = int n"
  unfolding show_nat_as_int toInt_def
  by (subst strtol10_show_int) (simp_all add: INT32_MIN_def)

lemma next_token_selector:
  assumes "spaceless sel" "r = [] \<or> (\<exists>u. r = CHR '' '' # u)"
  shows "next_token (sel @ r) = (sel, r)"
  using assms by (auto simp: spaceless_def next_token_append next_token_last)

lemma callNative_entry:
  assumes "spaceless sel" "ent_impl e = Some f" "acceptsNumbers f"
    and "(if list_all isDigit sel then find_id (natives d) (word_of_int (toInt sel))
          else find_name (natives d) sel) = Some e"
  shows "callNative d \<lparr>requestId = rid, req_command = cmd, req_arguments = sel @ print_numbers ns\<rparr> w =
    native_reply rid (registry_call e (take REGISTER_COUNT ns) w)"
  using assms next_token_selector [OF assms(1) print_numbers_cases, of ns]
  by (simp add: callNative_def call_arguments_print spaceless_def)

text \<open>\<open>CALL\<close> by number and \<open>CALL\<close> by name in any case reach the same registered function, with
  the printed signed 32-bit arguments read back exactly; arguments after the eighth are dropped.\<close>

theorem call_roundtrip:
  assumes "registry_wf (natives d)" "e \<in> set (entries (natives d))" "ent_impl e = Some f"
    and "acceptsNumbers f"
    and "sel = show_nat (unat (ent_id e)) \<or>
      (equalsIgnoreCase sel (ent_name e) \<and> spaceless sel \<and> \<not> list_all isDigit sel)"
  shows "callNative d \<lparr>requestId = rid, req_command = cmd, req_arguments = sel @ print_numbers ns\<rparr> w =
    native_reply rid (registry_call e (take REGISTER_COUNT ns) w)"
proof (cases "sel = show_nat (unat (ent_id e))")
  case True
  have "unat (ent_id e) < 65536" using unsigned_less [of "ent_id e"] by simp
  then have "toInt sel = int (unat (ent_id e))"
    unfolding True by (intro toInt_show_nat) (unfold INT32_MAX_def, linarith)
  moreover have "list_all isDigit sel" "spaceless sel"
    using True show_nat_digits isDigit_not_space(1) by (auto simp: list_all_iff spaceless_def)
  ultimately show ?thesis
    using assms find_id_iff [OF assms(1)] by (intro callNative_entry) simp_all
next
  case False
  with assms find_name_iff [OF assms(1)] show ?thesis by (intro callNative_entry) auto
qed

lemma sum_selector: "equalsIgnoreCase ''sum'' ''SUM''" "\<not> list_all isDigit ''sum''"
  by code_simp+

theorem call_roundtrip_witness:
  "callNative sum_dispatcher
     \<lparr>requestId = ''5'', req_command = ''CALL'', req_arguments = ''sum'' @ print_numbers [3, 4]\<rparr>
     (vm_board [0] (\<lambda>_. 0)) = native_reply ''5'' (native_ok 7 [], vm_board [0] (\<lambda>_. 0))"
  using call_roundtrip [of "sum_dispatcher :: vm_world CommandDispatcher" "entries sum_registry ! 0"
      "NumericFunctionAdapter (Some sum_native)" "''sum''" "''5''" "''CALL''" "[3, 4]" "vm_board [0] (\<lambda>_. 0)"]
  by (simp add: sum_dispatcher_def sum_registry_entries registry_wf_def MAX_FUNCTIONS_def
      sum_selector isDigit_def spaceless_def REGISTER_COUNT_def registry_call_def registry_callMixed_def
      base_callMixed_def sum_native_def)

text \<open>C5: \<open>CALL_MIXED\<close> delivers up to eight signed 32-bit numbers and a quoted string of up to 255
  characters, quotes and backslashes escaped, unchanged to the selected function.\<close>

theorem call_mixed_roundtrip:
  assumes "mixed_entry (natives d) sel = Some e" "spaceless sel"
    and "length ns \<le> REGISTER_COUNT" "length s \<le> MAX_ASCII_BYTES"
  shows "callMixedNative d \<lparr>requestId = rid, req_command = cmd, req_arguments = sel @ print_mixed ns s\<rparr> w =
    native_reply rid (registry_callMixed e ns s w)"
proof -
  have "\<exists>u. print_mixed ns s = CHR '' '' # u"
    using print_numbers_cases [of ns] by (auto simp: print_mixed_def)
  then show ?thesis
    using assms by (simp add: callMixedNative_def next_token_selector mixed_payload_print)
qed

theorem call_mixed_roundtrip_witness:
  "callMixedNative sum_dispatcher \<lparr>requestId = ''5'', req_command = ''CALL_MIXED'',
     req_arguments = ''SUM'' @ print_mixed [-1] [CHR 0x22]\<rparr> (vm_board [0] (\<lambda>_. 0)) =
   native_reply ''5'' (native_fail ''mixed arguments unsupported'', vm_board [0] (\<lambda>_. 0))"
  using call_mixed_roundtrip [of "sum_dispatcher :: vm_world CommandDispatcher" "''SUM''"
      "entries sum_registry ! 0" "[-1]" "[CHR 0x22]" "''5''" "''CALL_MIXED''" "vm_board [0] (\<lambda>_. 0)"]
  by (simp add: sum_dispatcher_def sum_registry_entries mixed_entry_def find_name_def
      equalsIgnoreCase_def spaceless_def REGISTER_COUNT_def MAX_ASCII_BYTES_def registry_callMixed_def
      base_callMixed_def printable_def)

text \<open>A function number above 65535 in \<open>CALL\<close> is not refused: it is reduced modulo 65536, so
  \<open>CALL 65537\<close> runs the function registered under 1.\<close>

theorem call_number_wraps:
  assumes "registry_wf (natives d)" "e \<in> set (entries (natives d))" "ent_impl e = Some f"
    and "acceptsNumbers f" "k < 32767"
  shows "callNative d \<lparr>requestId = rid, req_command = cmd,
      req_arguments = show_nat (unat (ent_id e) + 65536 * k) @ print_numbers ns\<rparr> w =
    native_reply rid (registry_call e (take REGISTER_COUNT ns) w)"
proof -
  let ?n = "unat (ent_id e) + 65536 * k"
  have "unat (ent_id e) < 65536" using unsigned_less [of "ent_id e"] by simp
  with assms(5) have "toInt (show_nat ?n) = int ?n" 
    by (intro toInt_show_nat) (unfold INT32_MAX_def, linarith)
  moreover have wrap: "(65536 :: u16) = 0" by code_simp
  have "(word_of_int (int ?n) :: u16) = ent_id e" by (simp add: wrap)
  moreover have "list_all isDigit (show_nat ?n)" "spaceless (show_nat ?n)"
    using show_nat_digits isDigit_not_space(1) by (auto simp: list_all_iff spaceless_def)
  ultimately show ?thesis
    using assms find_id_iff [OF assms(1)] by (intro callNative_entry) simp_all
qed

theorem call_number_wraps_witness:
  "callNative sum_dispatcher
     \<lparr>requestId = ''5'', req_command = ''CALL'', req_arguments = show_nat 65545 @ print_numbers [3, 4]\<rparr>
     (vm_board [0] (\<lambda>_. 0)) = native_reply ''5'' (native_ok 7 [], vm_board [0] (\<lambda>_. 0))"
  using call_number_wraps [of "sum_dispatcher :: vm_world CommandDispatcher" "entries sum_registry ! 0"
      "NumericFunctionAdapter (Some sum_native)" 1 "''5''" "''CALL''" "[3, 4]" "vm_board [0] (\<lambda>_. 0)"]
  by (simp add: sum_dispatcher_def sum_registry_entries registry_wf_def MAX_FUNCTIONS_def
      REGISTER_COUNT_def registry_call_def registry_callMixed_def base_callMixed_def sum_native_def)

end
