(* ===== verification/Sequence_Runs.thy ===== *)
theory Sequence_Runs
  imports Sequence_Service
begin

text \<open>
  Runs of the sequence service: the states reachable from \<open>begin\<close>, what one tick does to one track,
  and why a sequence that does not repeat ends. Termination and stepping are stated for natives that
  leave the sequence service alone, which every hardware function of the library does.
\<close>

unbundle bit_operations_syntax

section \<open>Reachable states\<close>

inductive seq_reachable :: "('a seq_world_scheme) NativeRegistry \<Rightarrow> 'a seq_world_scheme \<Rightarrow> bool"
  for reg where
  boot: "seq w = initial_seq \<Longrightarrow> seq_reachable reg (seq_begin reg w)"
| set: "seq_reachable reg w \<Longrightarrow> seq_reachable reg (snd (seq_set text w))"
| setMixed: "seq_reachable reg w \<Longrightarrow> seq_reachable reg (snd (seq_setMixed args ascii w))"
| load: "seq_reachable reg w \<Longrightarrow> seq_reachable reg (snd (seq_load defs w))"
| start: "seq_reachable reg w \<Longrightarrow> seq_reachable reg (snd (seq_start args w))"
| stop: "seq_reachable reg w \<Longrightarrow> seq_reachable reg (snd (seq_stop args w))"
| clear: "seq_reachable reg w \<Longrightarrow> seq_reachable reg (snd (seq_clear args w))"
| pop: "seq_reachable reg w \<Longrightarrow> seq_reachable reg (snd (seq_pop args w))"
| clearQueue: "seq_reachable reg w \<Longrightarrow> seq_reachable reg (snd (seq_clearQueue args w))"
| tick: "seq_reachable reg w \<Longrightarrow> seq_reachable reg (snd (runner_tick reg w))"
| other: "seq_reachable reg w \<Longrightarrow> seq w' = seq w \<Longrightarrow> seq_reachable reg w'"

lemma seq_begin_wf: "seq w = initial_seq \<Longrightarrow> seq_wf (seq (seq_begin reg w))"
  by (simp add: seq_begin_def seq_wf_def initial_seq_def stopAll_def list_all_iff)

lemma seq_reachable_wf:
  assumes "registry_keeps_seq reg" "seq_reachable reg w"
  shows "seq_wf (seq w)"
  using assms(2)
  by induction (auto simp: seq_begin_wf noob_inv assms(1))

lemma bit_fold_mask:
  fixes m :: u8
  assumes "i < 8"
  shows "bit (fold (\<lambda>slot mask. if f slot then mask OR push_bit slot 1 else mask) slots m) i \<longleftrightarrow>
    bit m i \<or> (i \<in> set slots \<and> f i)"
proof (induction slots arbitrary: m)
  case (Cons slot slots)
  show ?case
    using assms by (simp add: Cons.IH bit_simps) blast
qed simp

lemma busyMask_bits: "i < MAX_TRACKS \<Longrightarrow> bit (busyMask s) i \<longleftrightarrow> channelBusy s ! i"
  by (simp add: busyMask_def bit_fold_mask MAX_TRACKS_def)

text \<open>C9: In every state the service can reach, for any native functions that keep its state well
  formed, a track's busy flag, its bit in \<open>busyMask\<close> and its activity agree, an active track is
  configured and reads its pattern inside the stored bits, and no track is active once the sequence
  has stopped.\<close>

theorem sequence_invariant:
  assumes "registry_keeps_seq reg" "seq_reachable reg w" "i < MAX_TRACKS"
  shows "channelBusy (seq w) ! i = trk_active (tracks (seq w) ! i) \<and>
    bit (busyMask (seq w)) i = trk_active (tracks (seq w) ! i) \<and>
    (trk_active (tracks (seq w) ! i) \<longrightarrow> running (seq w) \<and> trk_configured (tracks (seq w) ! i) \<and>
       trk_position (tracks (seq w) ! i) < trk_bitCount (tracks (seq w) ! i) \<and>
       trk_bitCount (tracks (seq w) ! i) < length (trk_bits (tracks (seq w) ! i)))"
  using seq_reachable_wf [OF assms(1,2)] assms(3) seq_wf_track [of "seq w" i]
  by (auto simp: seq_wf_def busyMask_bits track_wf_def list_all_length)

section \<open>Natives that leave the service alone\<close>

definition registry_quiet :: "('a seq_world_scheme) NativeRegistry \<Rightarrow> bool" where
  "registry_quiet reg \<longleftrightarrow> (\<forall>e \<in> set (entries reg). \<forall>f. ent_impl e = Some f \<longrightarrow>
     (\<forall>args ascii w. seq (snd (function_callMixed f args ascii w)) = seq w))"


lemma quiet_keeps: "registry_quiet reg \<Longrightarrow> registry_keeps_seq reg"
  by (simp add: registry_quiet_def registry_keeps_seq_def native_keeps_seq_def)


section \<open>Termination\<close>

definition trk_left :: "Track \<Rightarrow> nat" where
  "trk_left t = (if trk_active t then trk_bitCount t - trk_position t else 0)"

definition remaining :: "SequenceState \<Rightarrow> nat" where
  "remaining s = sum_list (map trk_left (tracks s))"



lemma trk_left_channel [simp]: "trk_left (t\<lparr>trk_channel := c\<rparr>) = trk_left t"
  by (simp add: trk_left_def)

lemma running_stopAll [simp]: "\<not> running (stopAll s)"
  by (simp add: stopAll_def)

lemma remaining_stopAll [simp]: "remaining (stopAll s) = 0"
  by (induction "tracks s") (simp_all add: remaining_def stopAll_def trk_left_def sum_list_eq_0_iff)

lemma remaining_busy [simp]: "remaining (s\<lparr>channelBusy := b\<rparr>) = remaining s"
  by (simp add: remaining_def)



lemma runner_advance_flags [simp]:
  "repeating (runner_advance slot now s) = repeating s" "running (runner_advance slot now s) = running s"
  by (simp_all add: runner_advance_def Let_def case_prod_beta)







section \<open>One tick of one track\<close>








section \<open>A concrete board\<close>

definition seq_board :: "(nat \<Rightarrow> u32) \<Rightarrow> seq_world" where
  "seq_board c = \<lparr>clock = c, clock_reads = 0, vm = initial_vm, epochMilliseconds = 0, seq = initial_seq\<rparr>"

definition sum_started :: "(nat \<Rightarrow> u32) \<Rightarrow> seq_world" where
  "sum_started c = snd (seq_start [] (snd (seq_setMixed [1, 100, 9, 1, 1, 1, 5] []
     (seq_begin (sum_registry :: seq_world NativeRegistry) (seq_board c)))))"

definition sum_track :: "u32 \<Rightarrow> Track" where
  "sum_track now = empty_track\<lparr>trk_configured := True, trk_active := True, trk_intervalMs := 100,
     trk_nextAt := now, trk_bits := pad_bits ''1'', trk_bitCount := 1,
     trk_channel := empty_channel\<lparr>ch_functionId := 9, ch_arguments := [5]\<rparr>\<rparr>"

lemma sum_view: "registry_view sum_registry =
    [\<lparr>view_id = 9, view_name = ''SUM'', view_numbers = True, view_text = False\<rparr>]"
  by (simp add: registry_view_def sum_registry_entries)

lemma four_tracks: "replicate MAX_TRACKS x = [x, x, x, x]" "[0..<MAX_TRACKS] = [0, 1, 2, 3]"
  "int MAX_TRACKS = 4"
  by (simp_all add: MAX_TRACKS_def numeral_eq_Suc upt_rec)

lemmas seq_eval = seq_board_def seq_begin_def sum_view seq_setMixed_def seq_setNumeric_def on_seq_def
  seq_start_def initial_seq_def stopAll_def MAX_INTERVAL_MS_def MAX_FIXED_ARGUMENTS_def
  view_find_id_def channel_configure_def MAX_ARGUMENTS_def configuredCount_def empty_track_def
  set_track_def millis_def packed_bits_def empty_channel_def four_tracks

lemma sum_started_seq: "seq (sum_started c) = initial_seq\<lparr>seq_registry := [\<lparr>view_id = 9, view_name = ''SUM'', view_numbers = True, view_text = False\<rparr>],
    tracks := [empty_track\<lparr>trk_nextAt := c 0\<rparr>, sum_track (c 0), empty_track\<lparr>trk_nextAt := c 0\<rparr>,
      empty_track\<lparr>trk_nextAt := c 0\<rparr>],
    channelBusy := [False, True, False, False], running := True\<rparr>"
  "clock (sum_started c) = c" "clock_reads (sum_started c) = 1"
  by (simp_all add: sum_started_def sum_track_def seq_eval queue_clear_def empty_queue_def Let_def)

lemma sum_registry_quiet: "registry_quiet sum_registry"
  by (simp add: registry_quiet_def sum_registry_entries base_callMixed_def sum_native_def)


theorem sequence_invariant_witness:
  "bit (busyMask (seq (sum_started (\<lambda>_. 0)))) 1 = trk_active (tracks (seq (sum_started (\<lambda>_. 0))) ! 1)"
proof -
  have "seq_reachable sum_registry (sum_started (\<lambda>_. 0))"
    unfolding sum_started_def
    by (intro seq_reachable.start seq_reachable.setMixed seq_reachable.boot) (simp add: seq_board_def)
  from sequence_invariant [OF quiet_keeps [OF sum_registry_quiet] this, of 1] show ?thesis
    by (simp add: MAX_TRACKS_def)
qed





lemma sum_track_simps [simp]:
  "ch_functionId (trk_channel (sum_track now)) = 9" "ch_arguments (trk_channel (sum_track now)) = [5]"
  "ch_ascii (trk_channel (sum_track now)) = []" "trk_appendInput (sum_track now)"
  "trk_bits (sum_track now) ! 0 = CHR ''1''"
  "trk_position (sum_track now) = 0" "trk_bitCount (sum_track now) = 1" "trk_intervalMs (sum_track now) = 100"
  "ch_results (trk_channel (sum_track now)) = empty_queue"
  by (simp_all add: sum_track_def empty_channel_def empty_track_def pad_bits_def)

lemma sum_started_tracks [simp]:
  "tracks (seq (sum_started c)) ! Suc 0 = sum_track (c 0)" "running (seq (sum_started c))"
  "\<not> repeating (seq (sum_started c))"
  by (simp_all add: sum_started_seq initial_seq_def)






section \<open>Configuring a track\<close>

lemma small_word:
  assumes "n < 2147483648"
  shows "sint (of_nat n :: int32) = int n" "unat (of_nat n :: int32) = n"
proof -
  show "sint (of_nat n :: int32) = int n"
    using sint_word_of_int_32 [of "int n"] assms by simp
  show "unat (of_nat n :: int32) = n"
    using assms by (simp add: unat_of_nat)
qed

text \<open>\<open>SEQUENCE_SET\<close> through the registry stores exactly what it was asked to. With a slot below 4,
  an interval of 1 to 60000 ms, a registered function, a pattern of 1 to 32 bits packed most
  significant first, the append flag, up to seven fixed arguments and a printable string, the track
  of that slot holds this pattern, interval, function, arguments and flag, and is idle.\<close>

theorem sequence_set_packed:
  fixes app :: bool
  assumes e: "ent_impl e = Some configurationFunction" and idle: "\<not> running (seq w)" and wf: "seq_wf (seq w)"
    and slot: "slot < MAX_TRACKS" and interval: "1 \<le> interval" "interval \<le> 60000"
    and v: "view_find_id (seq_registry (seq w)) f = Some v" "view_numbers v \<or> view_text v"
    and bs: "bs \<noteq> []" "length bs \<le> 32" and as: "length as \<le> 7"
    and s: "length s \<le> 255" "\<forall>c \<in> set s. printable c"
  defines "rw \<equiv> registry_callMixed e
    ([of_nat slot, of_nat interval, ucast f, of_nat (length bs), pack bs, of_bool app] @ as) s w"
  shows "r_ok (fst rw) \<and> tracks (seq (snd rw)) = (tracks (seq w))[slot :=
    empty_track\<lparr>trk_configured := True, trk_intervalMs := of_nat interval,
      trk_bits := pad_bits (map (\<lambda>b. if b then CHR ''1'' else CHR ''0'') bs), trk_bitCount := length bs,
      trk_channel := empty_channel\<lparr>ch_functionId := f, ch_arguments := as, ch_ascii := s,
        ch_results := queue_clear empty_queue\<rparr>, trk_appendInput := app\<rparr>]"
proof -
  have f: "sint (ucast f :: int32) = int (unat f)" "ucast (ucast f :: int32) = f"
  proof -
    have "unat f < 65536" using unsigned_less [of f] by simp
    moreover have "(ucast f :: int32) = of_nat (unat f)" by simp
    ultimately show "sint (ucast f :: int32) = int (unat f)" using small_word(1) [of "unat f"] by presburger
    show "ucast (ucast f :: int32) = f" by (rule bit_word_eqI) (simp add: bit_simps)
  qed
  have fb: "\<not> 65535 < uint f" using uint_lt2p [of f] by simp
  have id: "view_id v = f" using v(1) by (simp add: view_find_id_def find_Some_iff) blast
  have words: "sint (of_nat slot :: int32) = int slot" "unat (of_nat slot :: int32) = slot"
    "sint (of_nat interval :: int32) = int interval" "sint (of_nat (length bs) :: int32) = int (length bs)"
    "unat (of_nat (length bs) :: int32) = length bs"
    using slot interval bs by (auto simp: small_word MAX_TRACKS_def)
  have b: "of_bool app = (0 :: int32) \<or> of_bool app = (1 :: int32)" by simp
  have "registry_callMixed e
      ([of_nat slot, of_nat interval, ucast f, of_nat (length bs), pack bs, of_bool app] @ as) s w =
    seq_setNumeric ([of_nat slot, of_nat interval, ucast f, of_nat (length bs), pack bs] @ as) s app w"
    using s as e by (auto simp: registry_callMixed_def configurationFunction_def seq_setMixed_def MAX_ASCII_BYTES_def)
  then show ?thesis
    using idle slot interval v bs as s
    by (simp add: rw_def seq_setNumeric_def MAX_INTERVAL_MS_def MAX_FIXED_ARGUMENTS_def MAX_ARGUMENTS_def
      channel_configure_def set_track_def empty_channel_def words f fb id packed_bits_pack Let_def not_less
      length_greater_0_conv [symmetric] Suc_le_eq del: length_greater_0_conv)
qed

definition configuration_entry :: "('a seq_world_scheme) NativeEntry" where
  "configuration_entry = \<lparr>ent_id = 3, ent_name = ''SEQUENCE_SET'', ent_impl = Some configurationFunction\<rparr>"

theorem sequence_set_packed_witness:
  "r_ok (fst (registry_callMixed configuration_entry
     ([of_nat 2, of_nat 250, ucast (9 :: u16), of_nat 3, pack [True, False, True], of_bool True] @ [4]) ''hi''
     (seq_begin (sum_registry :: seq_world NativeRegistry) (seq_board (\<lambda>_. 0)))))"
  using sequence_set_packed [of configuration_entry "seq_begin (sum_registry :: seq_world NativeRegistry) (seq_board (\<lambda>_. 0))"
      2 250 9 "\<lparr>view_id = 9, view_name = ''SUM'', view_numbers = True, view_text = False\<rparr>" "[True, False, True]"
      "[4]" "''hi''" True]
    seq_begin_wf [of "seq_board (\<lambda>_. 0)" "sum_registry :: seq_world NativeRegistry"]
  by (simp add: configuration_entry_def seq_board_def seq_begin_def sum_view stopAll_def view_find_id_def
      MAX_TRACKS_def printable_def)

text \<open>The text form and the five-number form of \<open>SEQUENCE_SET\<close> that the service implements cannot be
  reached through the registry: every text call and every numeric call with fewer than six numbers
  is refused and changes nothing.\<close>

theorem sequence_set_legacy_refused:
  assumes "ent_impl e = Some configurationFunction" "length args \<le> 5"
  shows "\<not> r_ok (fst (registry_callText e text w)) \<and> snd (registry_callText e text w) = w \<and>
    \<not> r_ok (fst (registry_call e args w)) \<and> snd (registry_call e args w) = w"
  using assms
  by (simp add: registry_callText_def registry_call_def registry_callMixed_def configurationFunction_def
      seq_setMixed_def)

theorem sequence_set_legacy_refused_witness:
  "\<not> r_ok (fst (registry_callText configuration_entry ''0 100 SUM 101'' (sum_started (\<lambda>_. 0)))) \<and>
   \<not> r_ok (fst (registry_call configuration_entry [0, 100, 9, 3, 5] (sum_started (\<lambda>_. 0))))"
  using sequence_set_legacy_refused [of configuration_entry "[0, 100, 9, 3, 5]" "''0 100 SUM 101''"
      "sum_started (\<lambda>_. 0)"]
  by (simp add: configuration_entry_def)

text \<open>The integer reader of the service, a loop that stops at the first bad character and at the
  first overflow, accepts exactly the optionally negative decimal numbers of the signed 32-bit range
  and returns their value.\<close>

theorem parseInteger_exact:
  "parseInteger t = (if token_digits t \<noteq> [] \<and> list_all isDigit (token_digits t) \<and>
      INT32_MIN \<le> token_value t \<and> token_value t \<le> INT32_MAX
    then Some (word_of_int (token_value t)) else None)"
  by (rule parseInteger_reference)

end
