(* ===== verification/Self_Test.thy ===== *)
theory Self_Test
  imports Sequence_Service
begin

text \<open>
  The boot self test of \<open>src/esp/common/src/core/noob_self_test.{h,cpp}\<close>: a table of named checks, a
  plan of probes that are native calls with a bounded number of attempts, and a report. The object
  is a field of the runtime's world.
\<close>

datatype State = UNTESTED | READY | FAILED | PENDING | NOT_AVAILABLE

record Check =
  ck_name :: string
  ck_state :: State

record Probe =
  pr_name :: string
  pr_id :: u16
  pr_arguments :: "int32 list"
  pr_attempts :: u8
  pr_tried :: u8
  pr_retryMs :: u32
  pr_pendingOnFailure :: bool
  pr_ascii :: string

record NoobSelfTest =
  st_checks :: "Check list"
  st_finished :: bool
  st_eventPending :: bool
  st_probes :: "Probe list"
  st_bound :: bool
  st_nextProbe :: nat
  st_nextAt :: u32
  st_planReady :: bool

record rt_world = seq_world +
  selfTest :: NoobSelfTest

definition MAX_CHECKS :: nat where "MAX_CHECKS = 64"
definition MAX_PROBES :: nat where "MAX_PROBES = 40"
definition CHECK_NAME_BYTES :: nat where "CHECK_NAME_BYTES = 40"

definition new_self_test :: NoobSelfTest where
  "new_self_test = \<lparr>st_checks = [], st_finished = False, st_eventPending = False, st_probes = [],
     st_bound = False, st_nextProbe = 0, st_nextAt = 3000, st_planReady = False\<rparr>"

definition self_test_bind :: "NoobSelfTest \<Rightarrow> NoobSelfTest" where
  "self_test_bind st = st\<lparr>st_bound := True\<rparr>"

definition self_test_finish :: "NoobSelfTest \<Rightarrow> NoobSelfTest" where
  "self_test_finish st = st\<lparr>st_planReady := True\<rparr>"

fun set_check :: "string \<Rightarrow> State \<Rightarrow> Check list \<Rightarrow> Check list option" where
  "set_check name s [] = None"
| "set_check name s (c # cs) = (if ck_name c = name then Some (c\<lparr>ck_state := s\<rparr> # cs)
     else map_option (Cons c) (set_check name s cs))"

definition self_test_record :: "string option \<Rightarrow> State \<Rightarrow> NoobSelfTest \<Rightarrow> bool \<times> NoobSelfTest" where
  "self_test_record name s st = (case name of None \<Rightarrow> (False, st) | Some n \<Rightarrow>
     if n = [] \<or> length n \<ge> CHECK_NAME_BYTES then (False, st)
     else case set_check n s (st_checks st) of
       Some cs \<Rightarrow> (True, st\<lparr>st_checks := cs\<rparr>)
     | None \<Rightarrow> if length (st_checks st) = MAX_CHECKS then (False, st)
         else (True, st\<lparr>st_checks := st_checks st @ [\<lparr>ck_name = n, ck_state = s\<rparr>]\<rparr>))"

definition addProbe :: "string option \<Rightarrow> u16 \<Rightarrow> int32 list \<Rightarrow> u8 \<Rightarrow> u32 \<Rightarrow> bool \<Rightarrow> string option
    \<Rightarrow> NoobSelfTest \<Rightarrow> bool \<times> NoobSelfTest" where
  "addProbe name fid arguments attempts retryMs pendingOnFailure ascii st =
     (if \<not> st_bound st \<or> length (st_probes st) = MAX_PROBES \<or> length arguments > 4 \<or> attempts = 0 \<or>
         attempts > 3 \<or> retryMs > 60000 then (False, st)
      else case ascii of None \<Rightarrow> (False, st) | Some a \<Rightarrow>
        if length a > 128 then (False, st)
        else let (ok, st') = self_test_record name PENDING st in
          if \<not> ok then (False, st')
          else (True, st'\<lparr>st_probes := st_probes st' @ [\<lparr>pr_name = the name, pr_id = fid,
                  pr_arguments = arguments, pr_attempts = attempts, pr_tried = 0, pr_retryMs = retryMs,
                  pr_pendingOnFailure = pendingOnFailure, pr_ascii = a\<rparr>]\<rparr>))"

fun state_name :: "State \<Rightarrow> string" where
  "state_name UNTESTED = ''untested''"
| "state_name READY = ''ready''"
| "state_name FAILED = ''failed''"
| "state_name PENDING = ''pending''"
| "state_name NOT_AVAILABLE = ''disabled''"

definition total_of :: "State \<Rightarrow> NoobSelfTest \<Rightarrow> int32" where
  "total_of s st = of_nat (length (filter (\<lambda>c. ck_state c = s) (st_checks st)))"

definition report_record :: "NoobSelfTest \<Rightarrow> u32 \<Rightarrow> NoobRecord" where
  "report_record st now =
     (let add = (\<lambda>n v r. snd (record_add (Some n) v r))
      in add ''boot_ms'' now (add ''disabled'' (total_of NOT_AVAILABLE st)
        (add ''untested'' (total_of UNTESTED st) (add ''pending'' (total_of PENDING st)
        (add ''ready'' (total_of READY st) (add ''value'' (total_of FAILED st) empty_record))))))"

definition self_test_call :: "('a rt_world_scheme) NativeFunction" where
  "self_test_call arguments w =
     (if arguments \<noteq> [] then (native_fail ''usage: no arguments'', w)
      else let st = selfTest w;
               detail = ''scope=boot_init complete='' @ show_bool (st_finished st) @ '' checks='' @
                 join_with '','' (map (\<lambda>c. ck_name c @ '':'' @ state_name (ck_state c)) (st_checks st));
               (now, w) = millis w
           in ((native_ok (total_of FAILED st) detail)\<lparr>r_record := report_record st now\<rparr>, w))"

definition SelfTestFunction :: "('a rt_world_scheme) NoobFunction" where
  "SelfTestFunction = FunctionObject True False (Some self_test_call) None None"

section \<open>The plan\<close>

definition probe_call :: "('a rt_world_scheme) NativeRegistry \<Rightarrow> Probe \<Rightarrow> 'a rt_world_scheme
    \<Rightarrow> bool \<times> NativeResult \<times> 'a rt_world_scheme" where
  "probe_call reg probe w = (case find_id reg (pr_id probe) of
       Some entry \<Rightarrow> (True, registry_callMixed entry (pr_arguments probe) (pr_ascii probe) w)
     | None \<Rightarrow> (False, native_fail ''function disabled'', w))"

definition probe_state :: "bool \<Rightarrow> bool \<Rightarrow> bool \<Rightarrow> Probe \<Rightarrow> State" where
  "probe_state found ok retry probe = (if ok then READY else if \<not> found then NOT_AVAILABLE
     else if retry \<or> pr_pendingOnFailure probe then PENDING else FAILED)"

text \<open>The probe with this attempt counted, whether it is retried, and the object's state afterwards.\<close>

definition tried_probe :: "nat \<Rightarrow> NoobSelfTest \<Rightarrow> Probe" where
  "tried_probe k st = (st_probes st ! k)\<lparr>pr_tried := pr_tried (st_probes st ! k) + 1\<rparr>"

definition probe_retry :: "bool \<Rightarrow> bool \<Rightarrow> Probe \<Rightarrow> bool" where
  "probe_retry found ok probe \<longleftrightarrow> \<not> ok \<and> found \<and> pr_tried probe < pr_attempts probe"

definition after_probe :: "nat \<Rightarrow> bool \<Rightarrow> bool \<Rightarrow> u32 \<Rightarrow> NoobSelfTest \<Rightarrow> NoobSelfTest" where
  "after_probe k found ok now st =
     (let probe = tried_probe k st;
          st = st\<lparr>st_probes := (st_probes st)[k := probe]\<rparr>;
          retry = probe_retry found ok probe;
          st = snd (self_test_record (Some (pr_name probe)) (probe_state found ok retry probe) st);
          st = st\<lparr>st_nextAt := now + (if retry then pr_retryMs probe else 0)\<rparr>
      in if retry then st else st\<lparr>st_nextProbe := st_nextProbe st + 1\<rparr>)"

definition run_probe :: "('a rt_world_scheme) NativeRegistry \<Rightarrow> nat \<Rightarrow> 'a rt_world_scheme
    \<Rightarrow> string option \<times> 'a rt_world_scheme" where
  "run_probe reg k w =
     (let (found, result, w) = probe_call reg (st_probes (selfTest w) ! k) w;
          probe = tried_probe k (selfTest w);
          (now, w) = millis w
      in (Some (''NRP/1 0 EVENT SELF_TEST_PROBE name='' @ pr_name probe @ '' ok='' @ show_bool (r_ok result) @
            '' attempt='' @ show_nat (unat (pr_tried probe)) @ '' retry='' @
            show_bool (probe_retry found (r_ok result) probe) @ '' detail='' @ r_detail result),
          w\<lparr>selfTest := after_probe k found (r_ok result) now (selfTest w)\<rparr>))"

definition announce :: "'a rt_world_scheme \<Rightarrow> string option \<times> 'a rt_world_scheme" where
  "announce w = (if \<not> st_eventPending (selfTest w) then (None, w)
     else let w = w\<lparr>selfTest := (selfTest w)\<lparr>st_eventPending := False\<rparr>\<rparr>;
              (report, w) = self_test_call [] w
          in (Some (''NRP/1 0 EVENT SELF_TEST failures='' @ show_i32 (r_value report) @ '' '' @
                r_detail report), w))"

definition self_test_tick :: "('a rt_world_scheme) NativeRegistry \<Rightarrow> 'a rt_world_scheme
    \<Rightarrow> string option \<times> 'a rt_world_scheme" where
  "self_test_tick reg w =
     (let (due, w) = (if st_planReady (selfTest w) \<and> \<not> st_finished (selfTest w)
            then let (now, w) = millis w in (\<not> not_due now (st_nextAt (selfTest w)), w) else (False, w))
      in if \<not> due then announce w
         else if st_nextProbe (selfTest w) = length (st_probes (selfTest w))
         then announce (w\<lparr>selfTest := (selfTest w)\<lparr>st_finished := True, st_eventPending := True\<rparr>\<rparr>)
         else run_probe reg (st_nextProbe (selfTest w)) w)"

section \<open>The table of checks\<close>

definition check_of :: "NoobSelfTest \<Rightarrow> string \<Rightarrow> State option" where
  "check_of st n = map_of (map (\<lambda>c. (ck_name c, ck_state c)) (st_checks st)) n"

definition probe_wf :: "Probe \<Rightarrow> bool" where
  "probe_wf p \<longleftrightarrow> pr_name p \<noteq> [] \<and> length (pr_name p) < CHECK_NAME_BYTES \<and> length (pr_arguments p) \<le> 4 \<and>
     0 < pr_attempts p \<and> pr_attempts p \<le> 3 \<and> pr_tried p \<le> pr_attempts p"

definition self_test_core :: "NoobSelfTest \<Rightarrow> bool" where
  "self_test_core st \<longleftrightarrow> length (st_checks st) \<le> MAX_CHECKS \<and> distinct (map ck_name (st_checks st)) \<and>
     length (st_probes st) \<le> MAX_PROBES \<and> (\<forall>p \<in> set (st_probes st). probe_wf p) \<and>
     (\<forall>p \<in> set (st_probes st). check_of st (pr_name p) \<noteq> None)"

definition self_test_wf :: "NoobSelfTest \<Rightarrow> bool" where
  "self_test_wf st \<longleftrightarrow> self_test_core st \<and> st_nextProbe st \<le> length (st_probes st) \<and>
     (\<forall>i. st_nextProbe st \<le> i \<and> i < length (st_probes st) \<longrightarrow>
        pr_tried (st_probes st ! i) < pr_attempts (st_probes st ! i))"

lemma set_check_None: "set_check n s cs = None \<longleftrightarrow> n \<notin> ck_name ` set cs"
  by (induction cs) auto

lemma set_check_Some:
  "set_check n s cs = Some ds \<Longrightarrow> map ck_name ds = map ck_name cs \<and>
     map_of (map (\<lambda>c. (ck_name c, ck_state c)) ds) = (map_of (map (\<lambda>c. (ck_name c, ck_state c)) cs))(n \<mapsto> s)"
  by (induction cs arbitrary: ds) (auto split: if_splits)

lemma map_of_snoc_new: "n \<notin> fst ` set xs \<Longrightarrow> map_of (xs @ [(n, s)]) = (map_of xs)(n \<mapsto> s)"
  by (induction xs) (auto simp: fun_eq_iff)

lemma self_test_record_ok:
  assumes "self_test_record (Some n) s st = (True, st')"
  shows "check_of st' = (check_of st)(n \<mapsto> s)"
    and "\<exists>cs. st' = st\<lparr>st_checks := cs\<rparr>"
    and "length (st_checks st) \<le> MAX_CHECKS \<Longrightarrow> length (st_checks st') \<le> MAX_CHECKS"
    and "distinct (map ck_name (st_checks st)) \<Longrightarrow> distinct (map ck_name (st_checks st'))"
proof -
  consider (old) cs where "set_check n s (st_checks st) = Some cs" "st' = st\<lparr>st_checks := cs\<rparr>"
    | (new) "set_check n s (st_checks st) = None" "length (st_checks st) \<noteq> MAX_CHECKS"
        "st' = st\<lparr>st_checks := st_checks st @ [\<lparr>ck_name = n, ck_state = s\<rparr>]\<rparr>"
    using assms by (auto simp: self_test_record_def split: if_splits option.splits)
  then have "check_of st' = (check_of st)(n \<mapsto> s) \<and> (\<exists>cs. st' = st\<lparr>st_checks := cs\<rparr>) \<and>
      (length (st_checks st) \<le> MAX_CHECKS \<longrightarrow> length (st_checks st') \<le> MAX_CHECKS) \<and>
      (distinct (map ck_name (st_checks st)) \<longrightarrow> distinct (map ck_name (st_checks st')))"
  proof cases
    case old
    from set_check_Some [OF old(1)] have "length cs = length (st_checks st)" by (metis length_map)
    with set_check_Some [OF old(1)] old(2) show ?thesis by (auto simp: check_of_def fun_eq_iff)
  next
    case new
    then have "n \<notin> ck_name ` set (st_checks st)" by (simp add: set_check_None)
    then have "check_of st' = (check_of st)(n \<mapsto> s)"
      using map_of_snoc_new [of n "map (\<lambda>c. (ck_name c, ck_state c)) (st_checks st)" s]
      by (auto simp: new(3) check_of_def fun_eq_iff image_image)
    with new \<open>n \<notin> _\<close> show ?thesis by auto
  qed
  then show "check_of st' = (check_of st)(n \<mapsto> s)" "\<exists>cs. st' = st\<lparr>st_checks := cs\<rparr>"
    "length (st_checks st) \<le> MAX_CHECKS \<Longrightarrow> length (st_checks st') \<le> MAX_CHECKS"
    "distinct (map ck_name (st_checks st)) \<Longrightarrow> distinct (map ck_name (st_checks st'))"
    by blast+
qed

lemma self_test_record_fail: "self_test_record n s st = (False, st') \<Longrightarrow> st' = st"
  by (auto simp: self_test_record_def split: if_splits option.splits)

lemma self_test_record_known:
  "check_of st n \<noteq> None \<Longrightarrow> n \<noteq> [] \<Longrightarrow> length n < CHECK_NAME_BYTES \<Longrightarrow> fst (self_test_record (Some n) s st)"
  by (auto simp: self_test_record_def check_of_def set_check_None image_image
      dest!: map_of_SomeD split: option.splits)

lemma self_test_record_frame [simp]:
  "st_probes (snd (self_test_record n s st)) = st_probes st"
  "st_nextProbe (snd (self_test_record n s st)) = st_nextProbe st"
  "st_finished (snd (self_test_record n s st)) = st_finished st"
  "st_planReady (snd (self_test_record n s st)) = st_planReady st"
  by (auto simp: self_test_record_def split: option.splits)

lemma self_test_record_core:
  assumes "self_test_core st"
  shows "self_test_core (snd (self_test_record n s st))"
proof (cases "self_test_record n s st")
  case (Pair ok st')
  show ?thesis
  proof (cases ok)
    case True
    with Pair obtain m where m: "n = Some m" by (cases n) (auto simp: self_test_record_def)
    from Pair m True have "self_test_record (Some m) s st = (True, st')" by simp
    note rec = self_test_record_ok [OF this]
    from rec(2) obtain cs where "st' = st\<lparr>st_checks := cs\<rparr>" by blast
    with assms rec(1,3,4) show ?thesis by (auto simp: self_test_core_def Pair)
  qed (use Pair assms self_test_record_fail in auto)
qed

lemma self_test_record_wf [noob_inv]:
  "self_test_wf st \<Longrightarrow> self_test_wf (snd (self_test_record n s st))"
  by (simp add: self_test_wf_def self_test_record_core)

lemma addProbe_True:
  assumes "addProbe n i as k ms pf a st = (True, st')"
  obtains m st1 p where "self_test_record (Some m) PENDING st = (True, st1)"
    "st' = st1\<lparr>st_probes := st_probes st1 @ [p]\<rparr>" "pr_name p = m" "pr_tried p = 0" "0 < pr_attempts p"
    "pr_attempts p \<le> 3" "length (pr_arguments p) \<le> 4" "length (st_probes st) \<noteq> MAX_PROBES"
proof -
  obtain m where m: "n = Some m"
    using assms by (cases n) (auto simp: addProbe_def self_test_record_def split: if_splits option.splits)
  obtain ok st1 where r: "self_test_record (Some m) PENDING st = (ok, st1)"
    by (cases "self_test_record (Some m) PENDING st")
  show thesis
    using assms that [of m st1] m r
    by (auto simp: addProbe_def not_less word_greater_zero_iff split: if_splits option.splits)
qed

lemma addProbe_False: "addProbe n i as k ms pf a st = (False, st') \<Longrightarrow> st' = st"
  by (auto simp: addProbe_def split: if_splits option.splits prod.splits dest: self_test_record_fail)

lemma addProbe_wf [noob_inv]:
  assumes "self_test_wf st"
  shows "self_test_wf (snd (addProbe n i as k ms pf a st))"
proof (cases "fst (addProbe n i as k ms pf a st)")
  case False
  then show ?thesis using assms addProbe_False by (metis prod.collapse)
next
  case True
  then have "addProbe n i as k ms pf a st = (True, snd (addProbe n i as k ms pf a st))"
    by (metis prod.collapse)
  then obtain m st1 p where m: "self_test_record (Some m) PENDING st = (True, st1)"
      and p: "snd (addProbe n i as k ms pf a st) = st1\<lparr>st_probes := st_probes st1 @ [p]\<rparr>" "pr_name p = m"
        "pr_tried p = 0" "0 < pr_attempts p" "pr_attempts p \<le> 3" "length (pr_arguments p) \<le> 4"
      and room: "length (st_probes st) \<noteq> MAX_PROBES"
    by (rule addProbe_True)
  have "m \<noteq> []" "length m < CHECK_NAME_BYTES"
    using m by (auto simp: self_test_record_def split: if_splits)
  with p have "probe_wf p" by (simp add: probe_wf_def)
  moreover have "self_test_wf st1" using self_test_record_wf [OF assms, of "Some m" PENDING] m by simp
  moreover have "check_of st1 m = Some PENDING" using self_test_record_ok(1) [OF m] by simp
  moreover have "st_probes st1 = st_probes st" using self_test_record_frame(1) [of "Some m" PENDING st] m by simp
  ultimately show ?thesis
    using room p(2-4) by (auto simp: p(1) self_test_wf_def self_test_core_def check_of_def nth_append less_Suc_eq)
qed

section \<open>The plan ends\<close>

definition attempts_left :: "NoobSelfTest \<Rightarrow> nat" where
  "attempts_left st = sum_list (map (\<lambda>p. unat (pr_attempts p) - unat (pr_tried p))
     (drop (st_nextProbe st) (st_probes st)))"

lemma unat_tried: "pr_tried p < pr_attempts p \<Longrightarrow> unat (pr_tried p + 1) = unat (pr_tried p) + 1"
proof -
  assume "pr_tried p < pr_attempts p"
  then have "unat (pr_tried p) < unat (pr_attempts p)" by (simp add: word_less_nat_alt)
  moreover have "unat (pr_attempts p) < 256" using unsigned_less [of "pr_attempts p"] by simp
  ultimately have "unat (pr_tried p) + 1 < 256" by linarith
  then show ?thesis by (simp add: unat_word_ariths(1))
qed

lemma after_probe_wf:
  assumes "self_test_wf st" "k = st_nextProbe st" "k < length (st_probes st)"
  shows "self_test_wf (after_probe k found ok now st)"
    and "attempts_left (after_probe k found ok now st) < attempts_left st"
proof -
  let ?p = "tried_probe k st" and ?ps = "st_probes st"
  let ?st1 = "st\<lparr>st_probes := ?ps[k := ?p]\<rparr>"
  let ?retry = "probe_retry found ok ?p"
  define st2 where "st2 = snd (self_test_record (Some (pr_name ?p)) (probe_state found ok ?retry ?p) ?st1)"
  have mem: "?ps ! k \<in> set ?ps" using assms(3) by simp
  have room: "pr_tried (?ps ! k) < pr_attempts (?ps ! k)" using assms by (simp add: self_test_wf_def)
  then have tried: "unat (pr_tried ?p) = unat (pr_tried (?ps ! k)) + 1"
    by (simp add: tried_probe_def unat_tried)
  have p: "probe_wf ?p" "pr_attempts ?p = pr_attempts (?ps ! k)" "pr_name ?p = pr_name (?ps ! k)"
    using assms(1) mem room tried
    by (auto simp: self_test_wf_def self_test_core_def probe_wf_def tried_probe_def word_le_nat_alt word_less_nat_alt)
  have "self_test_core ?st1"
    using assms(1) p mem
    by (auto simp: self_test_wf_def self_test_core_def check_of_def dest!: set_update_subset_insert [THEN subsetD])
  then have core: "self_test_core st2" unfolding st2_def by (rule self_test_record_core)
  have st2: "st_probes st2 = ?ps[k := ?p]" "st_nextProbe st2 = k"
    by (simp_all add: st2_def assms(2))
  have after: "after_probe k found ok now st = (let st3 = st2\<lparr>st_nextAt := now + (if ?retry then pr_retryMs ?p else 0)\<rparr>
      in if ?retry then st3 else st3\<lparr>st_nextProbe := Suc k\<rparr>)"
    by (simp add: after_probe_def st2_def Let_def assms(2))
  have later: "pr_tried (?ps ! i) < pr_attempts (?ps ! i)" if "k \<le> i" "i < length ?ps" for i
    using assms that by (simp add: self_test_wf_def)
  have core_upd: "self_test_core (st2\<lparr>st_nextAt := a\<rparr>)" "self_test_core (st2\<lparr>st_nextAt := a, st_nextProbe := n\<rparr>)" for a n
    using core by (simp_all add: self_test_core_def check_of_def)
  show "self_test_wf (after_probe k found ok now st)"
    using assms(3) st2 core_upd later
    by (auto simp: after Let_def self_test_wf_def nth_list_update probe_retry_def)
  let ?f = "\<lambda>p. unat (pr_attempts p) - unat (pr_tried p)"
  let ?rest = "sum_list (map ?f (drop (Suc k) ?ps))"
  have "drop k ?ps = ?ps ! k # drop (Suc k) ?ps" using assms(3) by (simp add: Cons_nth_drop_Suc)
  then have before: "attempts_left st = ?f (?ps ! k) + ?rest"
    by (simp add: attempts_left_def flip: assms(2))
  have "drop k (?ps[k := ?p]) = ?p # drop (Suc k) ?ps"
    using assms(3) by (simp add: drop_update_swap Cons_nth_drop_Suc [symmetric])
  then have now: "attempts_left (after_probe k found ok now st) = (if ?retry then ?f ?p + ?rest else ?rest)"
    by (simp add: after Let_def attempts_left_def st2 drop_update_cancel)
  have "?f ?p < ?f (?ps ! k)" "0 < ?f (?ps ! k)"
    using room tried p(2) by (simp_all add: word_less_nat_alt)
  then show "attempts_left (after_probe k found ok now st) < attempts_left st"
    unfolding now before by (cases ?retry) simp_all
qed

lemma after_probe_frame [simp]:
  "st_finished (after_probe k f ok now st) = st_finished st"
  "st_planReady (after_probe k f ok now st) = st_planReady st"
  by (simp_all add: after_probe_def Let_def)

text \<open>Natives that leave the self test alone.\<close>

definition keeps_self_test :: "('a rt_world_scheme) NativeRegistry \<Rightarrow> bool" where
  "keeps_self_test reg \<longleftrightarrow> (\<forall>e \<in> set (entries reg). \<forall>as s w. selfTest (snd (registry_callMixed e as s w)) = selfTest w)"

definition tick_due :: "'a rt_world_scheme \<Rightarrow> bool" where
  "tick_due w \<longleftrightarrow> st_planReady (selfTest w) \<and> \<not> st_finished (selfTest w) \<and>
     \<not> not_due (clock w (clock_reads w)) (st_nextAt (selfTest w))"

lemma probe_call_self:
  "keeps_self_test reg \<Longrightarrow> selfTest (snd (snd (probe_call reg p w))) = selfTest w"
  by (auto simp: probe_call_def keeps_self_test_def dest: find_id_Some split: option.splits)

lemma run_probe_self:
  assumes "keeps_self_test reg"
  shows "\<exists>found ok now. selfTest (snd (run_probe reg k w)) = after_probe k found ok now (selfTest w)"
proof -
  obtain found r w' where c: "probe_call reg (st_probes (selfTest w) ! k) w = (found, r, w')"
    by (cases "probe_call reg (st_probes (selfTest w) ! k) w")
  with probe_call_self [OF assms] have "selfTest w' = selfTest w" by (metis snd_conv)
  with c have "selfTest (snd (run_probe reg k w)) =
      after_probe k found (r_ok r) (clock w' (clock_reads w')) (selfTest w)"
    by (simp add: run_probe_def millis_def Let_def)
  then show ?thesis by blast
qed

lemma run_probe_event: "fst (run_probe reg k w) \<noteq> None"
  by (simp add: run_probe_def case_prod_unfold Let_def)

lemma announce_event: "st_eventPending (selfTest w) \<Longrightarrow> fst (announce w) \<noteq> None"
  by (simp add: announce_def case_prod_unfold Let_def)

lemma announce_self:
  "selfTest (snd (announce w)) = (selfTest w)\<lparr>st_eventPending := False\<rparr>"
  by (simp add: announce_def self_test_call_def millis_def Let_def)

lemma tick_not_due:
  "\<not> tick_due w \<Longrightarrow> \<exists>n. self_test_tick reg w = announce (w\<lparr>clock_reads := n\<rparr>)"
  by (cases "st_planReady (selfTest w) \<and> \<not> st_finished (selfTest w)")
    (auto simp: self_test_tick_def tick_due_def millis_def intro: exI [of _ "clock_reads w"])

lemma tick_due_cases:
  assumes "tick_due w" "keeps_self_test reg"
  obtains (finished) "st_nextProbe (selfTest w) = length (st_probes (selfTest w))"
      "selfTest (snd (self_test_tick reg w)) = (selfTest w)\<lparr>st_finished := True, st_eventPending := False\<rparr>"
      "fst (self_test_tick reg w) \<noteq> None"
  | (probe) found ok now where "st_nextProbe (selfTest w) \<noteq> length (st_probes (selfTest w))"
      "selfTest (snd (self_test_tick reg w)) =
         after_probe (st_nextProbe (selfTest w)) found ok now (selfTest w)"
      "fst (self_test_tick reg w) \<noteq> None"
proof (cases "st_nextProbe (selfTest w) = length (st_probes (selfTest w))")
  case True
  with assms(1) have "self_test_tick reg w = announce (w\<lparr>clock_reads := Suc (clock_reads w),
      selfTest := (selfTest w)\<lparr>st_finished := True, st_eventPending := True\<rparr>\<rparr>)"
    by (simp add: self_test_tick_def tick_due_def millis_def)
  then show thesis using True by (intro finished) (simp_all add: announce_self announce_event del: not_None_eq)
next
  case False
  with assms(1) have "self_test_tick reg w = run_probe reg (st_nextProbe (selfTest w)) (w\<lparr>clock_reads := Suc (clock_reads w)\<rparr>)"
    by (simp add: self_test_tick_def tick_due_def millis_def)
  with run_probe_self [OF assms(2), of "st_nextProbe (selfTest w)" "w\<lparr>clock_reads := Suc (clock_reads w)\<rparr>"]
  show thesis using False probe by (auto simp: run_probe_event simp del: not_None_eq)
qed

lemma self_test_tick_wf [noob_inv]:
  assumes "self_test_wf (selfTest w)" "keeps_self_test reg"
  shows "self_test_wf (selfTest (snd (self_test_tick reg w)))"
proof (cases "tick_due w")
  case True
  from True assms(2) show ?thesis
  proof (cases rule: tick_due_cases)
    case finished
    with assms(1) show ?thesis by (simp add: self_test_wf_def self_test_core_def check_of_def)
  next
    case (probe found ok now)
    with assms(1) have "st_nextProbe (selfTest w) < length (st_probes (selfTest w))"
      by (simp add: self_test_wf_def)
    with after_probe_wf(1) [OF assms(1) refl] probe(2) show ?thesis by simp
  qed
next
  case False
  with tick_not_due [OF False, of reg] assms(1) show ?thesis
    by (auto simp: announce_self self_test_wf_def self_test_core_def check_of_def)
qed

text \<open>\<open>self_test_ticks n\<close>: the state after \<open>n\<close> ticks.\<close>

primrec self_test_ticks :: "('a rt_world_scheme) NativeRegistry \<Rightarrow> nat \<Rightarrow> 'a rt_world_scheme \<Rightarrow> 'a rt_world_scheme" where
  "self_test_ticks reg 0 w = w"
| "self_test_ticks reg (Suc n) w = self_test_ticks reg n (snd (self_test_tick reg w))"

lemma due_ticks_bounded:
  assumes "keeps_self_test reg"
  shows "self_test_wf (selfTest w) \<Longrightarrow> \<forall>k \<le> n. tick_due (self_test_ticks reg k w) \<Longrightarrow> n \<le> attempts_left (selfTest w)"
proof (induction n arbitrary: w)
  case (Suc n)
  let ?w = "snd (self_test_tick reg w)"
  have due: "tick_due w" "tick_due ?w" using Suc.prems(2) by (auto dest: spec [of _ 0] spec [of _ "Suc 0"])
  from due(1) assms have "attempts_left (selfTest ?w) < attempts_left (selfTest w)"
  proof (cases rule: tick_due_cases)
    case finished
    with due(2) show ?thesis by (simp add: tick_due_def)
  next
    case (probe found ok now)
    with Suc.prems(1) have "st_nextProbe (selfTest w) < length (st_probes (selfTest w))"
      by (simp add: self_test_wf_def)
    with after_probe_wf(2) [OF Suc.prems(1) refl] probe(2) show ?thesis by simp
  qed
  moreover have "\<forall>k \<le> n. tick_due (self_test_ticks reg k ?w)"
    using Suc.prems(2) by (metis Suc_le_mono self_test_ticks.simps(2))
  ultimately show ?case
    using Suc.IH [of ?w] self_test_tick_wf [OF Suc.prems(1) assms] by simp
qed simp

lemma attempts_left_bound:
  assumes "self_test_wf st"
  shows "attempts_left st \<le> 3 * MAX_PROBES"
proof -
  have "sum_list (map (\<lambda>p. unat (pr_attempts p) - unat (pr_tried p)) ps) \<le> 3 * length ps"
    if "\<forall>p \<in> set ps. probe_wf p" for ps
    using that by (induction ps) (auto simp: probe_wf_def word_le_nat_alt)
  moreover have "\<forall>p \<in> set (drop (st_nextProbe st) (st_probes st)). probe_wf p"
    using assms by (auto simp: self_test_wf_def self_test_core_def dest!: in_set_dropD)
  ultimately have "attempts_left st \<le> 3 * length (drop (st_nextProbe st) (st_probes st))"
    unfolding attempts_left_def by blast
  moreover have "length (st_probes st) \<le> MAX_PROBES"
    using assms by (simp add: self_test_wf_def self_test_core_def)
  ultimately show ?thesis by simp
qed

end
