(* ===== verification/Noob_Transports.thy ===== *)
theory Noob_Transports
  imports Noob_Prelude
begin

text \<open>
  The line transports of \<open>src/esp/common/src/transport\<close>: \<open>StreamTransport\<close> over a serial stream and
  \<open>TcpServerTransport\<close> over one TCP client at a time. A stream is the bytes that have arrived and the
  lines that were printed; a TCP client also knows whether it is still connected, and the server
  queues the clients that wait to be accepted.
\<close>

definition line_end :: "char \<Rightarrow> bool" where
  "line_end c \<longleftrightarrow> c = CHR 0x0A \<or> c = CHR 0x0D"

section \<open>Streams\<close>

record Stream =
  incoming :: string
  printed :: "string list"

record StreamTransport =
  st_stream :: Stream
  st_input :: string
  st_maximumLine :: nat

text \<open>The loop of \<open>receive\<close>: the message, the bytes of the unfinished line, and the bytes left.\<close>

fun stream_loop :: "nat \<Rightarrow> string \<Rightarrow> string \<Rightarrow> string option \<times> string \<times> string" where
  "stream_loop maximumLine input [] = (None, input, [])"
| "stream_loop maximumLine input (c # cs) =
     (if line_end c then
        if input \<noteq> [] then (Some input, [], cs) else stream_loop maximumLine input cs
      else if length input < maximumLine then stream_loop maximumLine (input @ [c]) cs
      else stream_loop maximumLine [] cs)"

definition stream_receive :: "StreamTransport \<Rightarrow> string option \<times> StreamTransport" where
  "stream_receive t = (let (message, input, rest) = stream_loop (st_maximumLine t) (st_input t) (incoming (st_stream t))
     in (message, t\<lparr>st_input := input, st_stream := (st_stream t)\<lparr>incoming := rest\<rparr>\<rparr>))"

definition stream_send :: "string \<Rightarrow> StreamTransport \<Rightarrow> StreamTransport" where
  "stream_send message t = t\<lparr>st_stream := (st_stream t)\<lparr>printed := printed (st_stream t) @ [message]\<rparr>\<rparr>"

section \<open>TCP\<close>

record TcpClient = Stream +
  cl_connected :: bool

record TcpServerTransport =
  tcp_pending :: "TcpClient list"
  tcp_client :: "TcpClient option"
  tcp_input :: string
  tcp_maximumLine :: nat
  tcp_discarding :: bool

definition TCP_BUDGET :: nat where "TCP_BUDGET = 128"

text \<open>The loop of \<open>receive\<close>, with the number of bytes it may still consume.\<close>

fun tcp_loop :: "nat \<Rightarrow> nat \<Rightarrow> bool \<Rightarrow> string \<Rightarrow> string \<Rightarrow> string option \<times> bool \<times> string \<times> string" where
  "tcp_loop maximumLine 0 discarding input cs = (None, discarding, input, cs)"
| "tcp_loop maximumLine (Suc n) discarding input [] = (None, discarding, input, [])"
| "tcp_loop maximumLine (Suc n) discarding input (c # cs) =
     (if line_end c then
        if discarding then tcp_loop maximumLine n False input cs
        else if input \<noteq> [] then (Some input, discarding, [], cs)
        else tcp_loop maximumLine n discarding input cs
      else if \<not> discarding then
        if length input < maximumLine then tcp_loop maximumLine n discarding (input @ [c]) cs
        else tcp_loop maximumLine n True [] cs
      else tcp_loop maximumLine n discarding input cs)"

definition tcp_accept :: "TcpServerTransport \<Rightarrow> TcpServerTransport" where
  "tcp_accept t = (case tcp_pending t of
       c # cs \<Rightarrow> t\<lparr>tcp_pending := cs, tcp_client := Some c, tcp_input := [], tcp_discarding := False\<rparr>
     | [] \<Rightarrow> if (case tcp_client t of None \<Rightarrow> True | Some c \<Rightarrow> \<not> cl_connected c)
             then t\<lparr>tcp_client := None, tcp_input := [], tcp_discarding := False\<rparr> else t)"

definition tcp_receive :: "TcpServerTransport \<Rightarrow> string option \<times> TcpServerTransport" where
  "tcp_receive t = (let t = tcp_accept t in
     case tcp_client t of None \<Rightarrow> (None, t)
     | Some c \<Rightarrow> (let (message, discarding, input, rest) =
           tcp_loop (tcp_maximumLine t) TCP_BUDGET (tcp_discarding t) (tcp_input t) (incoming c)
         in (message, t\<lparr>tcp_client := Some (c\<lparr>incoming := rest\<rparr>), tcp_input := input,
                        tcp_discarding := discarding\<rparr>)))"

definition tcp_send :: "string \<Rightarrow> TcpServerTransport \<Rightarrow> TcpServerTransport" where
  "tcp_send message t = (case tcp_client t of None \<Rightarrow> t
     | Some c \<Rightarrow> if cl_connected c then t\<lparr>tcp_client := Some (c\<lparr>printed := printed c @ [message]\<rparr>)\<rparr> else t)"

section \<open>The frames of a byte stream\<close>

text \<open>The lines that are not empty, and those that fit.\<close>

fun lines :: "string \<Rightarrow> string \<Rightarrow> string list" where
  "lines acc [] = []"
| "lines acc (c # cs) = (if line_end c then (if acc = [] then lines [] cs else acc # lines [] cs)
     else lines (acc @ [c]) cs)"

definition frames :: "nat \<Rightarrow> string \<Rightarrow> string list" where
  "frames maximumLine cs = filter (\<lambda>l. length l \<le> maximumLine) (lines [] cs)"

text \<open>One byte that does not complete a message.\<close>

definition tcp_next :: "nat \<Rightarrow> bool \<Rightarrow> string \<Rightarrow> char \<Rightarrow> bool \<times> string" where
  "tcp_next M d i c = (if line_end c then (False, i) else if d then (True, i)
     else if length i < M then (False, i @ [c]) else (True, []))"

lemma tcp_loop_Cons:
  "tcp_loop M (Suc n) d i (c # cs) = (if line_end c \<and> \<not> d \<and> i \<noteq> [] then (Some i, d, [], cs)
     else tcp_loop M n (fst (tcp_next M d i c)) (snd (tcp_next M d i c)) cs)"
  by (auto simp: tcp_next_def)

lemma tcp_next_input:
  "length i \<le> M \<Longrightarrow> (d \<longrightarrow> i = []) \<Longrightarrow> length (snd (tcp_next M d i c)) \<le> M \<and>
     (fst (tcp_next M d i c) \<longrightarrow> snd (tcp_next M d i c) = [])"
  by (auto simp: tcp_next_def)

lemma tcp_loop_consumes:
  "tcp_loop M n d i cs = (m, d', i', rest) \<Longrightarrow> length rest \<le> length cs \<and> length cs \<le> length rest + n \<and>
     (0 < n \<and> cs \<noteq> [] \<longrightarrow> length rest < length cs)"
proof (induction n arbitrary: d i cs)
  case (Suc n)
  show ?case
  proof (cases cs)
    case (Cons c cs')
    with Suc.prems Suc.IH [of "fst (tcp_next M d i c)" "snd (tcp_next M d i c)" cs'] show ?thesis
      by (auto simp: tcp_loop_Cons simp del: tcp_loop.simps split: if_splits)
  qed (use Suc.prems in simp)
qed simp

lemma tcp_loop_input:
  "tcp_loop M n d i cs = (m, d', i', rest) \<Longrightarrow> length i \<le> M \<Longrightarrow> (d \<longrightarrow> i = []) \<Longrightarrow>
     length i' \<le> M \<and> (d' \<longrightarrow> i' = []) \<and> (\<forall>x. m = Some x \<longrightarrow> x \<noteq> [] \<and> length x \<le> M)"
proof (induction n arbitrary: d i cs)
  case (Suc n)
  show ?case
  proof (cases cs)
    case (Cons c cs')
    with Suc.prems Suc.IH [of "fst (tcp_next M d i c)" "snd (tcp_next M d i c)" cs'] tcp_next_input [of i M d c]
    show ?thesis by (auto simp: tcp_loop_Cons simp del: tcp_loop.simps split: if_splits)
  qed (use Suc.prems in auto)
qed auto

text \<open>
  What is still to be delivered from a state of the receiver: while discarding, everything up to the
  end of the line is lost.
\<close>

definition rest_frames :: "nat \<Rightarrow> bool \<Rightarrow> string \<Rightarrow> string \<Rightarrow> string list" where
  "rest_frames M discarding input cs =
     (if discarding then frames M (case dropWhile (\<lambda>c. \<not> line_end c) cs of [] \<Rightarrow> [] | _ # r \<Rightarrow> r)
      else filter (\<lambda>l. length l \<le> M) (lines input cs))"

lemma lines_overlong:
  "length acc > M \<Longrightarrow> filter (\<lambda>l. length l \<le> M) (lines acc cs) =
     frames M (case dropWhile (\<lambda>c. \<not> line_end c) cs of [] \<Rightarrow> [] | _ # r \<Rightarrow> r)"
  by (induction cs arbitrary: acc) (auto simp: frames_def)

lemma rest_frames_next:
  assumes "length i \<le> M" "d \<longrightarrow> i = []" "\<not> (line_end c \<and> \<not> d \<and> i \<noteq> [])"
  shows "rest_frames M d i (c # cs) = rest_frames M (fst (tcp_next M d i c)) (snd (tcp_next M d i c)) cs"
proof (cases "line_end c \<or> d \<or> length i < M")
  case True
  with assms show ?thesis by (auto simp: rest_frames_def tcp_next_def frames_def)
next
  case False
  with lines_overlong [of M "i @ [c]" cs] show ?thesis by (simp add: rest_frames_def tcp_next_def)
qed

lemma tcp_loop_frames:
  "tcp_loop M n d i cs = (m, d', i', rest) \<Longrightarrow> length i \<le> M \<Longrightarrow> (d \<longrightarrow> i = []) \<Longrightarrow>
     rest_frames M d i (cs @ later) = (case m of None \<Rightarrow> [] | Some x \<Rightarrow> [x]) @ rest_frames M d' i' (rest @ later)"
proof (induction n arbitrary: d i cs)
  case (Suc n)
  show ?case
  proof (cases cs)
    case (Cons c cs')
    show ?thesis
    proof (cases "line_end c \<and> \<not> d \<and> i \<noteq> []")
      case True
      with Cons Suc.prems show ?thesis by (auto simp: rest_frames_def)
    next
      case False
      with Cons Suc.prems have
        "tcp_loop M n (fst (tcp_next M d i c)) (snd (tcp_next M d i c)) cs' = (m, d', i', rest)"
        by (simp only: tcp_loop_Cons if_False)
      from Suc.IH [OF this] tcp_next_input [OF Suc.prems(2,3), of c] rest_frames_next [OF Suc.prems(2,3) False]
      show ?thesis by (simp add: Cons)
    qed
  qed (use Suc.prems in auto)
qed auto

lemma rest_frames_Nil [simp]: "rest_frames M d i [] = []"
  by (simp add: rest_frames_def frames_def)

section \<open>A connection over time\<close>

text \<open>Bytes arrive and \<open>receive\<close> is called, in any order.\<close>

datatype tcp_event = Arrive string | Receive

definition tcp_arrive :: "string \<Rightarrow> TcpServerTransport \<Rightarrow> TcpServerTransport" where
  "tcp_arrive bytes t = t\<lparr>tcp_client := map_option (\<lambda>c. c\<lparr>incoming := incoming c @ bytes\<rparr>) (tcp_client t)\<rparr>"

fun tcp_run :: "tcp_event list \<Rightarrow> TcpServerTransport \<Rightarrow> string list \<times> TcpServerTransport" where
  "tcp_run [] t = ([], t)"
| "tcp_run (Arrive bytes # es) t = tcp_run es (tcp_arrive bytes t)"
| "tcp_run (Receive # es) t = (let (m, t) = tcp_receive t; (ms, t) = tcp_run es t
     in ((case m of None \<Rightarrow> ms | Some x \<Rightarrow> x # ms), t))"

primrec arrived :: "tcp_event list \<Rightarrow> string" where
  "arrived [] = []"
| "arrived (e # es) = (case e of Arrive bytes \<Rightarrow> bytes | Receive \<Rightarrow> []) @ arrived es"

text \<open>The one client is connected and nobody else waits; the unfinished line is within its bound.\<close>

definition tcp_serving :: "TcpServerTransport \<Rightarrow> bool" where
  "tcp_serving t \<longleftrightarrow> tcp_pending t = [] \<and> (\<exists>c. tcp_client t = Some c \<and> cl_connected c) \<and>
     length (tcp_input t) \<le> tcp_maximumLine t \<and> (tcp_discarding t \<longrightarrow> tcp_input t = [])"

definition tcp_left :: "TcpServerTransport \<Rightarrow> string" where
  "tcp_left t = (case tcp_client t of None \<Rightarrow> [] | Some c \<Rightarrow> incoming c)"

lemma tcp_arrive_frame [simp]:
  "tcp_maximumLine (tcp_arrive bytes t) = tcp_maximumLine t"
  "tcp_discarding (tcp_arrive bytes t) = tcp_discarding t" "tcp_input (tcp_arrive bytes t) = tcp_input t"
  by (simp_all add: tcp_arrive_def)

lemma tcp_arrive_serving [simp]:
  "tcp_serving t \<Longrightarrow> tcp_serving (tcp_arrive bytes t)"
  "tcp_serving t \<Longrightarrow> tcp_left (tcp_arrive bytes t) = tcp_left t @ bytes"
  by (auto simp: tcp_serving_def tcp_arrive_def tcp_left_def)

lemma tcp_receive_serving:
  assumes "tcp_serving t" "tcp_receive t = (m, t')"
  shows "tcp_serving t' \<and> tcp_maximumLine t' = tcp_maximumLine t \<and>
    rest_frames (tcp_maximumLine t) (tcp_discarding t) (tcp_input t) (tcp_left t @ later) =
      (case m of None \<Rightarrow> [] | Some x \<Rightarrow> [x]) @
      rest_frames (tcp_maximumLine t) (tcp_discarding t') (tcp_input t') (tcp_left t' @ later)"
    and "length (tcp_left t) \<le> length (tcp_left t') + TCP_BUDGET"
    and "tcp_left t \<noteq> [] \<Longrightarrow> length (tcp_left t') < length (tcp_left t)"
proof -
  from assms(1) obtain c where c: "tcp_client t = Some c" "cl_connected c" "tcp_accept t = t"
    by (auto simp: tcp_serving_def tcp_accept_def)
  obtain d i rest where l: "tcp_loop (tcp_maximumLine t) TCP_BUDGET (tcp_discarding t) (tcp_input t) (incoming c) =
      (m, d, i, rest)" and t': "t' = t\<lparr>tcp_client := Some (c\<lparr>incoming := rest\<rparr>), tcp_input := i, tcp_discarding := d\<rparr>"
    using assms(2) c by (auto simp: tcp_receive_def split: prod.splits)
  have inp: "length (tcp_input t) \<le> tcp_maximumLine t" "tcp_discarding t \<longrightarrow> tcp_input t = []"
    using assms(1) by (simp_all add: tcp_serving_def)
  show "tcp_serving t' \<and> tcp_maximumLine t' = tcp_maximumLine t \<and>
    rest_frames (tcp_maximumLine t) (tcp_discarding t) (tcp_input t) (tcp_left t @ later) =
      (case m of None \<Rightarrow> [] | Some x \<Rightarrow> [x]) @
      rest_frames (tcp_maximumLine t) (tcp_discarding t') (tcp_input t') (tcp_left t' @ later)"
    using tcp_loop_frames [OF l inp] tcp_loop_input [OF l inp] c assms(1)
    by (simp add: t' tcp_left_def tcp_serving_def)
  show "length (tcp_left t) \<le> length (tcp_left t') + TCP_BUDGET"
    "tcp_left t \<noteq> [] \<Longrightarrow> length (tcp_left t') < length (tcp_left t)"
    using tcp_loop_consumes [OF l] by (simp_all add: t' tcp_left_def c TCP_BUDGET_def)
qed

lemma tcp_run_frames:
  "tcp_serving t \<Longrightarrow> tcp_run es t = (ms, t') \<Longrightarrow> tcp_serving t' \<and>
     rest_frames (tcp_maximumLine t) (tcp_discarding t) (tcp_input t) (tcp_left t @ arrived es @ later) =
       ms @ rest_frames (tcp_maximumLine t) (tcp_discarding t') (tcp_input t') (tcp_left t' @ later)"
proof (induction es arbitrary: t ms)
  case (Cons e es)
  show ?case
  proof (cases e)
    case (Arrive bytes)
    with Cons.IH [of "tcp_arrive bytes t" ms] Cons.prems show ?thesis
      by simp
  next
    case Receive
    obtain m t1 ms1 where r: "tcp_receive t = (m, t1)" "tcp_run es t1 = (ms1, t')"
        "ms = (case m of None \<Rightarrow> ms1 | Some x \<Rightarrow> x # ms1)"
      using Cons.prems(2) Receive by (auto split: prod.splits)
    from tcp_receive_serving(1) [OF Cons.prems(1) r(1), of "arrived es @ later"] Cons.IH [of t1 ms1] r(2,3)
    show ?thesis by (auto simp: Receive split: option.splits)
  qed
qed auto

definition new_connection :: "nat \<Rightarrow> TcpServerTransport" where
  "new_connection maximumLine = \<lparr>tcp_pending = [], tcp_client = Some \<lparr>incoming = [], printed = [], cl_connected = True\<rparr>,
     tcp_input = [], tcp_maximumLine = maximumLine, tcp_discarding = False\<rparr>"

text \<open>C15: However the bytes of a TCP connection are split into pieces and whenever \<open>receive\<close> is called
  between them, the messages delivered once all bytes are consumed are exactly the non-empty lines of
  the stream that fit into the maximum, in order: none is lost, joined, cut or delivered twice, and of
  a longer line nothing is delivered.\<close>

theorem tcp_framing:
  assumes "tcp_run es (new_connection M) = (ms, t)" "tcp_left t = []"
  shows "ms = frames M (arrived es)"
proof -
  have "tcp_serving (new_connection M)" by (simp add: tcp_serving_def new_connection_def)
  from tcp_run_frames [OF this assms(1), of "[]"] assms(2) show ?thesis
    by (simp add: new_connection_def tcp_left_def rest_frames_def frames_def)
qed

theorem tcp_framing_witness:
  "fst (tcp_run [Arrive ''AB'', Receive, Arrive [CHR ''C'', CHR 0x0A, CHR ''D'', CHR ''E'', CHR ''F'', CHR ''G'', CHR 0x0A],
     Receive, Receive, Receive] (new_connection 3)) = [''ABC'']"
proof -
  let ?r = "tcp_run [Arrive ''AB'', Receive, Arrive [CHR ''C'', CHR 0x0A, CHR ''D'', CHR ''E'', CHR ''F'', CHR ''G'', CHR 0x0A],
     Receive, Receive, Receive] (new_connection 3)"
  have "tcp_left (snd ?r) = []" by code_simp
  from tcp_framing [OF prod.collapse [symmetric] this] show ?thesis
    by (simp add: frames_def line_end_def)
qed

text \<open>One call of \<open>receive\<close> on a served TCP connection consumes at most 128 bytes, so a client that
  keeps sending cannot hold up the runtime loop, and it consumes at least one byte when there is one,
  so no input is stuck; the unfinished line it keeps never exceeds the maximum.\<close>

theorem tcp_receive_bounded:
  assumes "tcp_serving t"
  shows "length (tcp_left t) \<le> length (tcp_left (snd (tcp_receive t))) + 128 \<and>
    (tcp_left t \<noteq> [] \<longrightarrow> length (tcp_left (snd (tcp_receive t))) < length (tcp_left t)) \<and>
    length (tcp_input (snd (tcp_receive t))) \<le> tcp_maximumLine t"
proof -
  obtain m t' where r: "tcp_receive t = (m, t')" by (cases "tcp_receive t")
  from tcp_receive_serving(1) [OF assms r, of "[]"] tcp_receive_serving(2,3) [OF assms r] show ?thesis
    by (auto simp: r TCP_BUDGET_def tcp_serving_def)
qed

theorem tcp_receive_bounded_witness:
  "length (tcp_input (snd (tcp_receive (tcp_arrive (replicate 300 (CHR ''x'')) (new_connection 64))))) \<le> 64"
  using tcp_receive_bounded [of "tcp_arrive (replicate 300 (CHR ''x'')) (new_connection 64)"]
  by (simp add: tcp_serving_def new_connection_def tcp_arrive_def)

section \<open>Long lines on a serial stream\<close>

lemma stream_loop_fill:
  "\<forall>c \<in> set xs. \<not> line_end c \<Longrightarrow> length i + length xs \<le> M \<Longrightarrow>
     stream_loop M i (xs @ cs) = stream_loop M (i @ xs) cs"
  by (induction xs arbitrary: i) auto

text \<open>The serial transport has no state for a line that is too long: it forgets the first part,
  drops one more byte, and delivers the rest of the same line as a message of its own.\<close>

theorem stream_long_line_tail:
  assumes "\<forall>c \<in> set (xs @ y # zs). \<not> line_end c" "length xs = M" "zs \<noteq> []" "length zs \<le> M"
  shows "fst (stream_receive \<lparr>st_stream = \<lparr>incoming = xs @ y # zs @ [CHR 0x0A], printed = ps\<rparr>,
    st_input = [], st_maximumLine = M\<rparr>) = Some zs"
proof -
  have "stream_loop M [] (xs @ y # zs @ [CHR 0x0A]) = stream_loop M xs (y # zs @ [CHR 0x0A])"
    using assms(1,2) by (subst stream_loop_fill) auto
  also have "\<dots> = stream_loop M [] (zs @ [CHR 0x0A])" using assms(1,2) by simp
  also have "\<dots> = stream_loop M zs [CHR 0x0A]"
    using assms(1,4) stream_loop_fill [of zs "[]" M "[CHR 0x0A]"] by simp
  finally show ?thesis using assms(3) by (simp add: stream_receive_def line_end_def)
qed

theorem stream_long_line_tail_witness:
  "fst (stream_receive \<lparr>st_stream = \<lparr>incoming = ''abcd'' @ CHR ''e'' # ''RUN'' @ [CHR 0x0A], printed = []\<rparr>,
    st_input = [], st_maximumLine = 4\<rparr>) = Some ''RUN''"
  by (rule stream_long_line_tail) (simp_all add: line_end_def)

end
