(* ===== verification/Runtime_Core.thy ===== *)
theory Runtime_Core
  imports Command_Dispatcher Sequence_Runs Self_Test Noob_Transports
begin

text \<open>
  The runtime of \<open>src/esp/common/src/core/noob_runtime_core.{h,cpp}\<close>: the constructor that registers
  the common functions, the tables of transports and services, and the cooperative loop. A transport
  and a background service are the functions behind their virtual methods; a service gets the
  registry that the objects of the runtime point to. The world of the constructor's side effects
  (\<open>runtime_boot\<close>) sees the registry as it is when registration is complete, because the sequence
  service keeps a pointer to it.
\<close>

section \<open>The runtime\<close>

record 'w NoobTransport =
  tr_receive :: "'w \<Rightarrow> string option \<times> 'w"
  tr_send :: "string \<Rightarrow> 'w \<Rightarrow> 'w"

type_synonym 'w BackgroundService = "'w NativeRegistry \<Rightarrow> 'w \<Rightarrow> string option \<times> 'w"

record 'w NoobRuntime =
  rt_dispatcher :: "'w CommandDispatcher"
  rt_transports :: "'w NoobTransport list"
  rt_services :: "'w BackgroundService list"

definition MAX_TRANSPORTS :: nat where "MAX_TRANSPORTS = 4"
definition MAX_SERVICES :: nat where "MAX_SERVICES = 12"

definition TIME_NOW :: u16 where "TIME_NOW = 1"
definition TIME_RESET :: u16 where "TIME_RESET = 2"
definition SEQUENCE_SET :: u16 where "SEQUENCE_SET = 3"
definition SEQUENCE_START :: u16 where "SEQUENCE_START = 4"
definition SEQUENCE_STOP :: u16 where "SEQUENCE_STOP = 5"
definition SEQUENCE_STATUS :: u16 where "SEQUENCE_STATUS = 6"
definition SEQUENCE_CLEAR :: u16 where "SEQUENCE_CLEAR = 7"
definition SEQUENCE_POP :: u16 where "SEQUENCE_POP = 8"
definition SEQUENCE_QUEUE_SIZE :: u16 where "SEQUENCE_QUEUE_SIZE = 9"
definition SEQUENCE_QUEUE_CLEAR :: u16 where "SEQUENCE_QUEUE_CLEAR = 10"
definition SEQUENCE_BUSY :: u16 where "SEQUENCE_BUSY = 11"
definition SEQUENCE_FIELD :: u16 where "SEQUENCE_FIELD = 12"
definition SELF_TEST :: u16 where "SELF_TEST = 13"

lemmas function_ids = TIME_NOW_def TIME_RESET_def SEQUENCE_SET_def SEQUENCE_START_def SEQUENCE_STOP_def
  SEQUENCE_STATUS_def SEQUENCE_CLEAR_def SEQUENCE_POP_def SEQUENCE_QUEUE_SIZE_def
  SEQUENCE_QUEUE_CLEAR_def SEQUENCE_BUSY_def SEQUENCE_FIELD_def SELF_TEST_def

definition add_native :: "u16 \<Rightarrow> string \<Rightarrow> 'w NativeFunction \<Rightarrow> 'w NativeRegistry \<Rightarrow> 'w NativeRegistry" where
  "add_native i n f r = snd (registry_add i (Some n) (Some f) r)"

definition add_object :: "u16 \<Rightarrow> string \<Rightarrow> 'w NoobFunction \<Rightarrow> 'w NativeRegistry \<Rightarrow> 'w NativeRegistry" where
  "add_object i n f r = snd (registry_addObject i (Some n) f r)"

definition common_registry :: "('a rt_world_scheme) NativeRegistry" where
  "common_registry =
     (let r = add_native TIME_NOW ''TIME_NOW'' time_now empty_registry;
          r = add_native TIME_RESET ''TIME_RESET'' time_reset r;
          r = add_object SELF_TEST ''SELF_TEST'' SelfTestFunction r;
          r = add_object SEQUENCE_SET ''SEQUENCE_SET'' configurationFunction r;
          r = add_native SEQUENCE_START ''SEQUENCE_START'' seq_start r;
          r = add_native SEQUENCE_STOP ''SEQUENCE_STOP'' seq_stop r;
          r = add_native SEQUENCE_STATUS ''SEQUENCE_STATUS'' seq_status r;
          r = add_native SEQUENCE_CLEAR ''SEQUENCE_CLEAR'' seq_clear r;
          r = add_native SEQUENCE_POP ''SEQUENCE_POP'' seq_pop r;
          r = add_native SEQUENCE_QUEUE_SIZE ''SEQUENCE_QUEUE_SIZE'' seq_queueSize r;
          r = add_native SEQUENCE_QUEUE_CLEAR ''SEQUENCE_QUEUE_CLEAR'' seq_clearQueue r;
          r = add_native SEQUENCE_BUSY ''SEQUENCE_BUSY'' seq_busy r
      in add_native SEQUENCE_FIELD ''SEQUENCE_FIELD'' seq_field r)"

definition common_capabilities :: "string list" where
  "common_capabilities = fold (\<lambda>c cs. snd (capability_add (Some c) cs))
     [''BOOT_SELF_TEST'', ''TIME_MONOTONIC'', ''THREAD_VM'', ''SEQUENCES'', ''NATIVE_ASCII''] []"

definition addTransport :: "'w NoobTransport \<Rightarrow> 'w NoobRuntime \<Rightarrow> bool \<times> 'w NoobRuntime" where
  "addTransport t rt = (if length (rt_transports rt) \<ge> MAX_TRANSPORTS then (False, rt)
     else (True, rt\<lparr>rt_transports := rt_transports rt @ [t]\<rparr>))"

definition addService :: "'w BackgroundService \<Rightarrow> 'w NoobRuntime \<Rightarrow> bool \<times> 'w NoobRuntime" where
  "addService s rt = (if length (rt_services rt) \<ge> MAX_SERVICES then (False, rt)
     else (True, rt\<lparr>rt_services := rt_services rt @ [s]\<rparr>))"

definition runtime_setVmLifecycle :: "'w NoobVmLifecycle \<Rightarrow> 'w NoobRuntime \<Rightarrow> 'w NoobRuntime" where
  "runtime_setVmLifecycle l rt = rt\<lparr>rt_dispatcher := setVmLifecycle (Some l) (rt_dispatcher rt)\<rparr>"

definition new_runtime :: "string \<Rightarrow> string \<Rightarrow> ('a rt_world_scheme) NoobRuntime" where
  "new_runtime name version =
     snd (addService runner_tick (snd (addService self_test_tick
       \<lparr>rt_dispatcher = \<lparr>noobName = name, firmwareVersion = version, natives = common_registry,
          capabilities = common_capabilities, lifecycle = None\<rparr>,
        rt_transports = [], rt_services = []\<rparr>)))"

definition runtime_boot :: "('a rt_world_scheme) NativeRegistry \<Rightarrow> 'a rt_world_scheme \<Rightarrow> 'a rt_world_scheme" where
  "runtime_boot reg w = seq_begin reg (w\<lparr>selfTest := self_test_bind (selfTest w)\<rparr>)"

section \<open>The loop\<close>

definition broadcast :: "string \<Rightarrow> 'w NoobTransport list \<Rightarrow> 'w \<Rightarrow> 'w" where
  "broadcast event ts w = fold (\<lambda>t. tr_send t event) ts w"

fun loop_services :: "'w NativeRegistry \<Rightarrow> 'w NoobTransport list \<Rightarrow> 'w BackgroundService list \<Rightarrow> 'w \<Rightarrow> 'w" where
  "loop_services reg ts [] w = w"
| "loop_services reg ts (s # ss) w =
     (let (event, w) = s reg w
      in loop_services reg ts ss (case event of None \<Rightarrow> w
           | Some e \<Rightarrow> if e = [] then w else broadcast e ts w))"

definition answer :: "('a vm_world_scheme) CommandDispatcher \<Rightarrow> string \<Rightarrow> 'a vm_world_scheme
    \<Rightarrow> string \<times> 'a vm_world_scheme" where
  "answer d frame w = (case protocol_parse frame of (request, error) \<Rightarrow>
     (case error of
        Some e \<Rightarrow> (protocol_fail (if requestId request = [] then ''-'' else requestId request)
                     ''BAD_FRAME'' e, w)
      | None \<Rightarrow> dispatch d request w))"

fun loop_transports :: "('a vm_world_scheme) CommandDispatcher \<Rightarrow> ('a vm_world_scheme) NoobTransport list
    \<Rightarrow> 'a vm_world_scheme \<Rightarrow> 'a vm_world_scheme" where
  "loop_transports d [] w = w"
| "loop_transports d (t # ts) w =
     (let (frame, w) = tr_receive t w
      in case frame of None \<Rightarrow> loop_transports d ts w
         | Some f \<Rightarrow> (let (reply, w) = answer d f w in loop_transports d ts (tr_send t reply w)))"

definition INSTRUCTION_BUDGET :: nat where "INSTRUCTION_BUDGET = 32"

definition runtime_loop :: "('a vm_world_scheme) NoobRuntime \<Rightarrow> 'a vm_world_scheme
    \<Rightarrow> 'a vm_world_scheme option" where
  "runtime_loop rt w =
     (let d = rt_dispatcher rt; ts = rt_transports rt in
      case vm_tick (natives d) INSTRUCTION_BUDGET w of None \<Rightarrow> None
      | Some w \<Rightarrow> Some (loop_transports d ts (loop_services (natives d) ts (rt_services rt) w)))"

end
