(* ===== verification/Runtime_Frames.thy ===== *)
theory Runtime_Frames
  imports Runtime_Core
begin

text \<open>
  What the machine, the dispatcher and the two common services leave alone. A fact about the world
  that the registered natives keep is carried through each of them by a locale whose laws say which
  part of the world the fact does not depend on; the composition of a loop pass rests on these.
\<close>

section \<open>Facts about the rest of the world\<close>

text \<open>
  A fact about the world that every registered native keeps, and that does not depend on the machine
  and the clock, is kept by the machine and by the dispatcher.
\<close>

definition registry_keeps :: "('w \<Rightarrow> bool) \<Rightarrow> 'w NativeRegistry \<Rightarrow> bool" where
  "registry_keeps Q reg \<longleftrightarrow> (\<forall>e \<in> set (entries reg). \<forall>f. ent_impl e = Some f \<longrightarrow>
     (\<forall>args ascii w. Q w \<longrightarrow> Q (snd (function_callMixed f args ascii w))))"

lemma registry_keeps_calls:
  assumes "registry_keeps Q reg" "e \<in> set (entries reg)" "Q w"
  shows "Q (snd (registry_callMixed e args s w))" "Q (snd (registry_call e args w))"
    "Q (snd (registry_callText e s w))"
  using assms by (auto simp: registry_keeps_def registry_callMixed_def registry_call_def registry_callText_def
      split: option.splits)

lemma ifE: "(if c then a else b) = x \<Longrightarrow> (a = x \<Longrightarrow> P) \<Longrightarrow> (b = x \<Longrightarrow> P) \<Longrightarrow> P"
  by (cases c) simp_all

locale machine_frame =
  fixes Q :: "'a vm_world_scheme \<Rightarrow> bool" and reg :: "('a vm_world_scheme) NativeRegistry"
  assumes native: "registry_keeps Q reg"
    and vm_free: "Q (w\<lparr>vm := v\<rparr>) = Q w"
    and clock_free: "Q (w\<lparr>clock_reads := n\<rparr>) = Q w"
begin

lemma on_vm_frame: "on_vm f w = Some w' \<Longrightarrow> Q w \<Longrightarrow> Q w'"
  by (auto simp: on_vm_def vm_free bind_eq_Some_conv)

lemma syscall_frame: "syscall reg opcode d i args s w = Some w' \<Longrightarrow> Q w \<Longrightarrow> Q w'"
proof (cases "find_id reg i")
  case (Some e)
  assume *: "syscall reg opcode d i args s w = Some w'" "Q w"
  have "Q (snd (registry_callMixed e args s w))"
    using registry_keeps_calls(1) [OF native] find_id_Some [OF Some] *(2) by blast
  with * Some show ?thesis
    by (auto simp: syscall_def vm_free Let_def bind_eq_Some_conv split: if_splits option.splits prod.splits)
qed (auto simp: syscall_def vm_free)

lemma exec_syscall_text_frame: "exec_syscall_text reg opcode d i args v w = Some w' \<Longrightarrow> Q w \<Longrightarrow> Q w'"
  unfolding exec_syscall_text_def
  by (erule ifE; (erule ifE)?) (auto simp: vm_free bind_eq_Some_conv dest!: syscall_frame split: if_splits)

lemma exec_syscall_args_frame: "exec_syscall_args reg opcode d i count v w = Some w' \<Longrightarrow> Q w \<Longrightarrow> Q w'"
  unfolding exec_syscall_args_def
  by (elim ifE) (auto simp: vm_free bind_eq_Some_conv dest!: exec_syscall_text_frame split: option.splits)

lemma exec_syscall_frame: "exec_syscall reg opcode w = Some w' \<Longrightarrow> Q w \<Longrightarrow> Q w'"
  unfolding exec_syscall_def Let_def
  by (elim ifE) (auto simp: vm_free bind_eq_Some_conv dest!: exec_syscall_args_frame)

lemma exec_wait_frame: "exec_wait w = Some w' \<Longrightarrow> Q w \<Longrightarrow> Q w'"
  by (auto simp: exec_wait_def vm_free clock_free millis_def Let_def bind_eq_Some_conv split: if_splits)

lemma executeOne_frame:
  assumes "executeOne reg w = Some w'" "Q w"
  shows "Q w'"
proof (cases "need 1 (vm w)")
  case False
  with assms show ?thesis by (auto simp: executeOne_def vm_free)
next
  case True
  with assms(1) obtain opcode v where "read8 (vm w) = Some (opcode, v)"
    by (auto simp: executeOne_def bind_eq_Some_conv)
  with True assms(1) have *: "(let w = w\<lparr>vm := v\<rparr> in
     if opcode = 0x00 then Some (w\<lparr>vm := v\<lparr>vm_state := HALTED\<rparr>\<rparr>)
     else if opcode = 0x01 then on_vm exec_imm w
     else if opcode = 0x02 then on_vm exec_mov w
     else if 0x03 \<le> opcode \<and> opcode \<le> 0x06 then on_vm (exec_arith opcode) w
     else if opcode = 0x10 then on_vm exec_jump w
     else if opcode = 0x11 \<or> opcode = 0x12 then on_vm (exec_branch opcode) w
     else if opcode = 0x13 then on_vm exec_call w
     else if opcode = 0x14 then on_vm exec_ret w
     else if opcode = 0x20 \<or> opcode = 0x22 then exec_syscall reg opcode w
     else if opcode = 0x21 then exec_wait w
     else if opcode = 0x30 then on_vm exec_load w
     else if opcode = 0x31 then on_vm exec_store w
     else Some (w\<lparr>vm := fault (''unknown opcode '' @ show_nat (unat opcode)) v\<rparr>)) = Some w'"
    by (simp only: executeOne_def if_False if_True not_True_eq_False Option.bind.simps prod.case)
  have v: "Q (w\<lparr>vm := v\<rparr>)" using assms(2) by (simp only: vm_free)
  from * [unfolded Let_def] show ?thesis
    by (elim ifE) (use v in \<open>auto simp: vm_free dest: on_vm_frame exec_syscall_frame exec_wait_frame\<close>)
qed

lemma run_budget_frame: "run_budget reg n w = Some w' \<Longrightarrow> Q w \<Longrightarrow> Q w'"
  by (induction n arbitrary: w) (auto simp: bind_eq_Some_conv split: if_splits dest: executeOne_frame)

lemma vm_tick_frame: "vm_tick reg n w = Some w' \<Longrightarrow> Q w \<Longrightarrow> Q w'"
  by (auto simp: vm_tick_def millis_def vm_free clock_free Let_def split: if_splits elim!: run_budget_frame)

lemma calls_frame:
  assumes "natives d = reg" "Q w"
  shows "Q (snd (callNative d req w))" "Q (snd (callTextNative d req w))" "Q (snd (callMixedNative d req w))"
  using assms
  by (auto simp: callNative_def callTextNative_def callMixedNative_def Let_def
      dest: entry_found intro: registry_keeps_calls [OF native] split: prod.splits option.splits sum.splits)

lemma with_hook_frame:
  assumes "\<forall>l. lifecycle d = Some l \<longrightarrow> (\<forall>w. Q w \<longrightarrow> Q (snd (hook l w)))" "Q w"
  shows "Q (snd (with_hook hook d rid p w))"
  using assms by (auto simp: with_hook_def Let_def split: option.splits prod.splits) (metis snd_conv)

lemma dispatch_frame:
  assumes d: "natives d = reg"
    and hooks: "\<forall>l. lifecycle d = Some l \<longrightarrow> (\<forall>w. Q w \<longrightarrow> Q (snd (onStarted l w)))"
      "\<forall>l. lifecycle d = Some l \<longrightarrow> (\<forall>w. Q w \<longrightarrow> Q (snd (onStopped l w)))"
      "\<forall>l. lifecycle d = Some l \<longrightarrow> (\<forall>w. Q w \<longrightarrow> Q (snd (onReset l w)))"
    and "Q w"
  shows "Q (snd (dispatch d req w))"
proof -
  have v: "Q (w\<lparr>vm := v\<rparr>)" for v using assms(5) by (simp only: vm_free)
  have load: "Q (snd (dispatch_load req w))"
    using v assms(5) by (auto simp: dispatch_load_def split: sum.splits)
  have run: "Q (snd (dispatch_run d req w))"
    using v assms(5) with_hook_frame [OF hooks(1)] by (auto simp: dispatch_run_def split: sum.splits)
  show ?thesis
    using load run calls_frame [OF d assms(5)] with_hook_frame [OF hooks(2)] with_hook_frame [OF hooks(3)] v assms(5)
    by (simp add: dispatch_def Let_def)
qed

end

text \<open>The sequence runner changes the sequence state and what the called natives change.\<close>

locale runner_frame =
  fixes Q :: "'a seq_world_scheme \<Rightarrow> bool" and reg :: "('a seq_world_scheme) NativeRegistry"
  assumes native: "registry_keeps Q reg"
    and seq_free: "Q (w\<lparr>seq := s\<rparr>) = Q w"
    and clock_free: "Q (w\<lparr>clock_reads := n\<rparr>) = Q w"
begin

lemma on_seq_frame: "Q (on_seq f w) = Q w"
  by (simp add: on_seq_def seq_free)

lemma upd_track_frame: "Q (upd_track_channel slot f w) = Q w"
  by (simp add: upd_track_channel_def on_seq_frame)

lemma invoke_frame:
  assumes "Q w"
  shows "Q (channel_invoke (track_channel slot) (upd_track_channel slot) reg x app w)"
proof -
  let ?w = "upd_track_channel slot (\<lambda>c. c\<lparr>ch_busy := True\<rparr>) w"
  have w: "Q ?w" using assms by (simp only: upd_track_frame)
  show ?thesis
  proof (cases "find_id reg (ch_functionId (track_channel slot ?w))")
    case None
    with w show ?thesis by (simp add: channel_invoke_def Let_def upd_track_frame)
  next
    case (Some e)
    then have "Q (snd (registry_callMixed e args s ?w))" for args s
      using registry_keeps_calls(1) [OF native _ w] find_id_Some by blast
    with Some show ?thesis by (simp add: channel_invoke_def Let_def upd_track_frame case_prod_unfold)
  qed
qed

lemma runner_loop_frame: "Q w \<Longrightarrow> Q (snd (snd (runner_loop reg now slots invoked w)))"
proof (induction slots arbitrary: invoked w)
  case (Cons slot slots)
  from Cons.IH [OF Cons.prems] Cons.IH invoke_frame [OF Cons.prems] show ?case
    by (simp add: Let_def on_seq_frame)
qed simp

lemma runner_tick_frame:
  assumes "Q w"
  shows "Q (snd (runner_tick reg w))"
proof -
  have "Q (snd (snd (runner_loop reg now [0..<MAX_TRACKS] False (w\<lparr>clock_reads := n\<rparr>))))" for now n
    using assms by (intro runner_loop_frame) (simp only: clock_free)
  with assms show ?thesis
    by (simp add: runner_tick_def millis_def on_seq_frame case_prod_unfold Let_def split: option.split)
qed

end

text \<open>The self test changes its own object and what the probed natives change.\<close>

locale self_test_frame =
  fixes Q :: "'a rt_world_scheme \<Rightarrow> bool" and reg :: "('a rt_world_scheme) NativeRegistry"
  assumes native: "registry_keeps Q reg"
    and self_free: "Q (w\<lparr>selfTest := s\<rparr>) = Q w"
    and clock_free: "Q (w\<lparr>clock_reads := n\<rparr>) = Q w"
begin

lemma announce_frame: "Q w \<Longrightarrow> Q (snd (announce w))"
  by (simp add: announce_def self_test_call_def millis_def Let_def self_free clock_free)

lemma probe_call_frame: "Q w \<Longrightarrow> Q (snd (snd (probe_call reg p w)))"
  by (auto simp: probe_call_def split: option.splits dest!: find_id_Some intro: registry_keeps_calls [OF native])

lemma run_probe_frame:
  assumes "Q w"
  shows "Q (snd (run_probe reg k w))"
proof -
  obtain found r w' where c: "probe_call reg (st_probes (selfTest w) ! k) w = (found, r, w')"
    by (cases "probe_call reg (st_probes (selfTest w) ! k) w")
  with probe_call_frame [OF assms, of "st_probes (selfTest w) ! k"] show ?thesis
    by (simp add: run_probe_def millis_def Let_def self_free clock_free)
qed

lemma self_test_tick_frame: "Q w \<Longrightarrow> Q (snd (self_test_tick reg w))"
  by (auto simp: self_test_tick_def millis_def Let_def self_free clock_free intro!: announce_frame run_probe_frame
      split: prod.splits if_splits)

end

end
