(* ===== verification/Registration.thy ===== *)
theory Registration
  imports Native_Registry
begin

text \<open>
  Registering a table of functions at once, as the boards do it: when all identifiers and all names
  (without case) differ and the table fits, every registration succeeds and the registry holds the
  table in order.
\<close>

definition numeric_entry :: "u16 \<Rightarrow> string \<Rightarrow> 'w NativeFunction \<Rightarrow> 'w NativeEntry" where
  "numeric_entry i n f = \<lparr>ent_id = i, ent_name = n, ent_impl = Some (NumericFunctionAdapter (Some f))\<rparr>"

definition text_entry :: "u16 \<Rightarrow> string \<Rightarrow> 'w NativeTextFunction \<Rightarrow> 'w NativeEntry" where
  "text_entry i n f = \<lparr>ent_id = i, ent_name = n, ent_impl = Some (TextFunctionAdapter (Some f))\<rparr>"

definition mixed_entry_of :: "u16 \<Rightarrow> string \<Rightarrow> 'w NativeMixedFunction \<Rightarrow> 'w NativeEntry" where
  "mixed_entry_of i n f = \<lparr>ent_id = i, ent_name = n, ent_impl = Some (MixedFunctionAdapter (Some f))\<rparr>"

definition object_entry :: "u16 \<Rightarrow> string \<Rightarrow> 'w NoobFunction \<Rightarrow> 'w NativeEntry" where
  "object_entry i n f = \<lparr>ent_id = i, ent_name = n, ent_impl = Some f\<rparr>"

lemmas entry_defs = numeric_entry_def text_entry_def mixed_entry_of_def object_entry_def

lemma entry_select [simp]:
  "ent_id (numeric_entry i n f) = i" "ent_name (numeric_entry i n f) = n"
  "ent_id (text_entry i n g) = i" "ent_name (text_entry i n g) = n"
  "ent_id (mixed_entry_of i n h) = i" "ent_name (mixed_entry_of i n h) = n"
  "ent_id (object_entry i n k) = i" "ent_name (object_entry i n k) = n"
  "ent_impl (numeric_entry i n f) = Some (NumericFunctionAdapter (Some f))"
  "ent_impl (text_entry i n g) = Some (TextFunctionAdapter (Some g))"
  "ent_impl (mixed_entry_of i n h) = Some (MixedFunctionAdapter (Some h))"
  "ent_impl (object_entry i n k) = Some k"
  by (simp_all add: entry_defs)

text \<open>The four registration methods.\<close>

lemma insert_entry:
  "registry_add i (Some n) (Some f) = registry_insert (numeric_entry i n f)"
  "registry_addText i (Some n) (Some g) = registry_insert (text_entry i n g)"
  "registry_addMixed i (Some n) (Some h) = registry_insert (mixed_entry_of i n h)"
  "registry_addObject i (Some n) k = registry_insert (object_entry i n k)"
  by (simp_all add: fun_eq_iff registry_insert_def registry_add_defs)

text \<open>\<open>ok &= registry.add(...)\<close> for every row.\<close>

fun register_all :: "'w NativeEntry list \<Rightarrow> bool \<Rightarrow> 'w NativeRegistry \<Rightarrow> bool \<times> 'w NativeRegistry" where
  "register_all [] ok r = (ok, r)"
| "register_all (e # es) ok r = (let (b, r) = registry_insert e r in register_all es (ok \<and> b) r)"

definition table_ok :: "'w NativeEntry list \<Rightarrow> bool" where
  "table_ok es \<longleftrightarrow> length es \<le> MAX_FUNCTIONS \<and> distinct (map ent_id es) \<and>
     distinct (map (\<lambda>e. toUpperCase (ent_name e)) es) \<and> (\<forall>e \<in> set es. ent_impl e \<noteq> None)"

lemma registry_insert_new:
  assumes "table_ok (entries r @ [e])"
  shows "registry_insert e r = (True, r\<lparr>entries := entries r @ [e]\<rparr>)"
proof -
  from assms obtain f where f: "ent_impl e = Some f" by (auto simp: table_ok_def)
  have "find_id r (ent_id e) = None"
    using assms by (auto simp: table_ok_def find_id_def find_None_iff image_iff)
  moreover have "find_name r (ent_name e) = None"
    using assms by (auto simp: table_ok_def find_name_def find_None_iff equalsIgnoreCase_def image_iff)
  ultimately have "\<not> registry_full_or_taken (ent_id e) (ent_name e) r"
    using assms by (simp add: table_ok_def registry_full_or_taken_def)
  moreover have "\<lparr>ent_id = ent_id e, ent_name = ent_name e, ent_impl = Some f\<rparr> = e"
    using f NativeEntry_rebuild [of e] by simp
  ultimately show ?thesis using f
    by (simp add: registry_insert_def registry_addObject_def registry_store_def)
qed

lemma table_ok_prefix: "table_ok (xs @ ys) \<Longrightarrow> table_ok xs"
  by (auto simp: table_ok_def)

lemma register_all_table:
  "table_ok (entries r @ es) \<Longrightarrow> register_all es ok r = (ok, r\<lparr>entries := entries r @ es\<rparr>)"
proof (induction es arbitrary: r ok)
  case (Cons e es)
  have "table_ok (entries r @ [e])" using Cons.prems table_ok_prefix [of "entries r @ [e]" es] by simp
  with Cons.IH [of "r\<lparr>entries := entries r @ [e]\<rparr>" ok] Cons.prems show ?case
    by (simp add: registry_insert_new)
qed simp

lemma register_all_append:
  "register_all (xs @ ys) ok r = (let (ok, r) = register_all xs ok r in register_all ys ok r)"
  by (induction xs arbitrary: ok r) (simp_all add: case_prod_unfold Let_def)

lemma table_ok_wf: "table_ok (entries r) \<longleftrightarrow> registry_wf r"
  by (simp add: table_ok_def registry_wf_def comp_def)

end
