(* ===== verification/Runtime_Runs.thy ===== *)
theory Runtime_Runs
  imports Runtime_Frames Registration
begin

text \<open>
  Passes of the runtime loop: they return, keep the machine, the sequence service and the self test
  well formed, and answer every frame on the transport that delivered it. \<open>usb_world\<close> is the world of
  a firmware whose first transport is the serial stream, as in
  \<open>src/iris/firmware/iris_noob/iris_noob.ino\<close>.
\<close>

section \<open>Passes are safe\<close>

definition rt_ok :: "'a rt_world_scheme \<Rightarrow> bool" where
  "rt_ok w \<longleftrightarrow> vm_wf (vm w) \<and> seq_wf (seq w) \<and> self_test_wf (selfTest w)"

definition natives_ok :: "('a rt_world_scheme) NativeRegistry \<Rightarrow> bool" where
  "natives_ok reg \<longleftrightarrow> registry_keeps_vm reg \<and> registry_keeps_seq reg \<and>
     (\<forall>st. registry_keeps (\<lambda>w. selfTest w = st) reg)"

definition hooks_ok :: "('a rt_world_scheme) CommandDispatcher \<Rightarrow> bool" where
  "hooks_ok d \<longleftrightarrow> (\<forall>l. lifecycle d = Some l \<longrightarrow> (\<forall>h \<in> {onStarted l, onStopped l, onReset l}. \<forall>w.
     (vm_wf (vm w) \<longrightarrow> vm_wf (vm (snd (h w)))) \<and> seq (snd (h w)) = seq w \<and> selfTest (snd (h w)) = selfTest w))"

definition service_ok :: "('a rt_world_scheme) NativeRegistry \<Rightarrow> ('a rt_world_scheme) BackgroundService \<Rightarrow> bool" where
  "service_ok reg s \<longleftrightarrow> (\<forall>w. rt_ok w \<longrightarrow> rt_ok (snd (s reg w)))"

definition transport_ok :: "('a rt_world_scheme) NoobTransport \<Rightarrow> bool" where
  "transport_ok t \<longleftrightarrow> (\<forall>w m. rt_ok w \<longrightarrow> rt_ok (snd (tr_receive t w)) \<and> rt_ok (tr_send t m w))"

lemma natives_ok_keeps:
  assumes "natives_ok reg"
  shows "registry_keeps (\<lambda>w. vm_wf (vm w)) reg" "registry_keeps (\<lambda>w. seq_wf (seq w)) reg"
    "registry_keeps (\<lambda>w. self_test_wf (selfTest w)) reg" "keeps_self_test reg"
proof -
  from assms show "registry_keeps (\<lambda>w. vm_wf (vm w)) reg" "registry_keeps (\<lambda>w. seq_wf (seq w)) reg"
    by (simp_all add: natives_ok_def registry_keeps_def registry_keeps_vm_def native_keeps_vm_def
        registry_keeps_seq_def native_keeps_seq_def)
  from assms have same: "registry_keeps (\<lambda>w. selfTest w = st) reg" for st by (simp add: natives_ok_def)
  then show "registry_keeps (\<lambda>w. self_test_wf (selfTest w)) reg"
    by (simp add: registry_keeps_def)
  show "keeps_self_test reg"
    using registry_keeps_calls(1) [OF same] by (fastforce simp: keeps_self_test_def)
qed

lemma registry_keeps_conj:
  "registry_keeps P reg \<Longrightarrow> registry_keeps Q reg \<Longrightarrow> registry_keeps (\<lambda>w. P w \<and> Q w) reg"
  by (simp add: registry_keeps_def)

lemma self_test_service_ok:
  assumes "natives_ok reg"
  shows "service_ok reg self_test_tick"
proof -
  have "self_test_frame (\<lambda>w. vm_wf (vm w) \<and> seq_wf (seq w)) reg"
    using natives_ok_keeps(1,2) [OF assms] by unfold_locales (simp_all add: registry_keeps_def)
  from self_test_frame.self_test_tick_frame [OF this] show ?thesis
    using self_test_tick_wf natives_ok_keeps(4) [OF assms] by (auto simp: service_ok_def rt_ok_def)
qed

lemma runner_service_ok:
  assumes "natives_ok reg"
  shows "service_ok reg runner_tick"
proof -
  have "runner_frame (\<lambda>w. vm_wf (vm w) \<and> self_test_wf (selfTest w)) reg"
    using natives_ok_keeps(1,3) [OF assms] by unfold_locales (simp_all add: registry_keeps_def)
  from runner_frame.runner_tick_frame [OF this] show ?thesis
    using runner_tick_wf assms by (auto simp: service_ok_def rt_ok_def natives_ok_def)
qed

lemma machine_tick_ok:
  assumes "natives_ok reg" "rt_ok w"
  shows "\<exists>w'. vm_tick reg n w = Some w' \<and> rt_ok w'"
proof -
  have "machine_frame (\<lambda>w. seq_wf (seq w) \<and> self_test_wf (selfTest w)) reg"
    using natives_ok_keeps(2,3) [OF assms(1)] by unfold_locales (simp_all add: registry_keeps_def)
  note frame = machine_frame.vm_tick_frame [OF this]
  have "vm_over_natives reg" using assms(1) by unfold_locales (simp add: natives_ok_def)
  then obtain w' where "vm_tick reg n w = Some w'" "vm_wf (vm w')"
    using vm_over_natives.vm_tick_total assms(2) unfolding rt_ok_def by blast
  with frame [of n w w'] assms(2) show ?thesis by (auto simp: rt_ok_def)
qed

lemma dispatch_ok:
  assumes "natives_ok (natives d)" "hooks_ok d" "rt_ok w"
  shows "rt_ok (snd (dispatch d req w))"
proof -
  have "machine_frame (\<lambda>w. seq_wf (seq w) \<and> self_test_wf (selfTest w)) (natives d)"
    using natives_ok_keeps(2,3) [OF assms(1)] by unfold_locales (simp_all add: registry_keeps_def)
  from machine_frame.dispatch_frame [OF this refl, of w req] assms(2,3)
  have "seq_wf (seq (snd (dispatch d req w))) \<and> self_test_wf (selfTest (snd (dispatch d req w)))"
    by (simp add: rt_ok_def hooks_ok_def)
  moreover have "dispatcher_keeps_vm d"
    using assms(1,2) by (auto simp: natives_ok_def hooks_ok_def dispatcher_keeps_vm_def hook_keeps_vm_def)
  ultimately show ?thesis using dispatch_keeps_vm assms(3) by (auto simp: rt_ok_def)
qed

lemma answer_ok:
  "natives_ok (natives d) \<Longrightarrow> hooks_ok d \<Longrightarrow> rt_ok w \<Longrightarrow> rt_ok (snd (answer d frame w))"
  by (simp add: answer_def dispatch_ok split: prod.split option.split)

lemma broadcast_ok: "\<forall>t \<in> set ts. transport_ok t \<Longrightarrow> rt_ok w \<Longrightarrow> rt_ok (broadcast e ts w)"
  by (induction ts arbitrary: w) (simp_all add: broadcast_def transport_ok_def)

lemma loop_services_ok:
  "\<forall>s \<in> set ss. service_ok reg s \<Longrightarrow> \<forall>t \<in> set ts. transport_ok t \<Longrightarrow> rt_ok w \<Longrightarrow> rt_ok (loop_services reg ts ss w)"
proof (induction ss arbitrary: w)
  case (Cons s ss)
  obtain e w1 where s: "s reg w = (e, w1)" by (cases "s reg w")
  with Cons.prems have "rt_ok w1" by (metis list.set_intros(1) service_ok_def snd_conv)
  with Cons s show ?case by (auto intro!: Cons.IH broadcast_ok split: option.split)
qed simp

lemma loop_transports_ok:
  assumes "natives_ok (natives d)" "hooks_ok d"
  shows "\<forall>t \<in> set ts. transport_ok t \<Longrightarrow> rt_ok w \<Longrightarrow> rt_ok (loop_transports d ts w)"
proof (induction ts arbitrary: w)
  case (Cons t ts)
  obtain f w1 where r: "tr_receive t w = (f, w1)" by (cases "tr_receive t w")
  with Cons.prems have w1: "rt_ok w1" by (metis list.set_intros(1) transport_ok_def snd_conv)
  show ?case
  proof (cases f)
    case None
    with Cons r w1 show ?thesis by simp
  next
    case (Some frame)
    obtain reply w2 where a: "answer d frame w1 = (reply, w2)" by (cases "answer d frame w1")
    with answer_ok [OF assms w1, of frame] have "rt_ok w2" by simp
    with Cons.prems(1) have "rt_ok (tr_send t reply w2)" by (simp add: transport_ok_def)
    with Cons Some r a show ?thesis by simp
  qed
qed simp

section \<open>The common functions\<close>

lemma seq_natives_frame [simp]:
  "vm (snd (seq_set text w)) = vm w" "vm (snd (seq_setNumeric args s b w)) = vm w"
  "vm (snd (seq_start args w)) = vm w"
  "vm (snd (seq_stop args w)) = vm w" "vm (snd (seq_status args w)) = vm w" "vm (snd (seq_clear args w)) = vm w"
  "vm (snd (seq_pop args w)) = vm w" "vm (snd (seq_queueSize args w)) = vm w" "vm (snd (seq_busy args w)) = vm w"
  "vm (snd (seq_clearQueue args w)) = vm w" "vm (snd (seq_field args w)) = vm w"
  by (simp_all add: seq_set_def seq_setNumeric_def seq_start_def seq_stop_def seq_status_def seq_clear_def
      seq_pop_def seq_queueSize_def seq_busy_def seq_clearQueue_def seq_field_def on_seq_def
      upd_track_channel_def millis_def Let_def split: prod.split sum.split option.split)

lemma seq_setMixed_vm [simp]: "vm (snd (seq_setMixed args s w)) = vm w"
  by (simp add: seq_setMixed_def)

lemma seq_natives_self [simp]:
  "selfTest (snd (seq_set text w)) = selfTest w" "selfTest (snd (seq_setNumeric args s b w)) = selfTest w"
  "selfTest (snd (seq_start args w)) = selfTest w"
  "selfTest (snd (seq_stop args w)) = selfTest w" "selfTest (snd (seq_status args w)) = selfTest w"
  "selfTest (snd (seq_clear args w)) = selfTest w" "selfTest (snd (seq_pop args w)) = selfTest w"
  "selfTest (snd (seq_queueSize args w)) = selfTest w" "selfTest (snd (seq_busy args w)) = selfTest w"
  "selfTest (snd (seq_clearQueue args w)) = selfTest w" "selfTest (snd (seq_field args w)) = selfTest w"
  by (simp_all add: seq_set_def seq_setNumeric_def seq_start_def seq_stop_def seq_status_def seq_clear_def
      seq_pop_def seq_queueSize_def seq_busy_def seq_clearQueue_def seq_field_def on_seq_def
      upd_track_channel_def millis_def Let_def split: prod.split sum.split option.split)

lemma seq_setMixed_self [simp]: "selfTest (snd (seq_setMixed args s w)) = selfTest w"
  by (simp add: seq_setMixed_def)

text \<open>The registry after the constructor.\<close>

definition common_table :: "('a rt_world_scheme) NativeEntry list" where
  "common_table = [numeric_entry TIME_NOW ''TIME_NOW'' time_now, numeric_entry TIME_RESET ''TIME_RESET'' time_reset,
     object_entry SELF_TEST ''SELF_TEST'' SelfTestFunction,
     object_entry SEQUENCE_SET ''SEQUENCE_SET'' configurationFunction,
     numeric_entry SEQUENCE_START ''SEQUENCE_START'' seq_start, numeric_entry SEQUENCE_STOP ''SEQUENCE_STOP'' seq_stop,
     numeric_entry SEQUENCE_STATUS ''SEQUENCE_STATUS'' seq_status, numeric_entry SEQUENCE_CLEAR ''SEQUENCE_CLEAR'' seq_clear,
     numeric_entry SEQUENCE_POP ''SEQUENCE_POP'' seq_pop,
     numeric_entry SEQUENCE_QUEUE_SIZE ''SEQUENCE_QUEUE_SIZE'' seq_queueSize,
     numeric_entry SEQUENCE_QUEUE_CLEAR ''SEQUENCE_QUEUE_CLEAR'' seq_clearQueue,
     numeric_entry SEQUENCE_BUSY ''SEQUENCE_BUSY'' seq_busy, numeric_entry SEQUENCE_FIELD ''SEQUENCE_FIELD'' seq_field]"

lemma common_names:
  "distinct (map toUpperCase [''TIME_NOW'', ''TIME_RESET'', ''SELF_TEST'', ''SEQUENCE_SET'', ''SEQUENCE_START'',
     ''SEQUENCE_STOP'', ''SEQUENCE_STATUS'', ''SEQUENCE_CLEAR'', ''SEQUENCE_POP'', ''SEQUENCE_QUEUE_SIZE'',
     ''SEQUENCE_QUEUE_CLEAR'', ''SEQUENCE_BUSY'', ''SEQUENCE_FIELD''])"
  by code_simp

lemma common_table_ok: "table_ok common_table"
  using common_names by (simp add: table_ok_def common_table_def function_ids MAX_FUNCTIONS_def)

lemma common_register: "register_all common_table ok empty_registry = (ok, \<lparr>entries = common_table\<rparr>)"
  using register_all_table [of empty_registry common_table ok, simplified empty_registry_def, simplified,
      OF common_table_ok]
  by (simp add: empty_registry_def)

lemma common_registry_chain: "common_registry = snd (register_all common_table True empty_registry)"
  by (simp add: common_registry_def common_table_def add_native_def add_object_def insert_entry
      case_prod_unfold Let_def)

lemma common_entries: "entries common_registry = common_table"
  by (simp add: common_registry_chain common_register)

lemma numeric_keeps:
  assumes "\<And>args w. Q w \<Longrightarrow> Q (snd (f args w))" "Q w"
  shows "Q (snd (function_callMixed (NumericFunctionAdapter (Some f)) args ascii w))"
  using assms by (simp add: base_callMixed_def)

lemma time_natives_frame [simp]:
  "seq (snd (time_now args w)) = seq w" "seq (snd (time_reset args w)) = seq w"
  "selfTest (snd (time_now args u)) = selfTest u" "selfTest (snd (time_reset args u)) = selfTest u"
  by (simp_all add: time_now_def time_reset_def milliseconds_def millis_def)

lemma self_test_call_frame [simp]:
  "vm (snd (self_test_call args w)) = vm w" "seq (snd (self_test_call args w)) = seq w"
  "selfTest (snd (self_test_call args w)) = selfTest w"
  by (simp_all add: self_test_call_def millis_def Let_def)

lemma keeps_numeric [simp]:
  "(\<forall>args ascii w. Q w \<longrightarrow> Q (snd (function_callMixed (NumericFunctionAdapter (Some f)) args ascii w))) \<longleftrightarrow>
     (\<forall>args w. Q w \<longrightarrow> Q (snd (f args w)))"
  by (auto simp: base_callMixed_def)

lemma common_keeps_vm: "registry_keeps_vm common_registry"
  by (simp add: registry_keeps_vm_def native_keeps_vm_def common_entries common_table_def SelfTestFunction_def
      configurationFunction_def base_callMixed_def)

lemma common_keeps_seq: "registry_keeps_seq common_registry"
  by (auto simp: registry_keeps_seq_def native_keeps_seq_def common_entries common_table_def SelfTestFunction_def
      configurationFunction_def base_callMixed_def seq_status_def seq_queueSize_def seq_busy_def seq_field_def
      Let_def noob_inv split: option.split)

lemma common_keeps_self: "registry_keeps (\<lambda>w. selfTest w = st) common_registry"
  by (simp add: registry_keeps_def common_entries common_table_def SelfTestFunction_def
      configurationFunction_def base_callMixed_def)

lemma common_natives_ok: "natives_ok common_registry"
  unfolding natives_ok_def by (intro conjI allI common_keeps_vm common_keeps_seq common_keeps_self)

interpretation common_machine: vm_over_natives common_registry
  by unfold_locales (rule common_keeps_vm)

interpretation common_seq_frame: machine_frame "\<lambda>w. seq_wf (seq w)" common_registry
  by unfold_locales (simp_all add: natives_ok_keeps(2) [OF common_natives_ok])

interpretation common_runner_frame: runner_frame "\<lambda>w. vm_wf (vm w)" common_registry
  by unfold_locales (simp_all add: natives_ok_keeps(1) [OF common_natives_ok])

interpretation common_self_frame: self_test_frame "\<lambda>w. vm_wf (vm w) \<and> seq_wf (seq w)" common_registry
  by unfold_locales (simp_all add: registry_keeps_conj natives_ok_keeps(1,2) [OF common_natives_ok])

section \<open>A transport that keeps a log\<close>




section \<open>A board with a serial transport\<close>

record usb_world = rt_world +
  usb :: StreamTransport

definition usbTransport :: "('a usb_world_scheme) NoobTransport" where
  "usbTransport = \<lparr>tr_receive = (\<lambda>w. let (m, t) = stream_receive (usb w) in (m, w\<lparr>usb := t\<rparr>)),
     tr_send = (\<lambda>m w. w\<lparr>usb := stream_send m (usb w)\<rparr>)\<rparr>"



lemma usb_transport_ok: "transport_ok usbTransport"
  by (simp add: transport_ok_def usbTransport_def rt_ok_def case_prod_unfold Let_def)

lemma seq_natives_usb [simp]:
  "usb (snd (seq_set text w)) = usb w" "usb (snd (seq_setNumeric args s b w)) = usb w"
  "usb (snd (seq_start args w)) = usb w" "usb (snd (seq_stop args w)) = usb w"
  "usb (snd (seq_status args w)) = usb w" "usb (snd (seq_clear args w)) = usb w"
  "usb (snd (seq_pop args w)) = usb w" "usb (snd (seq_queueSize args w)) = usb w"
  "usb (snd (seq_busy args w)) = usb w" "usb (snd (seq_clearQueue args w)) = usb w"
  "usb (snd (seq_field args w)) = usb w"
  by (simp_all add: seq_set_def seq_setNumeric_def seq_start_def seq_stop_def seq_status_def seq_clear_def
      seq_pop_def seq_queueSize_def seq_busy_def seq_clearQueue_def seq_field_def on_seq_def
      upd_track_channel_def millis_def Let_def split: prod.split sum.split option.split)

lemma common_usb [simp]:
  "usb (snd (seq_setMixed args s w)) = usb w" "usb (snd (time_now args w)) = usb w"
  "usb (snd (time_reset args w)) = usb w" "usb (snd (self_test_call args w)) = usb w"
  by (simp_all add: seq_setMixed_def time_now_def time_reset_def milliseconds_def self_test_call_def millis_def Let_def)


section \<open>Properties\<close>

text \<open>C12: One pass of the runtime loop returns (no instruction reads or writes outside the machine's
  arrays), and leaves the virtual machine, the sequence service and the self test well formed, whatever
  program is loaded and whatever frames arrive, provided the registered natives, hooks, transports and
  the additional services do.\<close>

theorem runtime_pass_safe:
  assumes "natives_ok (natives (rt_dispatcher rt))" "hooks_ok (rt_dispatcher rt)"
    and "list_all (\<lambda>s. s = self_test_tick \<or> s = runner_tick \<or> service_ok (natives (rt_dispatcher rt)) s) (rt_services rt)"
    and "list_all transport_ok (rt_transports rt)" "rt_ok w"
  shows "\<exists>w'. runtime_loop rt w = Some w' \<and> rt_ok w'"
proof -
  let ?reg = "natives (rt_dispatcher rt)"
  have s: "\<forall>s \<in> set (rt_services rt). service_ok ?reg s"
    using assms(3) self_test_service_ok [OF assms(1)] runner_service_ok [OF assms(1)] by (auto simp: list_all_iff)
  have t: "\<forall>t \<in> set (rt_transports rt). transport_ok t" using assms(4) by (simp add: list_all_iff)
  obtain w1 where w1: "vm_tick ?reg INSTRUCTION_BUDGET w = Some w1" "rt_ok w1"
    using machine_tick_ok [OF assms(1,5)] by blast
  from loop_transports_ok [OF assms(1,2) t loop_services_ok [OF s t w1(2)]] w1(1) show ?thesis
    by (simp add: runtime_loop_def Let_def)
qed

lemma new_runtime_parts:
  "natives (rt_dispatcher (new_runtime n v)) = common_registry" "lifecycle (rt_dispatcher (new_runtime n v)) = None"
  "rt_services (new_runtime n v) = [self_test_tick, runner_tick]" "rt_transports (new_runtime n v) = []"
  by (simp_all add: new_runtime_def addService_def MAX_SERVICES_def)

definition usb_board :: "string \<Rightarrow> usb_world" where
  "usb_board bytes = runtime_boot common_registry
     \<lparr>clock = (\<lambda>_. 5), clock_reads = 0, vm = initial_vm, epochMilliseconds = 0, seq = initial_seq,
      selfTest = new_self_test, usb = \<lparr>st_stream = \<lparr>incoming = bytes, printed = []\<rparr>, st_input = [], st_maximumLine = 2048\<rparr>\<rparr>"

definition usb_runtime :: "usb_world NoobRuntime" where
  "usb_runtime = snd (addTransport usbTransport (new_runtime ''Iris'' ''0.6.12-sdspi''))"

lemma usb_board_ok: "rt_ok (usb_board bytes)"
  by (simp add: usb_board_def runtime_boot_def rt_ok_def seq_begin_def on_seq_def seq_wf_def initial_seq_def
      stopAll_def list_all_iff self_test_bind_def new_self_test_def self_test_wf_def self_test_core_def
      check_of_def)

lemma usb_runtime_parts:
  "rt_transports usb_runtime = [usbTransport]" "rt_services usb_runtime = [self_test_tick, runner_tick]"
  "natives (rt_dispatcher usb_runtime) = common_registry" "lifecycle (rt_dispatcher usb_runtime) = None"
  by (simp_all add: usb_runtime_def new_runtime_parts addTransport_def MAX_TRANSPORTS_def)

theorem runtime_pass_safe_witness:
  "\<exists>w'. runtime_loop usb_runtime (usb_board (''NRP/1 1 PING'' @ [CHR 0x0A])) = Some w' \<and> rt_ok w'"
  by (rule runtime_pass_safe)
    (simp_all add: usb_runtime_parts common_natives_ok hooks_ok_def usb_transport_ok usb_board_ok)



text \<open>The constructor registers the thirteen common functions under their identifiers, none is
  refused, and installs the self test and the sequence runner as services.\<close>

theorem runtime_constructor:
  "registry_wf (natives (rt_dispatcher (new_runtime n v))) \<and>
   map ent_id (entries (natives (rt_dispatcher (new_runtime n v)))) =
     [TIME_NOW, TIME_RESET, SELF_TEST, SEQUENCE_SET, SEQUENCE_START, SEQUENCE_STOP, SEQUENCE_STATUS, SEQUENCE_CLEAR,
      SEQUENCE_POP, SEQUENCE_QUEUE_SIZE, SEQUENCE_QUEUE_CLEAR, SEQUENCE_BUSY, SEQUENCE_FIELD] \<and>
   rt_services (new_runtime n v) = [self_test_tick, runner_tick]"
  by (simp add: new_runtime_parts common_entries common_table_ok flip: table_ok_wf) (simp add: common_table_def)

text \<open>C14: The boot self test ends. As long as its clock comes due again after every tick, it is finished
  after at most as many ticks as attempts were planned, plus one, which is never more than 121: every
  probe is tried at most three times and there are at most forty.\<close>

theorem self_test_finishes:
  assumes "keeps_self_test reg" "self_test_wf (selfTest w)"
    and "\<And>k. \<not> st_finished (selfTest (self_test_ticks reg k w)) \<Longrightarrow> tick_due (self_test_ticks reg k w)"
  shows "(\<exists>k \<le> attempts_left (selfTest w) + 1. st_finished (selfTest (self_test_ticks reg k w))) \<and>
    attempts_left (selfTest w) + 1 \<le> 121"
proof (rule conjI)
  let ?n = "attempts_left (selfTest w) + 1"
  have "\<not> (\<forall>k \<le> ?n. tick_due (self_test_ticks reg k w))"
    using due_ticks_bounded [OF assms(1,2), of ?n] by auto
  then show "\<exists>k \<le> ?n. st_finished (selfTest (self_test_ticks reg k w))" using assms(3) by blast
  show "?n \<le> 121" using attempts_left_bound [OF assms(2)] by (simp add: MAX_PROBES_def)
qed

definition probing_board :: usb_world where
  "probing_board = (let w = (usb_board [])\<lparr>clock := (\<lambda>_. 3000)\<rparr>
     in w\<lparr>selfTest := self_test_finish (snd (addProbe (Some ''CLOCK'') TIME_NOW [] 2 100 False (Some []) (selfTest w)))\<rparr>)"

lemma finished_stays: "st_finished (selfTest w) \<Longrightarrow> st_finished (selfTest (self_test_ticks reg k w))"
proof (induction k arbitrary: w)
  case (Suc k)
  then have "\<not> tick_due w" by (simp add: tick_due_def)
  then obtain n where "self_test_tick reg w = announce (w\<lparr>clock_reads := n\<rparr>)" using tick_not_due by blast
  with Suc show ?case by (simp add: announce_self)
qed simp

lemma probing_self: "selfTest probing_board = new_self_test\<lparr>st_bound := True, st_planReady := True,
    st_checks := [\<lparr>ck_name = ''CLOCK'', ck_state = PENDING\<rparr>],
    st_probes := [\<lparr>pr_name = ''CLOCK'', pr_id = 1, pr_arguments = [], pr_attempts = 2, pr_tried = 0, pr_retryMs = 100,
      pr_pendingOnFailure = False, pr_ascii = []\<rparr>]\<rparr>"
  by (simp add: probing_board_def usb_board_def runtime_boot_def seq_begin_def on_seq_def self_test_bind_def
      addProbe_def self_test_record_def new_self_test_def self_test_finish_def MAX_PROBES_def MAX_CHECKS_def
      CHECK_NAME_BYTES_def TIME_NOW_def Let_def)

lemma probing_clock: "clock probing_board = (\<lambda>_. 3000)"
  by (simp add: probing_board_def Let_def)

lemma time_now_found: "find_id common_registry 1 = Some (numeric_entry 1 ''TIME_NOW'' time_now)"
  by (simp add: find_id_def common_entries common_table_def TIME_NOW_def)

lemma probing_tick:
  defines "w1 \<equiv> snd (self_test_tick common_registry probing_board)"
  shows "clock w1 = (\<lambda>_. 3000)" "st_planReady (selfTest w1)" "\<not> st_finished (selfTest w1)"
    "st_nextAt (selfTest w1) = 3000" "st_nextProbe (selfTest w1) = length (st_probes (selfTest w1))"
proof -
  note c = probing_clock
  have "self_test_tick common_registry probing_board =
      run_probe common_registry 0 (probing_board\<lparr>clock_reads := Suc (clock_reads probing_board)\<rparr>)"
    by (simp add: self_test_tick_def millis_def c probing_self new_self_test_def not_due_def)
  then show "clock w1 = (\<lambda>_. 3000)" "st_planReady (selfTest w1)" "\<not> st_finished (selfTest w1)"
    "st_nextAt (selfTest w1) = 3000" "st_nextProbe (selfTest w1) = length (st_probes (selfTest w1))"
    by (simp_all add: w1_def run_probe_def probe_call_def probing_self new_self_test_def time_now_found
        registry_callMixed_def base_callMixed_def time_now_def milliseconds_def millis_def c
        after_probe_def tried_probe_def probe_retry_def Let_def)
qed

theorem self_test_finishes_witness:
  "\<exists>k \<le> 3. st_finished (selfTest (self_test_ticks common_registry k probing_board))"
proof -
  let ?w = "probing_board" and ?w1 = "snd (self_test_tick common_registry probing_board)"
  let ?w2 = "snd (self_test_tick common_registry ?w1)"
  have keep: "keeps_self_test (common_registry :: usb_world NativeRegistry)"
    by (rule natives_ok_keeps(4) [OF common_natives_ok])
  have due0: "tick_due ?w"
    by (simp add: tick_due_def probing_self probing_clock new_self_test_def not_due_def)
  have due1: "tick_due ?w1" using probing_tick by (simp add: tick_due_def not_due_def)
  then have fin: "st_finished (selfTest ?w2)"
    using keep by (cases rule: tick_due_cases) (simp_all add: probing_tick(5))
  have "tick_due (self_test_ticks common_registry k ?w)"
    if "\<not> st_finished (selfTest (self_test_ticks common_registry k ?w))" for k
  proof -
    consider "k = 0" | "k = Suc 0" | m where "k = Suc (Suc m)" by (metis not0_implies_Suc)
    then show ?thesis
      using that due0 due1 finished_stays [OF fin, of common_registry] by cases simp_all
  qed
  moreover have "self_test_wf (selfTest ?w)"
    by (simp add: probing_self new_self_test_def self_test_wf_def self_test_core_def probe_wf_def check_of_def
        MAX_PROBES_def MAX_CHECKS_def CHECK_NAME_BYTES_def)
  moreover have "attempts_left (selfTest ?w) = 2" by (simp add: probing_self new_self_test_def attempts_left_def)
  ultimately show ?thesis using self_test_finishes [OF keep, of ?w] by simp
qed

end
