(* ===== verification/Iris_Threads.thy ===== *)
theory Iris_Threads
  imports Sensor_Steps Runtime_Runs
begin

text \<open>
  The threads of the Iris board, \<open>src/iris/firmware/iris_noob/src/noobs/iris/thread_detectors.cpp\<close>
  and \<open>thread_sampling.cpp\<close>: two change threads, a window-rise thread and two sampling threads. The
  file-scope objects are fields of the board's world, and their places satisfy the laws of the
  generic threads.
\<close>

unbundle bit_operations_syntax

section \<open>The objects\<close>

record iris_world = usb_world +
  ultrasonicChange :: ChangeThread
  lightChange :: ChangeThread
  micRise :: WindowRiseThread
  rssiThread :: SamplingThread
  envThread :: SamplingThread

definition MIC_LEVEL :: u16 where "MIC_LEVEL = 120"
definition LIGHT_READ :: u16 where "LIGHT_READ = 192"
definition DISTANCE_MM :: u16 where "DISTANCE_MM = 199"
definition RSSI_SNAPSHOT :: u16 where "RSSI_SNAPSHOT = 221"
definition ENV_SNAPSHOT :: u16 where "ENV_SNAPSHOT = 223"

definition RSSI_THREAD_DURATION_MS :: u32 where "RSSI_THREAD_DURATION_MS = 10000"
definition RSSI_THREAD_INTERVAL_MS :: u32 where "RSSI_THREAD_INTERVAL_MS = 1000"
definition ENV_THREAD_INTERVAL_MS :: u32 where "ENV_THREAD_INTERVAL_MS = 2500"
definition ULTRASONIC_CHANGE_INTERVAL_MS :: u32 where "ULTRASONIC_CHANGE_INTERVAL_MS = 250"
definition ULTRASONIC_CHANGE_THRESHOLD_MM :: int32 where "ULTRASONIC_CHANGE_THRESHOLD_MM = 100"
definition ULTRASONIC_CHANGE_REARM_SAMPLES :: u8 where "ULTRASONIC_CHANGE_REARM_SAMPLES = 4"
definition LIGHT_CHANGE_INTERVAL_MS :: u32 where "LIGHT_CHANGE_INTERVAL_MS = 250"
definition LIGHT_CHANGE_THRESHOLD :: int32 where "LIGHT_CHANGE_THRESHOLD = 200"
definition LIGHT_CHANGE_REARM_SAMPLES :: u8 where "LIGHT_CHANGE_REARM_SAMPLES = 4"
definition LIGHT_CHANGE_PAUSE_SEQUENCE_MASK :: u8 where "LIGHT_CHANGE_PAUSE_SEQUENCE_MASK = 0x03"
definition MIC_RISE_SAMPLE_INTERVAL_MS :: u32 where "MIC_RISE_SAMPLE_INTERVAL_MS = 100"
definition MIC_RISE_BUCKET_MS :: u32 where "MIC_RISE_BUCKET_MS = 1000"
definition MIC_RISE_RATIO_PERCENT :: u16 where "MIC_RISE_RATIO_PERCENT = 200"
definition MIC_RISE_MINIMUM_RMS :: int32 where "MIC_RISE_MINIMUM_RMS = 20"
definition MIC_RISE_REARM_BUCKETS :: u8 where "MIC_RISE_REARM_BUCKETS = 3"

definition new_ultrasonicChange :: ChangeThread where
  "new_ultrasonicChange = new_change_thread DISTANCE_MM ''ULTRASONIC_CHANGE'' ULTRASONIC_CHANGE_INTERVAL_MS
     ULTRASONIC_CHANGE_THRESHOLD_MM ULTRASONIC_CHANGE_REARM_SAMPLES 0"

definition new_lightChange :: ChangeThread where
  "new_lightChange = new_change_thread LIGHT_READ ''LIGHT_CHANGE'' LIGHT_CHANGE_INTERVAL_MS
     LIGHT_CHANGE_THRESHOLD LIGHT_CHANGE_REARM_SAMPLES LIGHT_CHANGE_PAUSE_SEQUENCE_MASK"

definition new_micRise :: WindowRiseThread where
  "new_micRise = new_window_rise_thread MIC_LEVEL ''MIC_LOUDNESS_RISE'' MIC_RISE_SAMPLE_INTERVAL_MS
     MIC_RISE_BUCKET_MS MIC_RISE_RATIO_PERCENT MIC_RISE_MINIMUM_RMS MIC_RISE_REARM_BUCKETS"

definition new_rssiThread :: SamplingThread where
  "new_rssiThread = new_sampling_thread RSSI_SNAPSHOT ''RSSI_THREAD'' RSSI_THREAD_INTERVAL_MS
     RSSI_THREAD_DURATION_MS [] (Some [])"

definition new_envThread :: SamplingThread where
  "new_envThread = new_sampling_thread ENV_SNAPSHOT ''ENV_THREAD'' ENV_THREAD_INTERVAL_MS 0 [] (Some [])"

definition irisThreadsBegin :: "'a iris_world_scheme \<Rightarrow> 'a iris_world_scheme" where
  "irisThreadsBegin w = micRise_update window_begin (lightChange_update change_begin
     (ultrasonicChange_update change_begin w))"

definition irisSamplingThreadsBegin :: "'a iris_world_scheme \<Rightarrow> 'a iris_world_scheme" where
  "irisSamplingThreadsBegin w = envThread_update sampling_begin (rssiThread_update sampling_begin w)"

section \<open>Services\<close>

definition ultrasonic_service :: "('a iris_world_scheme) BackgroundService" where
  "ultrasonic_service reg = thread_tick ultrasonicChange ultrasonicChange_update
     (change_step reg ultrasonicChange ultrasonicChange_update)"

definition light_service :: "('a iris_world_scheme) BackgroundService" where
  "light_service reg = thread_tick lightChange lightChange_update (change_step reg lightChange lightChange_update)"

definition mic_service :: "('a iris_world_scheme) BackgroundService" where
  "mic_service reg = thread_tick micRise micRise_update (window_step reg micRise micRise_update)"

definition rssi_service :: "('a iris_world_scheme) BackgroundService" where
  "rssi_service reg = thread_tick rssiThread rssiThread_update (sampling_step reg rssiThread rssiThread_update)"

definition env_service :: "('a iris_world_scheme) BackgroundService" where
  "env_service reg = thread_tick envThread envThread_update (sampling_step reg envThread envThread_update)"

section \<open>The places\<close>

interpretation ultrasonic: change_place ultrasonicChange ultrasonicChange_update
  by unfold_locales (simp_all add: comp_def)

interpretation light: change_place lightChange lightChange_update
  by unfold_locales (simp_all add: comp_def)

interpretation mic: window_place micRise micRise_update
  by unfold_locales (simp_all add: comp_def)

interpretation rssi: sampling_place rssiThread rssiThread_update
  by unfold_locales (simp_all add: comp_def)

interpretation env: sampling_place envThread envThread_update
  by unfold_locales (simp_all add: comp_def)

section \<open>A board with constant sensors\<close>

definition constant_sensor :: "NativeResult \<Rightarrow> 'w NativeFunction" where
  "constant_sensor r args w = (r, w)"

definition climate :: NativeResult where
  "climate = (native_ok 77 [])\<lparr>r_record := \<lparr>rec_fields = [\<lparr>field_name = ''time_ms'', field_value = 77\<rparr>,
     \<lparr>field_name = ''temperature'', field_value = 215\<rparr>, \<lparr>field_name = ''humidity'', field_value = 480\<rparr>]\<rparr>\<rparr>"

definition sensor_registry :: "'w NativeRegistry" where
  "sensor_registry = \<lparr>entries = [numeric_entry LIGHT_READ ''LIGHT_READ'' (constant_sensor (native_ok 40 [])),
     numeric_entry DISTANCE_MM ''DISTANCE_MM'' (constant_sensor (native_ok 500 [])),
     numeric_entry ENV_SNAPSHOT ''ENV_SNAPSHOT'' (constant_sensor climate)]\<rparr>"

definition iris_board :: "u32 \<Rightarrow> iris_world" where
  "iris_board now = irisSamplingThreadsBegin (irisThreadsBegin
     (usb_world.extend (usb_world.truncate ((usb_board [])\<lparr>clock := (\<lambda>_. now)\<rparr>))
       (iris_world.fields new_ultrasonicChange new_lightChange new_micRise new_rssiThread new_envThread)))"

lemma iris_board_parts [simp]:
  "clock (iris_board now) = (\<lambda>_. now)" "seq (iris_board now) = seq (usb_board [])"
  "ultrasonicChange (iris_board now) = change_begin new_ultrasonicChange"
  "lightChange (iris_board now) = change_begin new_lightChange"
  "envThread (iris_board now) = sampling_begin new_envThread"
  "rssiThread (iris_board now) = sampling_begin new_rssiThread"
  by (simp_all add: iris_board_def irisSamplingThreadsBegin_def irisThreadsBegin_def usb_world.defs iris_world.defs)

lemma sensor_found:
  "find_id sensor_registry LIGHT_READ = Some (numeric_entry LIGHT_READ ''LIGHT_READ'' (constant_sensor (native_ok 40 [])))"
  "find_id sensor_registry DISTANCE_MM = Some (numeric_entry DISTANCE_MM ''DISTANCE_MM'' (constant_sensor (native_ok 500 [])))"
  "find_id sensor_registry ENV_SNAPSHOT = Some (numeric_entry ENV_SNAPSHOT ''ENV_SNAPSHOT'' (constant_sensor climate))"
  by (simp_all add: find_id_def sensor_registry_def LIGHT_READ_def DISTANCE_MM_def ENV_SNAPSHOT_def)

lemma sensor_calls:
  "ch_ascii c = [] \<Longrightarrow> ch_functionId c = DISTANCE_MM \<Longrightarrow> calls sensor_registry get c u (native_ok 500 []) u"
  "ch_ascii c = [] \<Longrightarrow> ch_functionId c = ENV_SNAPSHOT \<Longrightarrow> calls sensor_registry get c u climate u"
  by (simp_all add: calls_def sensor_found registry_callMixed_def base_callMixed_def constant_sensor_def climate_def)

lemma begun_source:
  "ct_source (change_begin new_ultrasonicChange) = empty_channel\<lparr>ch_functionId := DISTANCE_MM\<rparr>"
  "sp_source (sampling_begin new_envThread) = empty_channel\<lparr>ch_functionId := ENV_SNAPSHOT\<rparr>"
  by (simp_all add: change_begin_def sampling_begin_def new_ultrasonicChange_def new_envThread_def new_change_thread_def
      new_sampling_thread_def reconfigure_def channel_configure_def empty_channel_def empty_queue_def queue_clear_def
      ThreadProgram.defs ChangeThread.defs SamplingThread.defs new_thread_def MAX_SOURCE_ARGUMENTS_def)

lemma sensor_measured:
  "\<exists>u'. calls sensor_registry get (empty_channel\<lparr>ch_functionId := DISTANCE_MM\<rparr>) u (native_ok 500 []) u'"
  "\<exists>u'. calls sensor_registry get (empty_channel\<lparr>ch_functionId := ENV_SNAPSHOT\<rparr>) u climate u'"
  by (rule exI, rule sensor_calls; simp add: empty_channel_def)+

lemma climate_record: "result_record climate = r_record climate"
  "rec_fields (r_record climate) = [\<lparr>field_name = ''time_ms'', field_value = 77\<rparr>,
     \<lparr>field_name = ''temperature'', field_value = 215\<rparr>, \<lparr>field_name = ''humidity'', field_value = 480\<rparr>]"
  by (simp_all add: climate_def result_record_def record_empty_def)

lemma fresh_channel_ready [simp]: "channel_ready (empty_channel\<lparr>ch_functionId := f\<rparr>)"
  by (simp add: channel_ready_def channel_wf_def empty_channel_def)

lemma begun_fields [simp]:
  "ct_bound (change_begin t)" "ct_pauseMask (change_begin t) = ct_pauseMask t" "th_nextAt (change_begin t) = th_nextAt t"
  "ct_armed (change_begin t) = ct_armed t" "ct_changeThreshold (change_begin t) = ct_changeThreshold t"
  "sp_bound (sampling_begin u)" "sp_durationMs (sampling_begin u) = sp_durationMs u"
  "sp_startedAt (sampling_begin u) = sp_startedAt u" "sp_eventName (sampling_begin u) = sp_eventName u"
  "th_nextAt (sampling_begin u) = th_nextAt u" "th_results (sampling_begin u) = th_results u"
  by (simp_all add: change_begin_def sampling_begin_def)

lemma new_fields [simp]:
  "ct_pauseMask new_ultrasonicChange = 0" "th_nextAt new_ultrasonicChange = 0" "ct_armed new_ultrasonicChange"
  "ct_changeThreshold new_ultrasonicChange = ULTRASONIC_CHANGE_THRESHOLD_MM"
  "ct_pauseMask new_lightChange = LIGHT_CHANGE_PAUSE_SEQUENCE_MASK" "th_nextAt new_lightChange = 0"
  "th_nextAt new_envThread = 0" "sp_durationMs new_envThread = 0" "th_results new_envThread = empty_queue"
  "th_nextAt new_rssiThread = 0" "sp_durationMs new_rssiThread = RSSI_THREAD_DURATION_MS" "sp_startedAt new_rssiThread = 0"
  "sp_eventName new_rssiThread = ''RSSI_THREAD''"
  by (simp_all add: new_ultrasonicChange_def new_lightChange_def new_envThread_def new_rssiThread_def new_change_thread_def
      new_sampling_thread_def ThreadProgram.defs ChangeThread.defs SamplingThread.defs new_thread_def)

section \<open>Properties\<close>

text \<open>A change thread reports a change once: between two reported samples there are at least as many
  samples as its rearm count (and at least one), whatever values are sampled and whenever the thread is
  paused in between.\<close>

theorem change_reports_spaced:
  assumes "change_run xs t ! i" "change_run xs t ! j" "i < j" "j < length xs"
  shows "1 < j - i \<and> unat (ct_rearmSamples t) < j - i"
  using assms by (rule change_run_gap)

theorem change_reports_spaced_witness:
  "unat (ct_rearmSamples new_lightChange) < 6 - (1 :: nat)"
proof -
  let ?xs = "[Some 0, Some 300, Some 300, Some 300, Some 300, Some 300, Some 0] :: int32 option list"
  have "change_run ?xs new_lightChange ! 1" "change_run ?xs new_lightChange ! 6" by code_simp+
  from change_reports_spaced [OF this] show ?thesis by simp
qed

text \<open>A due tick of the ultrasonic change thread whose measurement succeeds reports an event exactly
  when the thread is armed, has a baseline, and the measured value differs from it by at least the
  configured threshold.\<close>

theorem ultrasonic_reports_change:
  fixes w :: "'a iris_world_scheme"
  assumes "th_running (ultrasonicChange w)" "ct_bound (ultrasonicChange w)" "ct_pauseMask (ultrasonicChange w) = 0"
    and "\<not> not_due (clock w (clock_reads w)) (th_nextAt (ultrasonicChange w))"
    and "channel_ready (ct_source (ultrasonicChange w))"
    and measured: "\<And>u. \<exists>u'. calls reg ultrasonicChange (ct_source (ultrasonicChange w)) u r u'"
    and v: "record_primary (result_record r) = Some v"
    and "\<bar>sint v - sint (ct_previous (ultrasonicChange w))\<bar> < 2 ^ 31"
  shows "fst (ultrasonic_service reg w) \<noteq> None \<longleftrightarrow>
    ct_havePrevious (ultrasonicChange w) \<and> ct_armed (ultrasonicChange w) \<and>
    sint (ct_changeThreshold (ultrasonicChange w)) \<le> \<bar>sint v - sint (ct_previous (ultrasonicChange w))\<bar>"
proof -
  let ?w = "ultrasonicChange_update (\<lambda>t. t\<lparr>th_nextAt := clock w (Suc (clock_reads w)) + th_intervalMs t\<rparr>)
    (w\<lparr>clock_reads := Suc (Suc (clock_reads w))\<rparr>)"
  have "ultrasonic_service reg w = change_step reg ultrasonicChange ultrasonicChange_update ?w"
    unfolding ultrasonic_service_def using assms(1,4) by (rule ultrasonic.tick_due)
  moreover have "\<exists>w'. calls reg ultrasonicChange (ct_source (ultrasonicChange ?w))
      (upd_ct_channel ultrasonicChange_update (\<lambda>c. c\<lparr>ch_busy := True\<rparr>) ?w) r w'"
    using measured by simp
  then obtain w' where "calls reg ultrasonicChange (ct_source (ultrasonicChange ?w))
      (upd_ct_channel ultrasonicChange_update (\<lambda>c. c\<lparr>ch_busy := True\<rparr>) ?w) r w'" by blast
  with ultrasonic.step_sampled [of ?w reg r w' v] assms(2,3,5) v
  have "fst (change_step reg ultrasonicChange ultrasonicChange_update ?w) \<noteq> None \<longleftrightarrow>
      fst (change_feed (Some v) (ultrasonicChange ?w))"
    by auto
  ultimately show ?thesis using assms(8) by (simp add: change_sample_detects)
qed

theorem ultrasonic_reports_change_witness:
  "fst (ultrasonic_service sensor_registry ((iris_board 300)\<lparr>ultrasonicChange :=
     (change_begin new_ultrasonicChange)\<lparr>th_running := True, ct_havePrevious := True, ct_previous := 350\<rparr>\<rparr>)) \<noteq> None"
proof -
  let ?w = "(iris_board 300)\<lparr>ultrasonicChange :=
     (change_begin new_ultrasonicChange)\<lparr>th_running := True, ct_havePrevious := True, ct_previous := 350\<rparr>\<rparr>"
  have "fst (ultrasonic_service sensor_registry ?w) \<noteq> None \<longleftrightarrow>
    ct_havePrevious (ultrasonicChange ?w) \<and> ct_armed (ultrasonicChange ?w) \<and>
    sint (ct_changeThreshold (ultrasonicChange ?w)) \<le> \<bar>sint (500 :: int32) - sint (ct_previous (ultrasonicChange ?w))\<bar>"
    by (rule ultrasonic_reports_change [where r = "native_ok 500 []"])
      (simp_all add: begun_source sensor_measured not_due_def result_record_def record_empty_def empty_record_def)
  then show ?thesis by (simp add: ULTRASONIC_CHANGE_THRESHOLD_MM_def)
qed

text \<open>While a sequence is active on channel 0 or 1, which drive the LEDs next to the light sensor, a
  due tick of the light thread reports nothing, queues nothing and forgets its baseline; the first
  sample after it is never reported, whatever its value.\<close>

theorem light_paused_by_sequences:
  fixes w :: "'a iris_world_scheme"
  assumes "th_running (lightChange w)" "ct_bound (lightChange w)"
    and "ct_pauseMask (lightChange w) = LIGHT_CHANGE_PAUSE_SEQUENCE_MASK"
    and "\<not> not_due (clock w (clock_reads w)) (th_nextAt (lightChange w))"
    and "channelBusy (seq w) ! 0 \<or> channelBusy (seq w) ! 1"
  shows "fst (light_service reg w) = None \<and>
    th_results (lightChange (snd (light_service reg w))) = th_results (lightChange w) \<and>
    \<not> fst (change_sample v (lightChange (snd (light_service reg w))))"
proof -
  let ?w = "lightChange_update (\<lambda>t. t\<lparr>th_nextAt := clock w (Suc (clock_reads w)) + th_intervalMs t\<rparr>)
    (w\<lparr>clock_reads := Suc (Suc (clock_reads w))\<rparr>)"
  have tick: "light_service reg w = change_step reg lightChange lightChange_update ?w"
    unfolding light_service_def using assms(1,4) by (rule light.tick_due)
  have "busyMask (seq w) AND 0x03 \<noteq> 0"
  proof
    assume zero: "busyMask (seq w) AND 0x03 = 0"
    have "\<not> bit (busyMask (seq w)) 0" "\<not> bit (busyMask (seq w)) 1"
      using arg_cong [OF zero, of "\<lambda>x. bit x 0"] arg_cong [OF zero, of "\<lambda>x. bit x 1"]
      by (simp_all add: bit_and_iff bit_simps)
    with assms(5) show False by (auto simp: busyMask_bits MAX_TRACKS_def)
  qed
  then have "busyMask (seq ?w) AND ct_pauseMask (lightChange ?w) \<noteq> 0"
    using assms(3) by (simp add: LIGHT_CHANGE_PAUSE_SEQUENCE_MASK_def)
  with light.step_paused [of ?w reg] assms(2) show ?thesis
    by (simp add: tick change_sample_def)
qed

theorem light_paused_by_sequences_witness:
  "fst (light_service sensor_registry ((iris_board 300)\<lparr>lightChange := (change_begin new_lightChange)\<lparr>th_running := True\<rparr>,
     seq := initial_seq\<lparr>channelBusy := [False, True, False, False]\<rparr>\<rparr>)) = None"
  using light_paused_by_sequences [of "(iris_board 300)\<lparr>lightChange := (change_begin new_lightChange)\<lparr>th_running := True\<rparr>,
     seq := initial_seq\<lparr>channelBusy := [False, True, False, False]\<rparr>\<rparr>" sensor_registry]
  by (simp add: not_due_def)

text \<open>C16: After at least ten finished buckets, the two means of a window-rise thread are the rounded
  means of the first and of the second half of the last ten bucket averages, however often the ring of
  buckets has wrapped.\<close>

theorem window_means_of_last_ten:
  assumes "window_fresh t" "10 \<le> length averages"
  shows "wr_olderMean (window_fill averages t) =
      half_mean (sum_list (take 5 (drop (length averages - 10) averages))) \<and>
    wr_newerMean (window_fill averages t) = half_mean (sum_list (drop (length averages - 5) averages))"
  using window_fill_means [OF assms(1), of averages] assms(2) by (simp add: BUCKET_COUNT_def HALF_BUCKETS_def)

theorem window_means_of_last_ten_witness:
  "wr_newerMean (window_fill [9, 9, 9, 1, 2, 3, 4, 5, 10, 20, 30, 40, 50] new_micRise) = 30"
proof -
  have "window_fresh new_micRise"
    by (simp add: window_fresh_def new_micRise_def new_window_rise_thread_def ThreadProgram.defs WindowRiseThread.defs new_thread_def)
  from window_means_of_last_ten [OF this, of "[9, 9, 9, 1, 2, 3, 4, 5, 10, 20, 30, 40, 50]"]
  show ?thesis by (simp add: half_mean_def HALF_BUCKETS_def BUCKET_COUNT_def trunc_div_def)
qed

text \<open>A sample taken by a due tick of the environment thread is the record that the next pop returns,
  and each of its fields can then be read by its index with its name and value.\<close>

theorem env_sample_roundtrip:
  fixes w :: "'a iris_world_scheme"
  assumes "th_running (envThread w)" "sp_bound (envThread w)" "sp_durationMs (envThread w) = 0"
    and "\<not> not_due (clock w (clock_reads w)) (th_nextAt (envThread w))"
    and "channel_ready (sp_source (envThread w))"
    and "queue_wf (th_results (envThread w))" "queue_contents (th_results (envThread w)) = []"
    and measured: "\<And>u. \<exists>u'. calls reg envThread (sp_source (envThread w)) u r u'"
    and i: "i < length (rec_fields (result_record r))" "i < MAX_FIELDS"
  defines "popped \<equiv> thread_pop envThread envThread_update (snd (env_service reg w))"
  shows "r_ok (fst popped) \<and> r_record (fst popped) = result_record r \<and>
    thread_field envThread [of_nat i] (snd popped) =
      native_ok (field_value (rec_fields (result_record r) ! i))
        (''field='' @ show_nat i @ '' name='' @ field_name (rec_fields (result_record r) ! i))"
proof -
  let ?w = "envThread_update (\<lambda>t. t\<lparr>th_nextAt := clock w (Suc (clock_reads w)) + th_intervalMs t\<rparr>)
    (w\<lparr>clock_reads := Suc (Suc (clock_reads w))\<rparr>)"
  let ?q = "th_results (envThread (snd (env_service reg w)))"
  have tick: "env_service reg w = sampling_step reg envThread envThread_update ?w"
    unfolding env_service_def using assms(1,4) by (rule env.tick_due)
  obtain w' where "calls reg envThread (sp_source (envThread ?w))
      (upd_sp_channel envThread_update (\<lambda>c. c\<lparr>ch_busy := True\<rparr>) ?w) r w'"
    using measured by auto
  with env.step_publishes [of ?w reg r w'] assms(2,3,5) obtain c where
    "envThread (snd (env_service reg w)) = publish_record (result_record r) ((envThread ?w)\<lparr>sp_source := c\<rparr>)"
    by (auto simp: tick)
  then have q: "?q = queue_push (result_record r) (th_results (envThread w))" by (simp add: publish_record_def)
  then have "queue_wf ?q" "queue_contents ?q = [result_record r]"
    using assms(6,7) by (simp_all add: queue_push_wf queue_push_contents CAPACITY_def)
  from env.take_field [OF this, of "thread_pop envThread envThread_update"]
  have p: "r_ok (fst popped)" "r_record (fst popped) = result_record r"
      "thread_lastPopped envThread (snd popped) = Some (result_record r)"
    by (simp_all add: popped_def)
  have n: "sint (of_nat i :: int32) = int i" "unat (of_nat i :: int32) = i"
    using i(2) small_word [of i] by (simp_all add: MAX_FIELDS_def)
  from p(3) have last: "th_haveLastPopped (envThread (snd popped))" "th_lastPopped (envThread (snd popped)) = result_record r"
    by (auto simp: thread_lastPopped_def split: if_splits)
  have "thread_field envThread [of_nat i] (snd popped) =
      native_ok (field_value (rec_fields (result_record r) ! i))
        (''field='' @ show_nat i @ '' name='' @ field_name (rec_fields (result_record r) ! i))"
    using i n last by (simp add: thread_field_def record_get_index_def show_i32_def show_int_def)
  with p show ?thesis by simp
qed

theorem env_sample_roundtrip_witness:
  "thread_field envThread [of_nat 2] (snd (thread_pop envThread envThread_update (snd (env_service sensor_registry
     ((iris_board 300)\<lparr>envThread := (sampling_begin new_envThread)\<lparr>th_running := True\<rparr>\<rparr>))))) =
   native_ok 480 (''field='' @ show_nat 2 @ '' name=humidity'')"
  using env_sample_roundtrip [of "(iris_board 300)\<lparr>envThread := (sampling_begin new_envThread)\<lparr>th_running := True\<rparr>\<rparr>"
      sensor_registry climate 2]
  by (simp add: begun_source sensor_measured climate_record not_due_def MAX_FIELDS_def)

text \<open>The RSSI thread stops by itself: the first due tick once its duration is over, also across the
  wrap of the clock, reports completion and stops it with its queued results intact, and every later
  tick does nothing until it is started again.\<close>

theorem rssi_completes:
  fixes w :: "'a iris_world_scheme"
  assumes "th_running (rssiThread w)" "sp_bound (rssiThread w)" "sp_durationMs (rssiThread w) \<noteq> 0"
    and "\<not> not_due (clock w (clock_reads w)) (th_nextAt (rssiThread w))"
    and "sp_durationMs (rssiThread w) \<le> clock w (Suc (Suc (clock_reads w))) - sp_startedAt (rssiThread w)"
  shows "fst (rssi_service reg w) = Some (''NRP/1 0 EVENT '' @ sp_eventName (rssiThread w) @ ''_COMPLETE'') \<and>
    th_results (rssiThread (snd (rssi_service reg w))) = th_results (rssiThread w) \<and>
    rssi_service reg (snd (rssi_service reg w)) = (None, snd (rssi_service reg w))"
proof -
  let ?w = "rssiThread_update (\<lambda>t. t\<lparr>th_nextAt := clock w (Suc (clock_reads w)) + th_intervalMs t\<rparr>)
    (w\<lparr>clock_reads := Suc (Suc (clock_reads w))\<rparr>)"
  have "rssi_service reg w = sampling_step reg rssiThread rssiThread_update ?w"
    unfolding rssi_service_def using assms(1,4) by (rule rssi.tick_due)
  with rssi.step_complete [of ?w reg] assms(2,3,5) show ?thesis
    by (simp add: rssi_service_def [of reg, THEN fun_cong, of "snd _"] rssi.tick_stopped)
qed

theorem rssi_completes_witness:
  "fst (rssi_service sensor_registry ((iris_board 10000)\<lparr>rssiThread := (sampling_begin new_rssiThread)\<lparr>th_running := True\<rparr>\<rparr>)) =
     Some ''NRP/1 0 EVENT RSSI_THREAD_COMPLETE''"
  using rssi_completes [of "(iris_board 10000)\<lparr>rssiThread := (sampling_begin new_rssiThread)\<lparr>th_running := True\<rparr>\<rparr>" sensor_registry]
  by (simp add: not_due_def RSSI_THREAD_DURATION_MS_def)

end
