(* ===== verification/Program_Store.thy ===== *)
theory Program_Store
  imports Runtime_Runs
begin

text \<open>
  The store of VM programs on the SD card: \<open>services/Esp32VmProgramStore.cpp\<close> with the lifecycle
  hooks it gives to the command dispatcher. The file system of the SD card is code outside the
  repository: it is the parameter \<open>fs\<close>, a record of the calls the store makes, over a disk state of
  any type. The disk of the world keeps, besides its present state, the list of all states it went
  through, one per call that changes it: the states in which a power cut can leave the card.
\<close>

section \<open>The file system interface and the state of the store\<close>

record 's FS =
  fs_exists :: "string \<Rightarrow> 's \<Rightarrow> bool"
  fs_mkdir :: "string \<Rightarrow> 's \<Rightarrow> bool \<times> 's"
  fs_remove :: "string \<Rightarrow> 's \<Rightarrow> bool \<times> 's"
  fs_rename :: "string \<Rightarrow> string \<Rightarrow> 's \<Rightarrow> bool \<times> 's"
  fs_create :: "string \<Rightarrow> 's \<Rightarrow> bool \<times> 's"
  fs_write :: "string \<Rightarrow> u8 list \<Rightarrow> 's \<Rightarrow> nat \<times> 's"
  fs_size :: "string \<Rightarrow> 's \<Rightarrow> nat option"
  fs_read :: "string \<Rightarrow> nat \<Rightarrow> 's \<Rightarrow> u8 list"
  fs_entries :: "string \<Rightarrow> 's \<Rightarrow> (string \<times> bool) list option"

record 's Disk =
  now :: 's
  visited :: "'s list"

definition on_disk :: "('s \<Rightarrow> 'r \<times> 's) \<Rightarrow> 's Disk \<Rightarrow> 'r \<times> 's Disk" where
  "on_disk f D = (let (r, s) = f (now D) in (r, \<lparr>now = s, visited = visited D @ [s]\<rparr>))"

record 's store_world = usb_world +
  programVm :: bool
  programDirectory :: string
  lastProgramPath :: string
  lastRunPath :: string
  persistenceStatus :: string
  sd_ready :: bool
  sd :: "'s Disk"

section \<open>Files that are replaced as a whole\<close>

definition temporary :: "string \<Rightarrow> string" where "temporary path = path @ ''.tmp''"
definition backup :: "string \<Rightarrow> string" where "backup path = path @ ''.bak''"

definition discard :: "'s FS \<Rightarrow> string \<Rightarrow> 's Disk \<Rightarrow> 's Disk" where
  "discard fs path D = snd (on_disk (fs_remove fs path) D)"

definition install :: "'s FS \<Rightarrow> string \<Rightarrow> 's Disk \<Rightarrow> (string + unit) \<times> 's Disk" where
  "install fs path D =
     (let D = discard fs (backup path) D; hadPrevious = fs_exists fs path (now D);
          (kept, D) = (if hadPrevious then on_disk (fs_rename fs path (backup path)) D else (True, D))
      in if \<not> kept then (Inl (''cannot preserve previous '' @ path), discard fs (temporary path) D)
         else let (moved, D) = on_disk (fs_rename fs (temporary path) path) D
              in if \<not> moved
                 then (Inl (''cannot install '' @ path),
                       if hadPrevious then snd (on_disk (fs_rename fs (backup path) path) D) else D)
                 else (Inr (), discard fs (backup path) D))"

definition atomicWrite :: "'s FS \<Rightarrow> string \<Rightarrow> u8 list \<Rightarrow> 's Disk \<Rightarrow> (string + unit) \<times> 's Disk" where
  "atomicWrite fs path data D =
     (let D = discard fs (temporary path) D; (opened, D) = on_disk (fs_create fs (temporary path)) D
      in if \<not> opened then (Inl (''cannot create '' @ temporary path), D)
         else let (written, D) = on_disk (fs_write fs (temporary path) data) D
              in if written \<noteq> length data
                 then (Inl (''short write '' @ show_nat written @ ''/'' @ show_nat (length data)),
                       discard fs (temporary path) D)
                 else install fs path D)"

definition recoverFile :: "'s FS \<Rightarrow> string \<Rightarrow> 's Disk \<Rightarrow> 's Disk" where
  "recoverFile fs path D =
     (let D = discard fs (temporary path) D
      in if \<not> fs_exists fs path (now D) \<and> fs_exists fs (backup path) (now D)
         then snd (on_disk (fs_rename fs (backup path) path) D)
         else discard fs (backup path) D)"

section \<open>The snapshot of the running program\<close>

definition run_flag :: "bool \<Rightarrow> u8 list" where
  "run_flag enabled = [if enabled then 49 else 48]"

definition writeRunFlag :: "'s FS \<Rightarrow> bool \<Rightarrow> ('s, 'a) store_world_scheme
    \<Rightarrow> (string + unit) \<times> ('s, 'a) store_world_scheme" where
  "writeRunFlag fs enabled w =
     (let (r, D) = atomicWrite fs (lastRunPath w) (run_flag enabled) (sd w) in (r, w\<lparr>sd := D\<rparr>))"

definition readRunFlag :: "'s FS \<Rightarrow> ('s, 'a) store_world_scheme \<Rightarrow> bool" where
  "readRunFlag fs w = (case fs_size fs (lastRunPath w) (now (sd w)) of
       None \<Rightarrow> False
     | Some n \<Rightarrow> fs_read fs (lastRunPath w) 1 (now (sd w)) = [49])"

definition programData :: "NoobVm \<Rightarrow> u8 list" where
  "programData v = take (vm_length v) (vm_program v)"

definition writeCurrentProgram :: "'s FS \<Rightarrow> ('s, 'a) store_world_scheme
    \<Rightarrow> (string + unit) \<times> ('s, 'a) store_world_scheme" where
  "writeCurrentProgram fs w = (if vm_length (vm w) = 0 then (Inl ''VM has no program'', w)
     else let (r, D) = atomicWrite fs (lastProgramPath w) (programData (vm w)) (sd w)
          in (r, w\<lparr>sd := D\<rparr>))"

definition removeRuntimeFiles :: "'s FS \<Rightarrow> ('s, 'a) store_world_scheme \<Rightarrow> ('s, 'a) store_world_scheme" where
  "removeRuntimeFiles fs w = w\<lparr>sd := fold (discard fs)
     [lastProgramPath w, temporary (lastProgramPath w), backup (lastProgramPath w),
      lastRunPath w, temporary (lastRunPath w), backup (lastRunPath w)] (sd w)\<rparr>"

definition snapshot :: "'s FS \<Rightarrow> ('s, 'a) store_world_scheme
    \<Rightarrow> (string + unit) \<times> ('s, 'a) store_world_scheme" where
  "snapshot fs w = (case writeRunFlag fs False w of
       (Inl e, w) \<Rightarrow> (Inl e, w)
     | (Inr _, w) \<Rightarrow> (case writeCurrentProgram fs w of
           (Inl e, w) \<Rightarrow> (Inl e, w)
         | (Inr _, w) \<Rightarrow> writeRunFlag fs True w))"

definition store_onStarted :: "'s FS \<Rightarrow> ('s, 'a) store_world_scheme \<Rightarrow> string \<times> ('s, 'a) store_world_scheme" where
  "store_onStarted fs w = (if \<not> programVm w then (''persistence=unavailable'', w)
     else case snapshot fs w of
         (Inl e, w) \<Rightarrow> (''persistence=failed'',
             (snd (writeRunFlag fs False w))\<lparr>persistenceStatus := ''error:'' @ e\<rparr>)
       | (Inr _, w) \<Rightarrow> (''persistence=stored autorun=1'', w\<lparr>persistenceStatus := ''stored:autorun''\<rparr>))"

definition store_onStopped :: "'s FS \<Rightarrow> ('s, 'a) store_world_scheme \<Rightarrow> string \<times> ('s, 'a) store_world_scheme" where
  "store_onStopped fs w = (if \<not> programVm w then (''persistence=unavailable'', w)
     else case writeRunFlag fs False w of
         (Inl e, w) \<Rightarrow> (''persistence=failed'', w\<lparr>persistenceStatus := ''error:'' @ e\<rparr>)
       | (Inr _, w) \<Rightarrow> (''persistence=stored autorun=0'', w\<lparr>persistenceStatus := ''stored:stopped''\<rparr>))"

definition store_onReset :: "'s FS \<Rightarrow> ('s, 'a) store_world_scheme \<Rightarrow> string \<times> ('s, 'a) store_world_scheme" where
  "store_onReset fs w = (if \<not> programVm w then (''persistence=unavailable'', w)
     else (''persistence=cleared'', (removeRuntimeFiles fs w)\<lparr>persistenceStatus := ''cleared''\<rparr>))"

definition storeLifecycle :: "'s FS \<Rightarrow> ('s, 'a) store_world_scheme NoobVmLifecycle" where
  "storeLifecycle fs = \<lparr>onStarted = store_onStarted fs, onStopped = store_onStopped fs,
     onReset = store_onReset fs\<rparr>"

section \<open>Names and paths\<close>

definition isAlphaNumeric :: "char \<Rightarrow> bool" where
  "isAlphaNumeric c \<longleftrightarrow> isDigit c \<or> (65 \<le> (of_char c :: nat) \<and> of_char c \<le> (90 :: nat)) \<or>
     (97 \<le> (of_char c :: nat) \<and> of_char c \<le> (122 :: nat))"

definition validName :: "string \<Rightarrow> bool" where
  "validName name \<longleftrightarrow> name \<noteq> [] \<and> length name \<le> 32 \<and>
     (\<forall>c \<in> set name. isAlphaNumeric c \<or> c = CHR ''-'' \<or> c = CHR ''_'')"

definition trim :: "string \<Rightarrow> string" where
  "trim s = rev (dropWhile c_isspace (rev (dropWhile c_isspace s)))"

definition pathFor :: "string \<Rightarrow> string \<Rightarrow> string option" where
  "pathFor directory name = (let name = trim name
     in if \<not> validName name then None
        else Some (directory @ ''/'' @ (if take 5 name = ''prog_'' then name else ''prog_'' @ name) @ ''.nvm''))"

definition legacyPathFor :: "string \<Rightarrow> string \<Rightarrow> string" where
  "legacyPathFor directory name = (let name = trim name
     in if validName name then directory @ ''/'' @ name @ ''.nvm'' else [])"

section \<open>The functions of the store\<close>

definition result :: "bool \<Rightarrow> int32 \<Rightarrow> string \<Rightarrow> NativeResult" where
  "result ok v d = \<lparr>r_ok = ok, r_value = v, r_detail = d, r_record = empty_record\<rparr>"

definition store_begin :: "'s FS \<Rightarrow> string option \<Rightarrow> ('s, 'a) store_world_scheme
    \<Rightarrow> bool \<times> ('s, 'a) store_world_scheme" where
  "store_begin fs directory w = (case directory of None \<Rightarrow> (False, w) | Some dir \<Rightarrow>
     if \<not> sd_ready w then (False, w)
     else let w = w\<lparr>programVm := True, programDirectory := dir\<rparr>;
              (made, D) = (if fs_exists fs dir (now (sd w)) then (True, sd w)
                           else on_disk (fs_mkdir fs dir) (sd w))
          in if \<not> made then (False, w\<lparr>sd := D\<rparr>)
             else let program = dir @ ''/runtime_last.nvm''; run = dir @ ''/runtime_last.run''
                  in (True, w\<lparr>lastProgramPath := program, lastRunPath := run,
                        sd := recoverFile fs run (recoverFile fs program D),
                        persistenceStatus := ''ready''\<rparr>))"

definition disable_with :: "'s FS \<Rightarrow> string \<Rightarrow> NativeResult \<Rightarrow> ('s, 'a) store_world_scheme
    \<Rightarrow> NativeResult \<times> ('s, 'a) store_world_scheme" where
  "disable_with fs status r w = (r, (snd (writeRunFlag fs False w))\<lparr>persistenceStatus := ''error:'' @ status\<rparr>)"

definition restoreLast :: "'s FS \<Rightarrow> ('s, 'a) store_world_scheme
    \<Rightarrow> NativeResult \<times> ('s, 'a) store_world_scheme" where
  "restoreLast fs w = (if \<not> programVm w then (native_fail ''program store unavailable'', w)
     else case fs_size fs (lastProgramPath w) (now (sd w)) of
       None \<Rightarrow> (result True 0 ''restored=none autorun=0'', w\<lparr>persistenceStatus := ''ready:none''\<rparr>)
     | Some len \<Rightarrow>
         if len = 0 \<or> len > PROGRAM_BYTES
         then disable_with fs ''invalid runtime program''
                (result False (of_nat len) ''invalid runtime program size'') w
         else let bytes = fs_read fs (lastProgramPath w) len (now (sd w))
              in if length bytes \<noteq> len
                 then disable_with fs ''short runtime read''
                        (result False (of_nat (length bytes)) ''runtime program read failed'') w
                 else case vm_load (Some bytes) (vm w) of
                   Inl e \<Rightarrow> disable_with fs e (native_fail e) w
                 | Inr v \<Rightarrow>
                     let w = w\<lparr>vm := v\<rparr>; autorun = readRunFlag fs w;
                         report = result True (of_nat len) (''restored='' @ lastProgramPath w @
                           '' autorun='' @ show_bool autorun)
                     in if \<not> autorun then (report, w\<lparr>persistenceStatus := ''restored:ready''\<rparr>)
                        else case vm_run v of
                            Inl e \<Rightarrow> disable_with fs e (result False (of_nat len) e) w
                          | Inr v \<Rightarrow> (report, w\<lparr>vm := v, persistenceStatus := ''restored:autorun''\<rparr>))"

definition lastStatus :: "'s FS \<Rightarrow> int32 list \<Rightarrow> ('s, 'a) store_world_scheme \<Rightarrow> NativeResult" where
  "lastStatus fs arguments w =
     (if arguments \<noteq> [] then native_fail ''usage: no arguments''
      else if \<not> programVm w then native_fail ''program store unavailable''
      else let len = (case fs_size fs (lastProgramPath w) (now (sd w)) of None \<Rightarrow> 0 | Some n \<Rightarrow> n);
               autorun = (word_of_nat len \<noteq> (0 :: int32) \<and> readRunFlag fs w)
           in result True (if autorun then 1 else 0)
                (''stored='' @ show_bool (word_of_nat len \<noteq> (0 :: int32)) @
                 '' bytes='' @ show_i32 (word_of_nat len) @
                 '' autorun='' @ show_bool autorun @ '' state='' @ persistenceStatus w))"

definition clearLast :: "'s FS \<Rightarrow> int32 list \<Rightarrow> ('s, 'a) store_world_scheme
    \<Rightarrow> NativeResult \<times> ('s, 'a) store_world_scheme" where
  "clearLast fs arguments w =
     (if arguments \<noteq> [] then (native_fail ''usage: no arguments'', w)
      else if \<not> programVm w then (native_fail ''program store unavailable'', w)
      else (result True 1 ''runtime snapshot cleared'',
            (removeRuntimeFiles fs w)\<lparr>persistenceStatus := ''cleared''\<rparr>))"

definition store_save :: "'s FS \<Rightarrow> string \<Rightarrow> ('s, 'a) store_world_scheme
    \<Rightarrow> NativeResult \<times> ('s, 'a) store_world_scheme" where
  "store_save fs arguments w =
     (if \<not> programVm w then (native_fail ''program store unavailable'', w)
      else case pathFor (programDirectory w) arguments of
        None \<Rightarrow> (native_fail ''invalid program name'', w)
      | Some path \<Rightarrow>
          let len = vm_length (vm w)
          in if len = 0 then (native_fail ''VM has no program'', w)
             else let D = (if fs_exists fs path (now (sd w)) then discard fs path (sd w) else sd w);
                      (opened, D) = on_disk (fs_create fs path) D
                  in if \<not> opened then (native_fail ''cannot create program'', w\<lparr>sd := D\<rparr>)
                     else let (written, D) = on_disk (fs_write fs path (programData (vm w))) D
                          in if written \<noteq> len
                             then (result False (of_nat written) ''program write failed'', w\<lparr>sd := D\<rparr>)
                             else (result True (of_nat len) (''saved='' @ path), w\<lparr>sd := D\<rparr>))"

definition storeBytes :: "'s FS \<Rightarrow> string \<Rightarrow> u8 list option \<Rightarrow> bool \<Rightarrow> ('s, 'a) store_world_scheme
    \<Rightarrow> NativeResult \<times> ('s, 'a) store_world_scheme" where
  "storeBytes fs name bytes replace w =
     (if \<not> programVm w then (native_fail ''program store unavailable'', w)
      else case bytes of None \<Rightarrow> (native_fail ''invalid VM size'', w)
      | Some b \<Rightarrow>
          if b = [] \<or> length b > PROGRAM_BYTES then (native_fail ''invalid VM size'', w)
          else case pathFor (programDirectory w) name of
            None \<Rightarrow> (native_fail ''invalid program name'', w)
          | Some path \<Rightarrow>
              if \<not> replace \<and> fs_exists fs path (now (sd w))
              then (native_fail ''saved program already exists'', w)
              else case atomicWrite fs path b (sd w) of
                  (Inl e, D) \<Rightarrow> (native_fail e, w\<lparr>sd := D\<rparr>)
                | (Inr _, D) \<Rightarrow> (result True (of_nat (length b))
                      (''saved='' @ path @ '' active_vm_unchanged=1''), w\<lparr>sd := D\<rparr>))"

definition read_program :: "'s FS \<Rightarrow> string \<Rightarrow> nat \<Rightarrow> ('s, 'a) store_world_scheme
    \<Rightarrow> NativeResult \<times> ('s, 'a) store_world_scheme" where
  "read_program fs path len w =
     (if len = 0 \<or> len > PROGRAM_BYTES
      then (result False (of_nat len) ''invalid saved program size'', w)
      else let bytes = fs_read fs path len (now (sd w))
           in if length bytes \<noteq> len
              then (result False (of_nat (length bytes)) ''program read failed'', w)
              else case vm_load (Some bytes) (vm w) of
                  Inl e \<Rightarrow> (native_fail e, w)
                | Inr v \<Rightarrow> (result True (of_nat len) (''loaded='' @ path), w\<lparr>vm := v\<rparr>))"

definition store_load :: "'s FS \<Rightarrow> string \<Rightarrow> ('s, 'a) store_world_scheme
    \<Rightarrow> NativeResult \<times> ('s, 'a) store_world_scheme" where
  "store_load fs arguments w =
     (if \<not> programVm w then (native_fail ''program store unavailable'', w)
      else case pathFor (programDirectory w) arguments of
        None \<Rightarrow> (native_fail ''invalid program name'', w)
      | Some path \<Rightarrow>
          (case fs_size fs path (now (sd w)) of
             Some n \<Rightarrow> read_program fs path n w
           | None \<Rightarrow>
               let path = legacyPathFor (programDirectory w) arguments
               in case fs_size fs path (now (sd w)) of
                    Some n \<Rightarrow> read_program fs path n w
                  | None \<Rightarrow> (native_fail ''saved program not found'', w)))"

fun list_loop :: "(string \<times> bool) list \<Rightarrow> string \<Rightarrow> nat \<Rightarrow> string \<times> nat" where
  "list_loop [] names count = (names, count)"
| "list_loop ((name, isDirectory) # rest) names count =
     (if \<not> count < 32 then (names, count)
      else if isDirectory then list_loop rest names count
      else list_loop rest ((if names = [] then [] else names @ '','') @ name) (Suc count))"

definition store_list :: "'s FS \<Rightarrow> ('s, 'a) store_world_scheme \<Rightarrow> NativeResult" where
  "store_list fs w = (if \<not> programVm w then native_fail ''program store unavailable''
     else case fs_entries fs (programDirectory w) (now (sd w)) of
       None \<Rightarrow> native_fail ''program directory unavailable''
     | Some es \<Rightarrow> let (names, count) = list_loop es [] 0
         in result True (of_nat count) (''programs='' @ names))"

definition store_remove :: "'s FS \<Rightarrow> string \<Rightarrow> ('s, 'a) store_world_scheme
    \<Rightarrow> NativeResult \<times> ('s, 'a) store_world_scheme" where
  "store_remove fs arguments w = (case pathFor (programDirectory w) arguments of
       None \<Rightarrow> (native_fail ''invalid program name'', w)
     | Some path \<Rightarrow>
         (let (removed, D) = on_disk (fs_remove fs path) (sd w)
          in if removed then (result True 1 (''deleted='' @ path), w\<lparr>sd := D\<rparr>)
             else let path = legacyPathFor (programDirectory w) arguments;
                      (removed, D) = on_disk (fs_remove fs path) D
                  in if removed then (result True 1 (''deleted='' @ path), w\<lparr>sd := D\<rparr>)
                     else (native_fail ''saved program not found'', w\<lparr>sd := D\<rparr>)))"

section \<open>The store at boot\<close>

definition DEFAULT_DIRECTORY :: string where "DEFAULT_DIRECTORY = ''/programs''"

definition boot_store :: "'s FS \<Rightarrow> ('s, 'a) store_world_scheme \<Rightarrow> NativeResult \<times> ('s, 'a) store_world_scheme" where
  "boot_store fs w = restoreLast fs (snd (store_begin fs (Some DEFAULT_DIRECTORY) w))"

end
