(* ===== verification/Store_Safety.thy ===== *)
theory Store_Safety
  imports Program_Store
begin

text \<open>
  What the program store promises across power cuts. The documented behaviour of the file system is
  the locale \<open>filesystem\<close> over a view of the disk as a map from paths to contents, with possible
  failures of every call; \<open>reliable_filesystem\<close> adds that reading and renaming work. Both are
  interpreted on a card with a list of planned failures. The lemmas follow every disk state a
  replacement of a file visits.
\<close>

section \<open>Runs over disk states\<close>

definition along :: "('s \<Rightarrow> bool) \<Rightarrow> 's Disk \<Rightarrow> 's Disk \<Rightarrow> bool" where
  "along Q D D' \<longleftrightarrow> (\<exists>ss. visited D' = visited D @ ss \<and> (\<forall>s \<in> set ss. Q s))"

lemma along_refl [simp]: "along Q D D"
  by (simp add: along_def)

lemma along_trans: "along Q D D' \<Longrightarrow> along Q D' D'' \<Longrightarrow> along Q D D''"
  by (force simp: along_def)

lemma along_mono: "along Q D D' \<Longrightarrow> (\<And>s. Q s \<Longrightarrow> R s) \<Longrightarrow> along R D D'"
  by (auto simp: along_def)

lemma along_visited: "along Q D D' \<Longrightarrow> visited D' = visited D @ ss \<Longrightarrow> s \<in> set ss \<Longrightarrow> Q s"
  by (auto simp: along_def)

lemma on_disk_along: "on_disk f D = (r, D') \<Longrightarrow> Q (now D') \<Longrightarrow> along Q D D'"
  by (auto simp: on_disk_def along_def split: prod.splits)

lemma on_disk_now: "on_disk f D = (r, D') \<Longrightarrow> f (now D) = (r, now D')"
  by (auto simp: on_disk_def split: prod.splits)

lemma discard_along: "Q (now (discard fs p D)) \<Longrightarrow> along Q D (discard fs p D)"
  unfolding discard_def by (metis on_disk_along prod.collapse)

lemma along_op: "along Q D D1 \<Longrightarrow> on_disk f D1 = (r, D2) \<Longrightarrow> Q (now D2) \<Longrightarrow> along Q D D2"
  by (rule along_trans, assumption, rule on_disk_along)

lemma along_discard: "along Q D D1 \<Longrightarrow> Q (now (discard fs p D1)) \<Longrightarrow> along Q D (discard fs p D1)"
  by (rule along_trans, assumption, rule discard_along)

lemma path_names [simp]:
  "temporary p \<noteq> p" "backup p \<noteq> p" "p \<noteq> temporary p" "p \<noteq> backup p"
  "temporary p \<noteq> backup p" "backup p \<noteq> temporary p"
  by (simp_all add: temporary_def backup_def)

section \<open>What a boot restores\<close>

definition program_path :: string where "program_path = DEFAULT_DIRECTORY @ ''/runtime_last.nvm''"
definition run_path :: string where "run_path = DEFAULT_DIRECTORY @ ''/runtime_last.run''"

definition autorun_set :: "u8 list option \<Rightarrow> bool" where
  "autorun_set c \<longleftrightarrow> (case c of None \<Rightarrow> False | Some bytes \<Rightarrow> take 1 bytes = [49])"

definition restored_vm :: "NoobVm \<Rightarrow> u8 list option \<Rightarrow> u8 list option \<Rightarrow> NoobVm" where
  "restored_vm v program run = (case vm_load program v of
       Inl _ \<Rightarrow> v
     | Inr loaded \<Rightarrow> if autorun_set run then (case vm_run loaded of Inl _ \<Rightarrow> loaded | Inr started \<Rightarrow> started)
         else loaded)"

lemma runtime_paths [simp]:
  "run_path \<noteq> program_path" "run_path \<noteq> temporary program_path" "run_path \<noteq> backup program_path"
  "backup run_path \<noteq> program_path" "backup run_path \<noteq> temporary program_path" "backup run_path \<noteq> backup program_path"
  "program_path \<noteq> run_path" "program_path \<noteq> temporary run_path" "program_path \<noteq> backup run_path"
  "backup program_path \<noteq> run_path" "backup program_path \<noteq> temporary run_path" "backup program_path \<noteq> backup run_path"
  by (simp_all add: program_path_def run_path_def DEFAULT_DIRECTORY_def temporary_def backup_def)

lemma writeRunFlag_keeps [simp]:
  "vm (snd (writeRunFlag fs b w)) = vm w" "lastProgramPath (snd (writeRunFlag fs b w)) = lastProgramPath w"
  "lastRunPath (snd (writeRunFlag fs b w)) = lastRunPath w" "programVm (snd (writeRunFlag fs b w)) = programVm w"
  by (simp_all add: writeRunFlag_def split: prod.splits)

lemma disable_with_vm [simp]: "vm (snd (disable_with fs e r w)) = vm w"
  by (simp add: disable_with_def)

section \<open>The file system\<close>

text \<open>The content a path has once the file was recovered.\<close>

definition eff :: "('s \<Rightarrow> string \<Rightarrow> u8 list option) \<Rightarrow> string \<Rightarrow> 's \<Rightarrow> u8 list option" where
  "eff view p s = (case view s p of Some c \<Rightarrow> Some c | None \<Rightarrow> view s (backup p))"

definition file_path :: "string \<Rightarrow> bool" where
  "file_path p \<longleftrightarrow> CHR ''.'' \<in> set p"

lemma derived_paths [simp]: "file_path (backup p)" "file_path (temporary p)"
  by (simp_all add: file_path_def backup_def temporary_def)

lemma runtime_file_paths [simp]: "file_path program_path" "file_path run_path"
  by (simp_all add: file_path_def program_path_def run_path_def)

locale filesystem =
  fixes fs :: "'s FS" and view :: "'s \<Rightarrow> string \<Rightarrow> u8 list option"
  assumes exists_iff: "file_path p \<Longrightarrow> fs_exists fs p s \<longleftrightarrow> view s p \<noteq> None"
    and mkdir_view: "fs_mkdir fs p s = (ok, s') \<Longrightarrow> view s' = view s"
    and remove_view: "fs_remove fs p s = (ok, s') \<Longrightarrow> view s' = (if ok then (view s)(p := None) else view s)"
    and rename_view: "fs_rename fs p q s = (True, s') \<Longrightarrow>
          \<exists>c. view s p = Some c \<and> view s' = (view s)(p := None, q := Some c)"
    and rename_fail: "fs_rename fs p q s = (False, s') \<Longrightarrow> view s' = view s"
    and create_other: "fs_create fs p s = (ok, s') \<Longrightarrow> q \<noteq> p \<Longrightarrow> view s' q = view s q"
    and create_view: "fs_create fs p s = (True, s') \<Longrightarrow> view s' p = Some []"
    and write_other: "fs_write fs p bytes s = (n, s') \<Longrightarrow> q \<noteq> p \<Longrightarrow> view s' q = view s q"
    and write_view: "fs_write fs p bytes s = (length bytes, s') \<Longrightarrow> view s p = Some [] \<Longrightarrow>
          view s' p = Some bytes"
begin

definition others :: "string \<Rightarrow> 's \<Rightarrow> 's \<Rightarrow> bool" where
  "others p s t \<longleftrightarrow> (\<forall>q. q \<notin> {p, temporary p, backup p} \<longrightarrow> view t q = view s q)"

definition unchanged_or_lost :: "string \<Rightarrow> 's \<Rightarrow> 's \<Rightarrow> bool" where
  "unchanged_or_lost p s t \<longleftrightarrow> eff view p t = eff view p s \<or> view s p = None \<and> eff view p t = None"

definition keeps_or :: "u8 list \<Rightarrow> string \<Rightarrow> 's \<Rightarrow> 's \<Rightarrow> bool" where
  "keeps_or bytes p s t \<longleftrightarrow> others p s t \<and>
     (eff view p t = eff view p s \<or> eff view p t = Some bytes \<or> (view s p = None \<and> eff view p t = None))"

lemma discard_view: "view (now (discard fs p D)) = (view (now D))(p := None) \<or> view (now (discard fs p D)) = view (now D)"
  unfolding discard_def using on_disk_now remove_view by (metis prod.collapse)

lemma rename_cases:
  assumes "on_disk (fs_rename fs a b) D = (ok, D')"
  obtains c where "ok" "view (now D) a = Some c" "view (now D') = (view (now D))(a := None, b := Some c)"
  | "\<not> ok" "view (now D') = view (now D)"
proof (cases ok)
  case True
  then have "fs_rename fs a b (now D) = (True, now D')" using on_disk_now [OF assms] by simp
  from rename_view [OF this] that(1) True show ?thesis by blast
next
  case False
  then have "fs_rename fs a b (now D) = (False, now D')" using on_disk_now [OF assms] by simp
  from rename_fail [OF this] that(2) False show ?thesis by blast
qed

lemma keeps_orI:
  assumes "others p s t" "view t p = view s p \<and> (view s p = None \<longrightarrow> view t (backup p) = view s (backup p) \<or>
      view t (backup p) = None) \<or> view t p = Some bytes \<or>
      view s p \<noteq> None \<and> view t p = None \<and> view t (backup p) = view s p"
  shows "keeps_or bytes p s t"
  using assms by (auto simp: keeps_or_def eff_def split: option.splits)

lemma others_refl [simp]: "others p s s"
  by (simp add: others_def)

lemma others_upd: "others p s t \<Longrightarrow> view u = (view t)(a := x) \<Longrightarrow> a \<in> {p, temporary p, backup p} \<Longrightarrow> others p s u"
  "others p s t \<Longrightarrow> view u = (view t)(a := x, b := y) \<Longrightarrow> a \<in> {p, temporary p, backup p} \<Longrightarrow>
     b \<in> {p, temporary p, backup p} \<Longrightarrow> others p s u"
  "others p s t \<Longrightarrow> view u = view t \<Longrightarrow> others p s u"
  by (auto simp: others_def)

lemma discard_others: "others p s (now D) \<Longrightarrow> a \<in> {p, temporary p, backup p} \<Longrightarrow> others p s (now (discard fs a D))"
  using discard_view [of a D] others_upd(1,3) by blast

lemma discard_other: "q \<noteq> p \<Longrightarrow> view (now (discard fs p D)) q = view (now D) q"
  using discard_view [of p D] by auto

lemma discard_self: "view (now (discard fs p D)) p = view (now D) p \<or> view (now (discard fs p D)) p = None"
  using discard_view [of p D] by auto

text \<open>Moving the written file into place when there is no previous file.\<close>

lemma install_fresh:
  assumes fp [simp]: "file_path p" and data: "view (now D) (temporary p) = Some bytes" and none: "view (now D) p = None"
    and r: "install fs p D = (r, D')"
  shows "along (keeps_or bytes p (now D)) D D' \<and> others p (now D) (now D') \<and>
    (case r of Inl e \<Rightarrow> unchanged_or_lost p (now D) (now D')
     | Inr _ \<Rightarrow> view (now D') p = Some bytes)"
proof -
  define D1 where "D1 = discard fs (backup p) D"
  have o1: "others p (now D) (now D1)" by (simp add: D1_def discard_others)
  have v1: "view (now D1) p = None" using none by (simp add: D1_def discard_other)
  have b1: "view (now D1) (backup p) = view (now D) (backup p) \<or> view (now D1) (backup p) = None"
    using discard_self [of "backup p" D] by (simp add: D1_def)
  have q1: "keeps_or bytes p (now D) (now D1)" using o1 v1 b1 none by (intro keeps_orI) auto
  have a1: "along (keeps_or bytes p (now D)) D D1" using q1 unfolding D1_def by (rule discard_along)
  obtain moved D2 where m: "on_disk (fs_rename fs (temporary p) p) D1 = (moved, D2)"
    by (metis prod.collapse)
  have inst: "install fs p D = (if \<not> moved then (Inl (''cannot install '' @ p), D2)
      else (Inr (), discard fs (backup p) D2))"
    using v1 m by (simp add: install_def Let_def exists_iff flip: D1_def)
  show ?thesis
  proof (cases moved)
    case True
    then have v2: "view (now D2) = (view (now D1))(temporary p := None, p := Some bytes)"
      using data by - (rule rename_cases [OF m], auto simp: D1_def discard_other)
    have o2: "others p (now D) (now D2)" using o1 v2 by (rule others_upd(2)) auto
    have q2: "keeps_or bytes p (now D) (now D2)" using o2 v2 by (intro keeps_orI) auto
    let ?D3 = "discard fs (backup p) D2"
    have o3: "others p (now D) (now ?D3)" using o2 by (simp add: discard_others)
    have v3: "view (now ?D3) p = Some bytes" using v2 by (simp add: discard_other)
    have q3: "keeps_or bytes p (now D) (now ?D3)" using o3 v3 by (intro keeps_orI) auto
    have "along (keeps_or bytes p (now D)) D ?D3" by (rule along_discard [OF along_op [OF a1 m q2] q3])
    then show ?thesis using r inst True o3 v3 by auto
  next
    case False
    then have v2: "view (now D2) = view (now D1)" by - (rule rename_cases [OF m], auto)
    have o2: "others p (now D) (now D2)" using o1 v2 by (rule others_upd(3))
    have q2: "keeps_or bytes p (now D) (now D2)" using o2 v2 v1 b1 none by (intro keeps_orI) auto
    have "along (keeps_or bytes p (now D)) D D2" by (rule along_op [OF a1 m q2])
    moreover have "unchanged_or_lost p (now D) (now D2)"
      using v2 v1 b1 none by (auto simp: unchanged_or_lost_def eff_def)
    ultimately show ?thesis using r inst False o2 by auto
  qed
qed

text \<open>Moving the written file into place over a previous file, after that file was kept aside.\<close>

lemma move_over:
  assumes old: "view s p = Some old" and a: "along (keeps_or bytes p s) D D2" and o2: "others p s (now D2)"
    and v: "view (now D2) p = None" "view (now D2) (backup p) = Some old" "view (now D2) (temporary p) = Some bytes"
    and m: "on_disk (fs_rename fs (temporary p) p) D2 = (moved, D3)"
    and b: "on_disk (fs_rename fs (backup p) p) D3 = (undone, D4)"
  shows "moved \<Longrightarrow> along (keeps_or bytes p s) D (discard fs (backup p) D3) \<and>
      others p s (now (discard fs (backup p) D3)) \<and> view (now (discard fs (backup p) D3)) p = Some bytes"
    and "\<not> moved \<Longrightarrow> along (keeps_or bytes p s) D D4 \<and> others p s (now D4) \<and> eff view p (now D4) = Some old"
proof -
  let ?Q = "keeps_or bytes p s" and ?D = "discard fs (backup p) D3"
  assume moved
  then have v3: "view (now D3) = (view (now D2))(temporary p := None, p := Some bytes)"
    using v by - (rule rename_cases [OF m], auto)
  have o3: "others p s (now D3)" using o2 v3 by (rule others_upd(2)) auto
  have q3: "?Q (now D3)" using o3 v3 by (intro keeps_orI) auto
  have o4: "others p s (now ?D)" using o3 by (simp add: discard_others)
  have v4: "view (now ?D) p = Some bytes" using v3 by (simp add: discard_other)
  have q4: "?Q (now ?D)" using o4 v4 by (intro keeps_orI) auto
  have "along ?Q D ?D" by (rule along_discard [OF along_op [OF a m q3] q4])
  then show "along ?Q D ?D \<and> others p s (now ?D) \<and> view (now ?D) p = Some bytes" using o4 v4 by simp
next
  let ?Q = "keeps_or bytes p s"
  assume "\<not> moved"
  then have v3: "view (now D3) = view (now D2)" by - (rule rename_cases [OF m], auto)
  have o3: "others p s (now D3)" using o2 v3 by (rule others_upd(3))
  have q3: "?Q (now D3)" using o3 v3 v old by (intro keeps_orI) auto
  have v4: "view (now D4) = (view (now D3))(backup p := None, p := Some old) \<or> view (now D4) = view (now D3)"
    using v3 v by - (rule rename_cases [OF b], auto)
  have o4: "others p s (now D4)" using v4 o3 others_upd(2,3) by blast
  have q4: "?Q (now D4)" using o4 v4 v3 v old by (intro keeps_orI) auto
  have "along ?Q D D4" by (rule along_op [OF along_op [OF a m q3] b q4])
  then show "along ?Q D D4 \<and> others p s (now D4) \<and> eff view p (now D4) = Some old"
    using o4 v4 v3 v by (auto simp: eff_def)
qed

lemma install_over:
  assumes fp [simp]: "file_path p" and data: "view (now D) (temporary p) = Some bytes" and old: "view (now D) p = Some old"
    and r: "install fs p D = (r, D')"
  shows "along (keeps_or bytes p (now D)) D D' \<and> others p (now D) (now D') \<and>
    (case r of Inl e \<Rightarrow> eff view p (now D') = Some old | Inr _ \<Rightarrow> view (now D') p = Some bytes)"
proof -
  let ?Q = "keeps_or bytes p (now D)"
  define D1 where "D1 = discard fs (backup p) D"
  have o1: "others p (now D) (now D1)" by (simp add: D1_def discard_others)
  have v1: "view (now D1) p = Some old" "view (now D1) (temporary p) = Some bytes"
    using old data by (simp_all add: D1_def discard_other)
  have q1: "?Q (now D1)" using o1 v1 old by (intro keeps_orI) auto
  have a1: "along ?Q D D1" using q1 unfolding D1_def by (rule discard_along)
  obtain kept D2 where k: "on_disk (fs_rename fs p (backup p)) D1 = (kept, D2)" by (metis prod.collapse)
  obtain moved D3 where m: "on_disk (fs_rename fs (temporary p) p) D2 = (moved, D3)" by (metis prod.collapse)
  obtain undone D4 where b: "on_disk (fs_rename fs (backup p) p) D3 = (undone, D4)" by (metis prod.collapse)
  have inst: "install fs p D =
      (if \<not> kept then (Inl (''cannot preserve previous '' @ p), discard fs (temporary p) D2)
       else if \<not> moved then (Inl (''cannot install '' @ p), D4)
       else (Inr (), discard fs (backup p) D3))"
    using v1 k m b by (simp add: install_def Let_def exists_iff flip: D1_def)
  show ?thesis
  proof (cases kept)
    case False
    let ?D = "discard fs (temporary p) D2"
    have v2: "view (now D2) = view (now D1)" using False by - (rule rename_cases [OF k], auto)
    have o2: "others p (now D) (now D2)" using o1 v2 by (rule others_upd(3))
    have q2: "?Q (now D2)" using o2 v2 v1 old by (intro keeps_orI) auto
    have o3: "others p (now D) (now ?D)" using o2 by (simp add: discard_others)
    have v3: "view (now ?D) p = Some old" using v1 v2 by (simp add: discard_other)
    have q3: "?Q (now ?D)" using o3 v3 old by (intro keeps_orI) auto
    show ?thesis using along_discard [OF along_op [OF a1 k q2] q3] r inst False o3 v3 by (auto simp: eff_def)
  next
    case True
    then have v2: "view (now D2) = (view (now D1))(p := None, backup p := Some old)"
      using v1 by - (rule rename_cases [OF k], auto)
    have o2: "others p (now D) (now D2)" using o1 v2 by (rule others_upd(2)) auto
    have q2: "?Q (now D2)" using o2 v2 old by (intro keeps_orI) auto
    have v: "view (now D2) p = None" "view (now D2) (backup p) = Some old"
        "view (now D2) (temporary p) = Some bytes" using v2 v1 by simp_all
    show ?thesis using move_over [OF old along_op [OF a1 k q2] o2 v m b] r inst True by (cases moved) auto
  qed
qed

definition written_effect :: "u8 list \<Rightarrow> string \<Rightarrow> 's \<Rightarrow> string + unit \<Rightarrow> 's \<Rightarrow> bool" where
  "written_effect bytes p s r t \<longleftrightarrow> others p s t \<and>
     (case r of Inl e \<Rightarrow> unchanged_or_lost p s t | Inr _ \<Rightarrow> view t p = Some bytes)"

lemma install_effect:
  assumes fp: "file_path p" and "view (now D) (temporary p) = Some bytes" "install fs p D = (r, D')"
  shows "along (keeps_or bytes p (now D)) D D'" "written_effect bytes p (now D) r (now D')"
proof -
  have *: "along (keeps_or bytes p (now D)) D D' \<and> written_effect bytes p (now D) r (now D')"
  proof (cases "view (now D) p")
    case None
    show ?thesis using install_fresh [OF fp assms(2) None assms(3)] None
      by (cases r) (auto simp: written_effect_def unchanged_or_lost_def keeps_or_def eff_def)
  next
    case (Some old)
    show ?thesis using install_over [OF fp assms(2) Some assms(3)] Some
      by (cases r) (auto simp: written_effect_def unchanged_or_lost_def eff_def)
  qed
  show "along (keeps_or bytes p (now D)) D D'" using * by simp
  show "written_effect bytes p (now D) r (now D')" using * by simp
qed

definition same_but_tmp :: "string \<Rightarrow> 's \<Rightarrow> 's \<Rightarrow> bool" where
  "same_but_tmp p s t \<longleftrightarrow> (\<forall>q. q \<noteq> temporary p \<longrightarrow> view t q = view s q)"

lemma same_but_tmp_shift:
  assumes "same_but_tmp p s t"
  shows "eff view p t = eff view p s" "keeps_or bytes p t = keeps_or bytes p s"
    "written_effect bytes p t = written_effect bytes p s"
proof -
  have [simp]: "view t q = view s q" if "q \<noteq> temporary p" for q using assms that by (simp add: same_but_tmp_def)
  show e: "eff view p t = eff view p s" by (cases "view s p") (simp_all add: eff_def)
  have o: "others p t = others p s" by (auto simp: others_def fun_eq_iff)
  show "keeps_or bytes p t = keeps_or bytes p s" by (simp add: keeps_or_def fun_eq_iff e o)
  have u: "unchanged_or_lost p t = unchanged_or_lost p s" by (simp add: unchanged_or_lost_def fun_eq_iff e)
  show "written_effect bytes p t = written_effect bytes p s" 
    by (simp add: written_effect_def fun_eq_iff o u split: sum.split)
qed

lemma same_but_tmp_keeps: "same_but_tmp p s t \<Longrightarrow> keeps_or bytes p s t"
  using same_but_tmp_shift(2) [of p s t bytes] by (metis keeps_or_def others_refl)

lemma same_but_tmp_fails: "same_but_tmp p s t \<Longrightarrow> written_effect bytes p s (Inl e) t"
  using same_but_tmp_shift(1) [of p s t]
  by (auto simp: same_but_tmp_def written_effect_def others_def unchanged_or_lost_def)

lemma discard_tmp: "same_but_tmp p s (now D) \<Longrightarrow> same_but_tmp p s (now (discard fs (temporary p) D))"
  by (simp add: same_but_tmp_def discard_other)

theorem atomicWrite_effect:
  assumes fp: "file_path p" and aws: "atomicWrite fs p bytes D = (r, D')"
  shows "along (keeps_or bytes p (now D)) D D'" "written_effect bytes p (now D) r (now D')"
proof -
  let ?s = "now D" and ?Q = "keeps_or bytes p (now D)"
  define D1 where "D1 = discard fs (temporary p) D"
  obtain opened D2 where c: "on_disk (fs_create fs (temporary p)) D1 = (opened, D2)" by (metis prod.collapse)
  obtain written D3 where w: "on_disk (fs_write fs (temporary p) bytes) D2 = (written, D3)" by (metis prod.collapse)
  have t1: "same_but_tmp p ?s (now D1)" by (simp add: D1_def discard_tmp same_but_tmp_def discard_other)
  have t2: "same_but_tmp p ?s (now D2)"
    using t1 create_other [OF on_disk_now [OF c]] by (simp add: same_but_tmp_def)
  have t3: "same_but_tmp p ?s (now D3)"
    using t2 write_other [OF on_disk_now [OF w]] by (simp add: same_but_tmp_def)
  have a1: "along ?Q D D1"
    unfolding D1_def by (rule discard_along) (use same_but_tmp_keeps [OF t1] in \<open>simp add: D1_def\<close>)
  note a2 = along_op [OF a1 c same_but_tmp_keeps [OF t2]]
  note a3 = along_op [OF a2 w same_but_tmp_keeps [OF t3]]
  have aw: "atomicWrite fs p bytes D =
      (if \<not> opened then (Inl (''cannot create '' @ temporary p), D2)
       else if written \<noteq> length bytes
       then (Inl (''short write '' @ show_nat written @ ''/'' @ show_nat (length bytes)), discard fs (temporary p) D3)
       else install fs p D3)"
    using c w by (simp add: atomicWrite_def Let_def flip: D1_def)
  have "along ?Q D D' \<and> written_effect bytes p ?s r (now D')"
  proof (cases "opened \<and> written = length bytes")
    case False
    then consider "r = Inl (''cannot create '' @ temporary p)" "D' = D2"
      | e where "r = Inl e" "D' = discard fs (temporary p) D3"
      using aw aws by (cases opened) auto
    then show ?thesis
      using a2 along_discard [OF a3 same_but_tmp_keeps [OF discard_tmp [OF t3]]]
        same_but_tmp_fails [OF t2] same_but_tmp_fails [OF discard_tmp [OF t3]] by cases auto
  next
    case True
    have "fs_create fs (temporary p) (now D1) = (True, now D2)" using on_disk_now [OF c] True by simp
    then have "view (now D2) (temporary p) = Some []" by (rule create_view)
    then have "view (now D3) (temporary p) = Some bytes"
      using write_view on_disk_now [OF w] True by simp
    moreover have "install fs p D3 = (r, D')" using aw aws True by simp
    ultimately have "along (keeps_or bytes p (now D3)) D3 D'" "written_effect bytes p (now D3) r (now D')"
      using install_effect [OF fp] by blast+
    then show ?thesis using same_but_tmp_shift(2,3) [OF t3] along_trans [OF a3] by simp
  qed
  then show "along ?Q D D'" "written_effect bytes p ?s r (now D')" by auto
qed

lemma written_keeps: "written_effect bytes p s r t \<Longrightarrow> keeps_or bytes p s t"
  by (cases r) (auto simp: written_effect_def keeps_or_def unchanged_or_lost_def eff_def)

lemma others_eff:
  assumes "others p s t" "q \<notin> {p, temporary p, backup p}" "backup q \<notin> {p, temporary p, backup p}"
  shows "eff view q t = eff view q s"
  using assms by (simp add: others_def eff_def split: option.split)

lemma written_fail_refl [simp]: "written_effect bytes p s (Inl e) s"
  by (simp add: written_effect_def unchanged_or_lost_def)

lemma writeRunFlag_effect:
  assumes "writeRunFlag fs b w = (r, w')" "lastRunPath w = run_path"
  shows "along (keeps_or (run_flag b) run_path (now (sd w))) (sd w) (sd w')"
    "written_effect (run_flag b) run_path (now (sd w)) r (now (sd w'))"
  using assms atomicWrite_effect [of run_path "run_flag b" "sd w"]
  by (auto simp: writeRunFlag_def split: prod.splits)

lemma writeCurrentProgram_effect:
  assumes "writeCurrentProgram fs w = (r, w')" "lastProgramPath w = program_path"
  shows "along (keeps_or (programData (vm w)) program_path (now (sd w))) (sd w) (sd w')"
    "written_effect (programData (vm w)) program_path (now (sd w)) r (now (sd w'))"
  using assms atomicWrite_effect [of program_path "programData (vm w)" "sd w"]
  by (auto simp: writeCurrentProgram_def split: prod.splits if_splits)

section \<open>Starting a program, cut at any moment\<close>

definition harmless :: "u8 list \<Rightarrow> 's \<Rightarrow> 's \<Rightarrow> bool" where
  "harmless bytes s t \<longleftrightarrow> (autorun_set (eff view run_path t) \<longrightarrow> eff view program_path t = Some bytes \<or>
     eff view run_path t = eff view run_path s \<and> eff view program_path t = eff view program_path s)"

lemma harmless_flag_off:
  "keeps_or (run_flag False) run_path t u \<Longrightarrow> harmless bytes s t \<Longrightarrow> harmless bytes s u"
  using others_eff [of run_path t u program_path]
  by (auto simp: keeps_or_def harmless_def autorun_set_def run_flag_def)

lemma harmless_program:
  "keeps_or bytes program_path t u \<Longrightarrow> \<not> autorun_set (eff view run_path t) \<Longrightarrow> harmless bytes s u"
  using others_eff [of program_path t u run_path] by (auto simp: keeps_or_def harmless_def)

lemma harmless_flag_on:
  "keeps_or (run_flag True) run_path t u \<Longrightarrow> eff view program_path t = Some bytes \<Longrightarrow> harmless bytes s u"
  using others_eff [of run_path t u program_path] by (auto simp: keeps_or_def harmless_def)

lemma harmless_off_step:
  assumes "writeRunFlag fs False w = (r, w')" "lastRunPath w = run_path" "harmless bytes s (now (sd w))"
  shows "along (harmless bytes s) (sd w) (sd w')" "harmless bytes s (now (sd w'))"
  using writeRunFlag_effect [OF assms(1,2)] assms(3)
  by (auto elim: along_mono harmless_flag_off dest: written_keeps)

lemma snapshot_harmless:
  assumes "snapshot fs w = (r, w')" and paths: "lastRunPath w = run_path" "lastProgramPath w = program_path"
  defines "B \<equiv> programData (vm w)" and "s \<equiv> now (sd w)"
  shows "along (harmless B s) (sd w) (sd w') \<and> harmless B s (now (sd w')) \<and>
    (r = Inr () \<longrightarrow> eff view program_path (now (sd w')) = Some B \<and> eff view run_path (now (sd w')) = Some [49])"
proof -
  obtain r1 w1 where p1: "writeRunFlag fs False w = (r1, w1)" by (metis prod.collapse)
  obtain r2 w2 where p2: "writeCurrentProgram fs w1 = (r2, w2)" by (metis prod.collapse)
  obtain r3 w3 where p3: "writeRunFlag fs True w2 = (r3, w3)" by (metis prod.collapse)
  have k1: "vm w1 = vm w" "lastRunPath w1 = run_path" "lastProgramPath w1 = program_path"
    using p1 paths writeRunFlag_keeps [of fs False w] by auto
  have k2: "lastRunPath w2 = run_path"
    using p2 k1 by (auto simp: writeCurrentProgram_def split: if_splits prod.splits)
  have "harmless B s (now (sd w))" by (simp add: harmless_def s_def)
  note h1 = harmless_off_step [OF p1 paths(1) this]
  note e2 = writeCurrentProgram_effect [OF p2 k1(3), unfolded k1(1), folded B_def]
  note e3 = writeRunFlag_effect [OF p3 k2]
  show ?thesis
  proof (cases r1)
    case (Inl e)
    then show ?thesis using assms(1) p1 h1 by (auto simp: snapshot_def)
  next
    case r1: (Inr _)
    have off: "\<not> autorun_set (eff view run_path (now (sd w1)))"
      using writeRunFlag_effect(2) [OF p1 paths(1)] r1
      by (simp add: written_effect_def eff_def run_flag_def autorun_set_def)
    have a2: "along (harmless B s) (sd w) (sd w2)"
      using h1(1) along_mono [OF e2(1) harmless_program [OF _ off]] by (rule along_trans)
    have n2: "harmless B s (now (sd w2))" using written_keeps [OF e2(2)] off by (rule harmless_program)
    show ?thesis
    proof (cases r2)
      case (Inl e)
      then show ?thesis using assms(1) p1 p2 r1 a2 n2 by (auto simp: snapshot_def)
    next
      case r2: (Inr _)
      have P: "eff view program_path (now (sd w2)) = Some B"
        using e2(2) r2 by (simp add: written_effect_def eff_def)
      have a3: "along (harmless B s) (sd w) (sd w3)"
        using a2 along_mono [OF e3(1) harmless_flag_on [OF _ P]] by (rule along_trans)
      have n3: "harmless B s (now (sd w3))" using written_keeps [OF e3(2)] P by (rule harmless_flag_on)
      have "eff view program_path (now (sd w3)) = Some B"
        using others_eff [of run_path "now (sd w2)" "now (sd w3)" program_path] e3(2) P
        by (simp add: written_effect_def)
      moreover have "eff view run_path (now (sd w3)) = Some [49]" if "r3 = Inr ()"
        using e3(2) that by (simp add: written_effect_def eff_def run_flag_def)
      ultimately show ?thesis using assms(1) p1 p2 p3 r1 r2 a3 n3 by (simp add: snapshot_def)
    qed
  qed
qed

lemma onStarted_harmless:
  assumes "store_onStarted fs w = (msg, w')" "lastRunPath w = run_path" "lastProgramPath w = program_path"
  shows "along (harmless (programData (vm w)) (now (sd w))) (sd w) (sd w') \<and>
    (msg = ''persistence=stored autorun=1'' \<longrightarrow>
       eff view program_path (now (sd w')) = Some (programData (vm w)) \<and> eff view run_path (now (sd w')) = Some [49])"
proof -
  obtain r w1 where p: "snapshot fs w = (r, w1)" by (metis prod.collapse)
  obtain r2 w2 where q: "writeRunFlag fs False w1 = (r2, w2)" by (metis prod.collapse)
  note h = snapshot_harmless [OF p assms(2,3)]
  have k: "lastRunPath w1 = run_path"
    using p assms(2) by (auto simp: snapshot_def writeRunFlag_def writeCurrentProgram_def split: prod.splits sum.splits if_splits)
  have h2: "along (harmless (programData (vm w)) (now (sd w))) (sd w) (sd w2)"
    using h harmless_off_step(1) [OF q k] along_trans [of "harmless (programData (vm w)) (now (sd w))" "sd w" "sd w1" "sd w2"] by simp
  show ?thesis using assms(1) p q h h2 by (cases r) (auto simp: store_onStarted_def split: if_splits)
qed

end

locale reliable_filesystem = filesystem +
  assumes mkdir_works: "\<not> fs_exists fs p s \<Longrightarrow> fst (fs_mkdir fs p s)"
    and rename_works: "view s p = Some c \<Longrightarrow> view s q = None \<Longrightarrow> fst (fs_rename fs p q s)"
    and size_view: "fs_size fs p s = map_option length (view s p)"
    and read_view: "view s p = Some c \<Longrightarrow> fs_read fs p n s = take n c"
begin

lemma recoverFile_view:
  assumes [simp]: "file_path p"
  shows "view (now (recoverFile fs p D)) p = eff view p (now D)" "others p (now D) (now (recoverFile fs p D))"
proof -
  define D1 where "D1 = discard fs (temporary p) D"
  have v: "view (now D1) q = view (now D) q" if "q \<noteq> temporary p" for q
    using that by (simp add: D1_def discard_other)
  have o: "others p (now D) (now D1)" by (simp add: D1_def discard_others)
  have "view (now (recoverFile fs p D)) p = eff view p (now D) \<and> others p (now D) (now (recoverFile fs p D))"
  proof (cases "view (now D) p = None \<and> view (now D) (backup p) \<noteq> None")
    case False
    then have "recoverFile fs p D = discard fs (backup p) D1"
      using v by (auto simp: recoverFile_def Let_def exists_iff simp flip: D1_def)
    then show ?thesis using False v o by (auto simp: discard_other discard_others eff_def split: option.splits)
  next
    case True
    then obtain c where c: "view (now D) (backup p) = Some c" by blast
    obtain ok D2 where r: "on_disk (fs_rename fs (backup p) p) D1 = (ok, D2)" by (metis prod.collapse)
    have "fst (fs_rename fs (backup p) p (now D1))" using rename_works [of "now D1" "backup p" c p] v c True by simp
    then have ok using on_disk_now [OF r] by simp
    then have "view (now D2) = (view (now D1))(backup p := None, p := Some c)"
      using v c by - (rule rename_cases [OF r], auto)
    moreover have "recoverFile fs p D = D2"
      using v r True by (auto simp: recoverFile_def Let_def exists_iff simp flip: D1_def)
    ultimately show ?thesis using True c others_upd(2) [OF o, of "now D2"] by (simp add: eff_def)
  qed
  then show "view (now (recoverFile fs p D)) p = eff view p (now D)"
    "others p (now D) (now (recoverFile fs p D))" by auto
qed

lemma begin_recovers:
  assumes "sd_ready w"
  obtains w' where "store_begin fs (Some DEFAULT_DIRECTORY) w = (True, w')" "vm w' = vm w" "programVm w'"
    "lastProgramPath w' = program_path" "lastRunPath w' = run_path"
    "view (now (sd w')) program_path = eff view program_path (now (sd w))"
    "view (now (sd w')) run_path = eff view run_path (now (sd w))" "programDirectory w' = DEFAULT_DIRECTORY"
    "\<And>q. q \<notin> {program_path, temporary program_path, backup program_path, run_path, temporary run_path, backup run_path} \<Longrightarrow>
       view (now (sd w')) q = view (now (sd w)) q"
proof -
  obtain made D where D: "(if fs_exists fs DEFAULT_DIRECTORY (now (sd w)) then (True, sd w)
      else on_disk (fs_mkdir fs DEFAULT_DIRECTORY) (sd w)) = (made, D)" by (metis prod.collapse)
  have made: "made" "view (now D) = view (now (sd w))"
    using D mkdir_works [of DEFAULT_DIRECTORY "now (sd w)"] mkdir_view [of DEFAULT_DIRECTORY "now (sd w)"]
      on_disk_now [of "fs_mkdir fs DEFAULT_DIRECTORY" "sd w"]
    by (auto split: if_splits)
  have sb: "store_begin fs (Some DEFAULT_DIRECTORY) w = (True, w\<lparr>programVm := True,
      programDirectory := DEFAULT_DIRECTORY, lastProgramPath := program_path, lastRunPath := run_path,
      sd := recoverFile fs run_path (recoverFile fs program_path D), persistenceStatus := ''ready''\<rparr>)"
    using D made(1) assms by (cases "fs_exists fs DEFAULT_DIRECTORY (now (sd w))")
      (simp_all add: store_begin_def Let_def program_path_def run_path_def)
  have e: "eff view q (now D) = eff view q (now (sd w))" for q by (simp only: eff_def made(2))
  let ?E = "recoverFile fs program_path D"
  have o: "view (now ?E) q = view (now D) q" if "q \<notin> {program_path, temporary program_path, backup program_path}" for q
    using recoverFile_view(2) [of program_path D] that by (simp add: others_def)
  have "view (now (recoverFile fs run_path ?E)) program_path = eff view program_path (now D)"
    using recoverFile_view(2) [of run_path ?E] recoverFile_view(1) [of program_path D] by (simp add: others_def)
  moreover have "view (now (recoverFile fs run_path ?E)) run_path = eff view run_path (now D)"
    using recoverFile_view(1) [of run_path ?E] o by (simp add: eff_def split: option.split)
  moreover have "view (now (recoverFile fs run_path ?E)) q = view (now (sd w)) q"
    if "q \<notin> {program_path, temporary program_path, backup program_path, run_path, temporary run_path, backup run_path}" for q
    using recoverFile_view(2) [of run_path ?E] o that made(2) by (simp add: others_def)
  ultimately show ?thesis
    using that [OF sb] e by simp
qed

theorem boot_vm:
  assumes "sd_ready w"
  shows "vm (snd (boot_store fs w)) = restored_vm (vm w) (eff view program_path (now (sd w))) (eff view run_path (now (sd w)))"
proof -
  obtain w' where b: "store_begin fs (Some DEFAULT_DIRECTORY) w = (True, w')" "vm w' = vm w" "programVm w'"
    "lastProgramPath w' = program_path" "lastRunPath w' = run_path"
    "view (now (sd w')) program_path = eff view program_path (now (sd w))"
    "view (now (sd w')) run_path = eff view run_path (now (sd w))"
    by (rule begin_recovers [OF assms]) (rule that)
  have flag: "readRunFlag fs (w'\<lparr>vm := v\<rparr>) = autorun_set (eff view run_path (now (sd w)))" for v
    using b(5,7) by (cases "eff view run_path (now (sd w))")
      (simp_all add: readRunFlag_def autorun_set_def size_view read_view)
  show ?thesis
  proof (cases "eff view program_path (now (sd w))")
    case None
    then show ?thesis using b by (simp add: boot_store_def restoreLast_def restored_vm_def vm_load_def size_view)
  next
    case (Some c)
    have c: "take (length c) c = c" by simp
    show ?thesis using b Some flag
      by (simp add: boot_store_def restoreLast_def restored_vm_def size_view read_view Let_def
          vm_load_def split: sum.split)
  qed
qed

end

section \<open>A card with planned failures\<close>

record Card =
  files :: "(string \<times> u8 list) list"
  plan :: "bool list"

definition card_view :: "Card \<Rightarrow> string \<Rightarrow> u8 list option" where
  "card_view c = map_of (files c)"

definition works :: "bool \<Rightarrow> Card \<Rightarrow> bool" where
  "works faulty c \<longleftrightarrow> faulty \<longrightarrow> plan c = [] \<or> hd (plan c)"

definition forget :: "string \<Rightarrow> (string \<times> u8 list) list \<Rightarrow> (string \<times> u8 list) list" where
  "forget p fs = filter (\<lambda>(q, c). q \<noteq> p) fs"

definition card_put :: "string \<Rightarrow> u8 list \<Rightarrow> Card \<Rightarrow> Card" where
  "card_put p bytes c = c\<lparr>files := (p, bytes) # forget p (files c), plan := tl (plan c)\<rparr>"

definition card_drop :: "string \<Rightarrow> Card \<Rightarrow> Card" where
  "card_drop p c = c\<lparr>files := forget p (files c), plan := tl (plan c)\<rparr>"

definition card_spend :: "Card \<Rightarrow> Card" where
  "card_spend c = c\<lparr>plan := tl (plan c)\<rparr>"

definition card_fs :: "bool \<Rightarrow> Card FS" where
  "card_fs faulty = \<lparr>fs_exists = \<lambda>p c. card_view c p \<noteq> None,
     fs_mkdir = \<lambda>p c. (works faulty c, card_spend c),
     fs_remove = \<lambda>p c. if works faulty c \<and> card_view c p \<noteq> None then (True, card_drop p c) else (False, card_spend c),
     fs_rename = \<lambda>p q c. (case card_view c p of
         Some bytes \<Rightarrow> if works faulty c \<and> card_view c q = None then (True, card_put q bytes (c\<lparr>files := forget p (files c)\<rparr>))
           else (False, card_spend c)
       | None \<Rightarrow> (False, card_spend c)),
     fs_create = \<lambda>p c. if works faulty c then (True, card_put p [] c) else (False, card_spend c),
     fs_write = \<lambda>p bytes c. (case card_view c p of
         Some old \<Rightarrow> if works faulty c then (length bytes, card_put p (old @ bytes) c) else (0, card_spend c)
       | None \<Rightarrow> (0, card_spend c)),
     fs_size = \<lambda>p c. map_option length (card_view c p),
     fs_read = \<lambda>p n c. (case card_view c p of Some bytes \<Rightarrow> take n bytes | None \<Rightarrow> []),
     fs_entries = \<lambda>p c. Some (map (\<lambda>(q, _). (q, False)) (files c))\<rparr>"

lemma map_of_forget: "map_of (forget p fs) = (map_of fs)(p := None)"
  by (induction fs) (auto simp: forget_def fun_eq_iff)

lemma card_views [simp]:
  "card_view (card_put p bytes c) = (card_view c)(p := Some bytes)"
  "card_view (card_drop p c) = (card_view c)(p := None)"
  "card_view (card_spend c) = card_view c"
  "card_view (c\<lparr>files := forget p (files c)\<rparr>) = (card_view c)(p := None)"
  by (simp_all add: card_view_def card_put_def card_drop_def card_spend_def map_of_forget fun_eq_iff)

interpretation card: filesystem "card_fs faulty" card_view for faulty
  by unfold_locales (auto simp: card_fs_def split: if_splits option.splits)

interpretation safe_card: reliable_filesystem "card_fs False" card_view
  by unfold_locales (auto simp: card_fs_def works_def split: option.splits)

end
