(* ===== verification/Store_Runs.thy ===== *)
theory Store_Runs
  imports Store_Safety
begin

text \<open>
  The program store seen from outside: a start of a program interrupted by a power cut, a start
  followed by a boot, saving and loading by name, and the moment at which a saved program that is
  being replaced is lost to the store.
\<close>

definition power_on :: "'s FS \<Rightarrow> ('s, 'a) store_world_scheme \<Rightarrow> 's \<Rightarrow> ('s, 'a) store_world_scheme" where
  "power_on fs b s = snd (boot_store fs (b\<lparr>sd := \<lparr>now = s, visited = []\<rparr>\<rparr>))"

definition torn :: "('s \<Rightarrow> string \<Rightarrow> u8 list option) \<Rightarrow> 's \<Rightarrow> 's \<Rightarrow> bool" where
  "torn view s t \<longleftrightarrow> (\<forall>q. q \<notin> {temporary run_path, temporary program_path} \<longrightarrow> view t q = view s q)"

lemma torn_eff: "torn view s t \<Longrightarrow> eff view run_path t = eff view run_path s \<and> eff view program_path t = eff view program_path s"
  by (simp add: torn_def eff_def split: option.split)

lemma power_on_vm:
  "reliable_filesystem fs view \<Longrightarrow> sd_ready b \<Longrightarrow>
   vm (power_on fs b s) = restored_vm (vm b) (eff view program_path s) (eff view run_path s)"
  using reliable_filesystem.boot_vm [of fs view "b\<lparr>sd := \<lparr>now = s, visited = []\<rparr>\<rparr>"] by (simp add: power_on_def)

lemma restored_active: "vm_active (restored_vm v p r) \<Longrightarrow> \<not> vm_active v \<Longrightarrow> autorun_set r"
  by (auto simp: restored_vm_def vm_load_def vm_active_def split: option.splits if_splits)

lemma restored_program:
  "vm_active (restored_vm v (Some bytes) r) \<Longrightarrow> \<not> vm_active v \<Longrightarrow> programData (restored_vm v (Some bytes) r) = bytes"
  by (auto simp: restored_vm_def vm_load_def vm_run_def programData_def split: if_splits)

text \<open>C17: A power cut at any moment while the store records a started program never makes the next
  boot run anything but a whole program: if the boot starts the machine, then either it runs exactly
  the program that was being recorded, or it restores what it would have restored before the start.
  Every call of the card may fail while the program is being recorded, and the file being written
  when the power went may hold anything.\<close>

theorem start_survives_power_cut:
  assumes "filesystem fs view" and boot: "reliable_filesystem boot_fs view"
    and paths: "lastRunPath w = run_path" "lastProgramPath w = program_path"
    and start: "store_onStarted fs w = (msg, w')" "visited (sd w') = visited (sd w) @ ss" "s \<in> set ss"
    and cut: "torn view s t" and b: "sd_ready b" "\<not> vm_active (vm b)" "vm_active (vm (power_on boot_fs b t))"
  shows "programData (vm (power_on boot_fs b t)) = programData (vm w) \<or>
    vm (power_on boot_fs b t) = vm (power_on boot_fs b (now (sd w)))"
proof -
  have "filesystem.harmless view (programData (vm w)) (now (sd w)) s"
    using filesystem.onStarted_harmless [OF assms(1) start(1) paths] along_visited [OF _ start(2,3)] by blast
  moreover have "autorun_set (eff view run_path s)"
    using b torn_eff [OF cut] restored_active by (simp add: power_on_vm [OF boot b(1)])
  ultimately consider "eff view program_path s = Some (programData (vm w))"
    | "eff view run_path s = eff view run_path (now (sd w))" "eff view program_path s = eff view program_path (now (sd w))"
    by (auto simp: filesystem.harmless_def [OF assms(1)])
  then show ?thesis
    using b torn_eff [OF cut] restored_program by cases (auto simp: power_on_vm [OF boot b(1)])
qed

definition store_board :: "u8 list \<Rightarrow> Card \<Rightarrow> Card store_world" where
  "store_board program c = usb_world.extend (usb_world.truncate ((usb_board [])\<lparr>vm :=
       (case vm_load (Some program) initial_vm of Inl _ \<Rightarrow> initial_vm | Inr v \<Rightarrow> v)\<rparr>))
     (store_world.fields True DEFAULT_DIRECTORY program_path run_path ''ready'' True \<lparr>now = c, visited = []\<rparr>)"

definition old_card :: Card where
  "old_card = \<lparr>files = [(program_path, [7, 7]), (run_path, [49])], plan = []\<rparr>"

lemma store_board_parts [simp]:
  "lastRunPath (store_board p c) = run_path" "lastProgramPath (store_board p c) = program_path"
  "sd (store_board p c) = \<lparr>now = c, visited = []\<rparr>" "programVm (store_board p c)" "sd_ready (store_board p c)"
  "vm (store_board p c) = (case vm_load (Some p) initial_vm of Inl _ \<Rightarrow> initial_vm | Inr v \<Rightarrow> v)"
  "programDirectory (store_board p c) = DEFAULT_DIRECTORY"
  by (simp_all add: store_board_def usb_world.defs store_world.defs)

text \<open>On a card without failures every start is recorded, and the last state is the present one.\<close>

definition tracked :: "'s Disk \<Rightarrow> bool" where
  "tracked D \<longleftrightarrow> visited D \<noteq> [] \<and> last (visited D) = now D"

lemma tracked_ops [simp]: "tracked (snd (on_disk f D))" "tracked (discard fs p D)"
  by (simp_all add: tracked_def on_disk_def discard_def case_prod_unfold Let_def)

lemma tracked_install [simp]: "tracked (snd (install fs p D))"
  by (simp add: install_def Let_def case_prod_unfold)

lemma tracked_write [simp]: "tracked (snd (atomicWrite fs p bytes D))"
  by (simp add: atomicWrite_def Let_def case_prod_unfold)

lemma healthy_ops:
  assumes "plan (now D) = []"
  shows "plan (now (discard (card_fs True) p D)) = []" "card_view (now (discard (card_fs True) p D)) = (card_view (now D))(p := None)"
    "fst (on_disk (fs_create (card_fs True) p) D)" "plan (now (snd (on_disk (fs_create (card_fs True) p) D))) = []"
    "card_view (now (snd (on_disk (fs_create (card_fs True) p) D))) = (card_view (now D))(p := Some [])"
    "card_view (now D) p = Some c \<Longrightarrow> fst (on_disk (fs_write (card_fs True) p bytes) D) = length bytes"
    "card_view (now D) p = Some c \<Longrightarrow> plan (now (snd (on_disk (fs_write (card_fs True) p bytes) D))) = []"
    "card_view (now D) p = Some c \<Longrightarrow>
       card_view (now (snd (on_disk (fs_write (card_fs True) p bytes) D))) = (card_view (now D))(p := Some (c @ bytes))"
    "card_view (now D) p = Some c \<Longrightarrow> card_view (now D) q = None \<Longrightarrow> fst (on_disk (fs_rename (card_fs True) p q) D)"
    "card_view (now D) p = Some c \<Longrightarrow> card_view (now D) q = None \<Longrightarrow> plan (now (snd (on_disk (fs_rename (card_fs True) p q) D))) = []"
    "card_view (now D) p = Some c \<Longrightarrow> card_view (now D) q = None \<Longrightarrow>
       card_view (now (snd (on_disk (fs_rename (card_fs True) p q) D))) = (card_view (now D))(p := None, q := Some c)"
  using assms
  by (auto simp: on_disk_def discard_def card_fs_def works_def card_put_def card_drop_def card_spend_def
      card_view_def map_of_forget fun_eq_iff)

lemma card_exists [simp]: "fs_exists (card_fs f) p c \<longleftrightarrow> card_view c p \<noteq> None"
  by (simp add: card_fs_def)

lemma healthy_install:
  assumes "plan (now D) = []" "card_view (now D) (temporary p) = Some bytes"
  shows "fst (install (card_fs True) p D) = Inr () \<and> plan (now (snd (install (card_fs True) p D))) = []"
  using assms by (cases "card_view (now D) p") (auto simp: install_def Let_def case_prod_unfold healthy_ops)

lemma healthy_write:
  assumes "plan (now D) = []"
  shows "fst (atomicWrite (card_fs True) p bytes D) = Inr () \<and> plan (now (snd (atomicWrite (card_fs True) p bytes D))) = []"
  using assms healthy_install by (auto simp: atomicWrite_def Let_def case_prod_unfold healthy_ops)

lemma healthy_start:
  assumes "plan (now (sd w)) = []" "vm_length (vm w) > 0" "programVm w"
  shows "fst (store_onStarted (card_fs True) w) = ''persistence=stored autorun=1'' \<and>
    tracked (sd (snd (store_onStarted (card_fs True) w)))"
proof -
  obtain D1 where 1: "atomicWrite (card_fs True) (lastRunPath w) (run_flag False) (sd w) = (Inr (), D1)" "plan (now D1) = []"
    using healthy_write assms(1) by (metis prod.collapse)
  obtain D2 where 2: "atomicWrite (card_fs True) (lastProgramPath w) (programData (vm w)) D1 = (Inr (), D2)" "plan (now D2) = []"
    using healthy_write 1(2) by (metis prod.collapse)
  obtain D3 where 3: "atomicWrite (card_fs True) (lastRunPath w) (run_flag True) D2 = (Inr (), D3)"
    using healthy_write 2(2) by (metis prod.collapse)
  have "tracked D3" using tracked_write [of "card_fs True" "lastRunPath w" "run_flag True" D2] 3 by simp
  then show ?thesis
    using 1 2 3 assms by (simp add: store_onStarted_def snapshot_def writeRunFlag_def writeCurrentProgram_def)
qed

definition started :: "Card store_world" where
  "started = snd (store_onStarted (card_fs True) (store_board [0] old_card))"

lemma board_program [simp]: "programData (vm (store_board [0] c)) = [0]" "vm_length (vm (store_board [0] c)) = 1"
  "vm_wf (vm (store_board [0] c))"
  by (simp_all add: programData_def vm_load_def initial_vm_def vm_wf_def vm_shape_def vm_sizes vm_active_def)

lemma started_facts:
  "store_onStarted (card_fs True) (store_board [0] old_card) = (''persistence=stored autorun=1'', started)"
  "now (sd started) \<in> set (visited (sd started))"
  "eff card_view program_path (now (sd started)) = Some [0]" "eff card_view run_path (now (sd started)) = Some [49]"
proof -
  have h: "fst (store_onStarted (card_fs True) (store_board [0] old_card)) = ''persistence=stored autorun=1'' \<and>
      tracked (sd started)"
    unfolding started_def by (rule healthy_start) (simp_all add: old_card_def del: store_board_parts(6))
  then show s: "store_onStarted (card_fs True) (store_board [0] old_card) = (''persistence=stored autorun=1'', started)"
    by (simp add: started_def prod_eq_iff)
  show "now (sd started) \<in> set (visited (sd started))" using h last_in_set [of "visited (sd started)"] by (simp add: tracked_def)
  show "eff card_view program_path (now (sd started)) = Some [0]" "eff card_view run_path (now (sd started)) = Some [49]"
    using card.onStarted_harmless [OF s] by (simp_all del: store_board_parts(6))
qed

lemma restored_runs:
  "autorun_set r \<Longrightarrow> bytes \<noteq> [] \<Longrightarrow> length bytes \<le> PROGRAM_BYTES \<Longrightarrow> \<not> vm_active v \<Longrightarrow>
   vm_active (restored_vm v (Some bytes) r)"
  by (simp add: restored_vm_def vm_load_def vm_run_def vm_active_def)

lemma board_vms [simp]: "vm (store_board [] c) = initial_vm"
  by (simp add: vm_load_def)

theorem start_survives_power_cut_witness:
  "programData (vm (power_on (card_fs False) (store_board [] old_card) (now (sd started)))) =
     programData (vm (store_board [0] old_card)) \<or>
   vm (power_on (card_fs False) (store_board [] old_card) (now (sd started))) =
     vm (power_on (card_fs False) (store_board [] old_card) old_card)"
proof -
  let ?b = "store_board [] old_card" and ?t = "now (sd started)"
  have v: "visited (sd started) = visited (sd (store_board [0] old_card)) @ visited (sd started)" by simp
  have "vm_active (vm (power_on (card_fs False) ?b ?t))"
    by (simp add: power_on_vm [OF safe_card.reliable_filesystem_axioms] started_facts restored_runs
        autorun_set_def initial_inactive vm_sizes del: store_board_parts(6))
  then show ?thesis
    using start_survives_power_cut [OF card.filesystem_axioms safe_card.reliable_filesystem_axioms _ _
        started_facts(1) v started_facts(2), of ?t ?b]
    by (simp add: torn_def initial_inactive del: store_board_parts(6))
qed

text \<open>C18: A program whose start was reported as recorded is running again after the next boot, from its
  first instruction: recording and restoring are inverse to each other.\<close>

theorem started_program_restored:
  assumes "filesystem fs view" "reliable_filesystem boot_fs view"
    and "lastRunPath w = run_path" "lastProgramPath w = program_path" "vm_wf (vm w)" "vm_length (vm w) > 0"
    and "store_onStarted fs w = (''persistence=stored autorun=1'', w')" "sd_ready b" "\<not> vm_active (vm b)"
  shows "vm_state (vm (power_on boot_fs b (now (sd w')))) = RUNNING \<and>
    vm_pc (vm (power_on boot_fs b (now (sd w')))) = 0 \<and>
    programData (vm (power_on boot_fs b (now (sd w')))) = programData (vm w)"
proof -
  define bytes where "bytes = programData (vm w)"
  have "bytes \<noteq> []" "length bytes \<le> PROGRAM_BYTES"
    using assms(5,6) by (auto simp: bytes_def programData_def vm_wf_def vm_shape_def vm_sizes)
  moreover have "eff view program_path (now (sd w')) = Some bytes" "eff view run_path (now (sd w')) = Some [49]"
    using filesystem.onStarted_harmless [OF assms(1,7,3,4)] by (simp_all add: bytes_def)
  ultimately show ?thesis using assms(9)
    by (simp add: power_on_vm [OF assms(2,8)] restored_vm_def vm_load_def vm_run_def vm_active_def
        autorun_set_def flip: bytes_def) (simp add: programData_def)
qed

theorem started_program_restored_witness:
  "vm_state (vm (power_on (card_fs False) (store_board [] old_card) (now (sd started)))) = RUNNING"
  using started_program_restored [OF card.filesystem_axioms safe_card.reliable_filesystem_axioms _ _ _ _
      started_facts(1), of "store_board [] old_card"]
  by (simp add: initial_inactive del: store_board_parts(6))

text \<open>C19: A program saved under a name is the program that loading this name puts into the machine,
  whatever was stored under the name before.\<close>

theorem save_load_roundtrip:
  assumes "filesystem fs view" "reliable_filesystem boot_fs view" "vm_wf (vm w)" "vm_length (vm w) > 0"
    and "store_save fs name w = (r, w')" "r_ok r" "programVm w" "\<not> vm_active v"
  shows "fst (store_load boot_fs name (w'\<lparr>vm := v\<rparr>)) = result True (of_nat (vm_length (vm w)))
      (''loaded='' @ the (pathFor (programDirectory w) name)) \<and>
    programData (vm (snd (store_load boot_fs name (w'\<lparr>vm := v\<rparr>)))) = programData (vm w) \<and>
    vm_state (vm (snd (store_load boot_fs name (w'\<lparr>vm := v\<rparr>)))) = VmState.READY"
proof -
  define bytes where "bytes = programData (vm w)"
  have len: "length bytes = vm_length (vm w)" "length bytes \<le> PROGRAM_BYTES"
    using assms(3) by (auto simp: bytes_def programData_def vm_wf_def vm_shape_def vm_sizes)
  obtain path where p: "pathFor (programDirectory w) name = Some path"
    using assms(5,6,7) by (cases "pathFor (programDirectory w) name") (auto simp: store_save_def native_fail_def)
  define D where "D = (if fs_exists fs path (now (sd w)) then discard fs path (sd w) else sd w)"
  obtain opened D1 where c: "on_disk (fs_create fs path) D = (opened, D1)" by (metis prod.collapse)
  obtain written D2 where wr: "on_disk (fs_write fs path bytes) D1 = (written, D2)" by (metis prod.collapse)
  have w': "w' = w\<lparr>sd := D2\<rparr>" "opened" "written = length bytes"
    using assms(4-7) p c wr len by (auto simp: store_save_def native_fail_def result_def Let_def
        simp flip: bytes_def D_def split: if_splits)
  have "view (now D1) path = Some []"
    using filesystem.create_view [OF assms(1)] on_disk_now [OF c] w'(2) by simp
  then have "view (now D2) path = Some bytes"
    using filesystem.write_view [OF assms(1)] on_disk_now [OF wr] w'(3) by simp
  then show ?thesis
    using p assms(4,7,8) len
    by (simp add: w'(1) store_load_def read_program_def reliable_filesystem.size_view [OF assms(2)]
        reliable_filesystem.read_view [OF assms(2)] vm_load_def Let_def flip: bytes_def) (auto simp: programData_def)
qed

definition saved :: "Card store_world" where
  "saved = snd (store_save (card_fs True) ''blink'' (store_board [0] old_card))"

lemma blink_path: "pathFor d ''blink'' = Some (d @ ''/prog_blink.nvm'')"
  by (simp add: pathFor_def validName_def trim_def isAlphaNumeric_def isDigit_def c_isspace_def)

theorem save_load_roundtrip_witness:
  "programData (vm (snd (store_load (card_fs False) ''blink'' (saved\<lparr>vm := initial_vm\<rparr>)))) = [0]"
proof -
  let ?w = "store_board [0] old_card"
  have "r_ok (fst (store_save (card_fs True) ''blink'' ?w))"
    by (simp add: store_save_def blink_path Let_def on_disk_def card_fs_def works_def card_put_def card_view_def
        old_card_def program_path_def run_path_def DEFAULT_DIRECTORY_def forget_def result_def del: store_board_parts(6))
  then show ?thesis
    using save_load_roundtrip [OF card.filesystem_axioms safe_card.reliable_filesystem_axioms, of ?w True "''blink''"
      "fst (store_save (card_fs True) ''blink'' ?w)" saved initial_vm]
    by (simp add: saved_def initial_inactive del: store_board_parts(6))
qed

definition blink_card :: Card where
  "blink_card = \<lparr>files = [(''/programs/prog_blink.nvm'', [7])], plan = []\<rparr>"

definition cut_card :: Card where
  "cut_card = \<lparr>files = [(''/programs/prog_blink.nvm.bak'', [7]), (''/programs/prog_blink.nvm.tmp'', [0])], plan = []\<rparr>"

lemmas card_eval = on_disk_def card_fs_def works_def card_put_def card_drop_def card_spend_def card_view_def
  forget_def discard_def temporary_def backup_def DEFAULT_DIRECTORY_def Let_def

lemma cut_card_visited:
  "cut_card \<in> set (visited (snd (atomicWrite (card_fs True) ''/programs/prog_blink.nvm'' [0] \<lparr>now = blink_card, visited = []\<rparr>)))"
  by (simp add: atomicWrite_def install_def blink_card_def cut_card_def card_eval)

lemma storeBytes_disk: "sd (snd (storeBytes (card_fs True) ''blink'' (Some [0]) True (store_board p c))) =
    snd (atomicWrite (card_fs True) ''/programs/prog_blink.nvm'' [0] \<lparr>now = c, visited = []\<rparr>)"
  by (simp add: storeBytes_def blink_path DEFAULT_DIRECTORY_def vm_sizes split: prod.split sum.split)

lemma blink_legacy: "legacyPathFor d ''blink'' = d @ ''/blink.nvm''"
  by (simp add: legacyPathFor_def validName_def trim_def isAlphaNumeric_def isDigit_def c_isspace_def)

lemma not_found_after_boot:
  assumes "eff card_view program_path s = None" "card_view s ''/programs/prog_blink.nvm'' = None"
    "card_view s ''/programs/blink.nvm'' = None"
  shows "fst (store_load (card_fs False) ''blink'' (power_on (card_fs False) (store_board p c) s)) =
    native_fail ''saved program not found''"
proof -
  let ?w = "(store_board p c)\<lparr>sd := \<lparr>now = s, visited = []\<rparr>\<rparr>"
  have "sd_ready ?w" by simp
  then obtain w' where w': "store_begin (card_fs False) (Some DEFAULT_DIRECTORY) ?w = (True, w')" "programVm w'"
    "lastProgramPath w' = program_path" "programDirectory w' = DEFAULT_DIRECTORY"
    "card_view (now (sd w')) program_path = eff card_view program_path (now (sd ?w))"
    "\<And>q. q \<notin> {program_path, temporary program_path, backup program_path, run_path, temporary run_path, backup run_path} \<Longrightarrow>
       card_view (now (sd w')) q = card_view (now (sd ?w)) q"
    by (rule safe_card.begin_recovers) (rule that)
  have "power_on (card_fs False) (store_board p c) s = w'\<lparr>persistenceStatus := ''ready:none''\<rparr>"
    using w'(1-5) assms(1) by (simp add: power_on_def boot_store_def restoreLast_def safe_card.size_view)
  then show ?thesis
    using w'(2,4) w'(6) [of "''/programs/prog_blink.nvm''"] w'(6) [of "''/programs/blink.nvm''"] assms(2,3)
    by (simp add: store_load_def blink_path blink_legacy safe_card.size_view DEFAULT_DIRECTORY_def
        program_path_def run_path_def temporary_def backup_def)
qed

text \<open>C20: Replacing a saved program is not safe against a power cut: there is a state on the way in
  which the old program stands only in the backup file and the new one only in the temporary file,
  and after a boot in this state, which recovers only the files of the last run, loading the program
  by its name reports that it does not exist.\<close>

theorem replaced_program_lost:
  "\<exists>s. s \<in> set (visited (sd (snd (storeBytes (card_fs True) ''blink'' (Some [0]) True (store_board [] blink_card))))) \<and>
    card_view s ''/programs/prog_blink.nvm.bak'' = card_view blink_card ''/programs/prog_blink.nvm'' \<and>
    fst (store_load (card_fs False) ''blink'' (power_on (card_fs False) (store_board [] blink_card) s)) =
      native_fail ''saved program not found''"
proof (intro exI conjI)
  show "cut_card \<in> set (visited (sd (snd (storeBytes (card_fs True) ''blink'' (Some [0]) True (store_board [] blink_card)))))"
    using cut_card_visited by (simp add: storeBytes_disk)
  show "card_view cut_card ''/programs/prog_blink.nvm.bak'' = card_view blink_card ''/programs/prog_blink.nvm''"
    by (simp add: card_view_def cut_card_def blink_card_def)
  show "fst (store_load (card_fs False) ''blink'' (power_on (card_fs False) (store_board [] blink_card) cut_card)) =
      native_fail ''saved program not found''"
    by (rule not_found_after_boot)
      (simp_all add: cut_card_def card_view_def eff_def program_path_def DEFAULT_DIRECTORY_def backup_def)
qed

end
