(* ===== verification/Ir_Decoder.thy ===== *)
theory Ir_Decoder
  imports Noob_VM
begin

text \<open>
  The decoder of infrared frames, \<open>services/Esp32IrDecoder.cpp\<close>: a search for a pulse-distance frame of
  24 bits, an RC5 frame, a NEC frame and a NEC repeat in a list of levels and durations. Every read of
  the two arrays and every write of the half-bit buffer is checked: \<open>None\<close> is an access out of range.
\<close>

unbundle bit_operations_syntax

section \<open>Frames\<close>

datatype Protocol = RAW | NEC | NEC_REPEAT | RC5 | PULSE_DISTANCE_24

record Frame =
  fr_protocol :: Protocol
  fr_address :: u16
  fr_data :: u8
  fr_bits :: u8
  fr_code :: u32
  fr_repeat :: bool

definition no_frame :: Frame where
  "no_frame = \<lparr>fr_protocol = RAW, fr_address = 0, fr_data = 0, fr_bits = 0, fr_code = 0, fr_repeat = False\<rparr>"

definition LOW :: u8 where "LOW = 0"
definition HIGH :: u8 where "HIGH = 1"

definition within :: "u32 \<Rightarrow> u32 \<Rightarrow> u32 \<Rightarrow> bool" where
  "within v minimum maximum \<longleftrightarrow> v \<ge> minimum \<and> v \<le> maximum"

definition level_within :: "u8 \<Rightarrow> u8 list \<Rightarrow> u32 list \<Rightarrow> nat \<Rightarrow> u32 \<Rightarrow> u32 \<Rightarrow> bool option" where
  "level_within level levels durations index minimum maximum = (case arr_get levels index of
       None \<Rightarrow> None
     | Some l \<Rightarrow> if l \<noteq> level then Some False
         else map_option (\<lambda>d. within d minimum maximum) (arr_get durations index))"

definition mark :: "u8 list \<Rightarrow> u32 list \<Rightarrow> nat \<Rightarrow> u32 \<Rightarrow> u32 \<Rightarrow> bool option" where
  "mark = level_within LOW"

definition space :: "u8 list \<Rightarrow> u32 list \<Rightarrow> nat \<Rightarrow> u32 \<Rightarrow> u32 \<Rightarrow> bool option" where
  "space = level_within HIGH"

text \<open>Both conditions, the second one evaluated only when the first holds.\<close>

definition and_then :: "bool option \<Rightarrow> bool option \<Rightarrow> bool option" where
  "and_then a b = (case a of None \<Rightarrow> None | Some False \<Rightarrow> Some False | Some True \<Rightarrow> b)"

text \<open>The loops over the start: the first start at which a frame is found.\<close>

fun search :: "(nat \<Rightarrow> Frame option option) \<Rightarrow> nat list \<Rightarrow> Frame option option" where
  "search try [] = Some None"
| "search try (start # starts) = (case try start of
       None \<Rightarrow> None
     | Some (Some frame) \<Rightarrow> Some (Some frame)
     | Some None \<Rightarrow> search try starts)"

section \<open>Pulse-distance frames\<close>

fun distance_bits :: "u8 list \<Rightarrow> u32 list \<Rightarrow> u32 \<times> u32 \<Rightarrow> u32 \<times> u32 \<Rightarrow> (u32 \<Rightarrow> bool) \<Rightarrow> nat \<Rightarrow> nat list \<Rightarrow> u32
    \<Rightarrow> u32 option option" where
  "distance_bits levels durations m s one start [] raw = Some (Some raw)"
| "distance_bits levels durations m s one start (k # rest) raw =
     (let markIndex = start + 2 + k * 2; spaceIndex = markIndex + 1
      in case and_then (mark levels durations markIndex (fst m) (snd m))
                       (space levels durations spaceIndex (fst s) (snd s)) of
           None \<Rightarrow> None
         | Some False \<Rightarrow> Some None
         | Some True \<Rightarrow> (case arr_get durations spaceIndex of
               None \<Rightarrow> None
             | Some d \<Rightarrow> distance_bits levels durations m s one start rest
                           (if one d then raw OR push_bit k 1 else raw)))"

definition pd24_at :: "u8 list \<Rightarrow> u32 list \<Rightarrow> nat \<Rightarrow> nat \<Rightarrow> Frame option option" where
  "pd24_at levels durations count start =
     (case and_then (mark levels durations start 3400 4600) (space levels durations (start + 1) 3400 4600) of
        None \<Rightarrow> None
      | Some False \<Rightarrow> Some None
      | Some True \<Rightarrow>
          (case distance_bits levels durations (350, 650) (800, 2300) (\<lambda>d. d \<ge> 1500) start [0..<24] 0 of
             None \<Rightarrow> None
           | Some None \<Rightarrow> Some None
           | Some (Some raw) \<Rightarrow>
               (case (if start + 50 < count then mark levels durations (start + 50) 350 650 else Some True) of
                  None \<Rightarrow> None
                | Some False \<Rightarrow> Some None
                | Some True \<Rightarrow> Some (Some (no_frame\<lparr>fr_protocol := PULSE_DISTANCE_24, fr_code := raw, fr_bits := 24\<rparr>)))))"

section \<open>RC5\<close>

definition HALVES :: nat where "HALVES = 36"

definition units_of :: "u32 \<Rightarrow> u32" where
  "units_of duration = (duration + 444) div 889"

definition bad_units :: "u32 \<Rightarrow> bool" where
  "bad_units duration \<longleftrightarrow> (let units = units_of duration
     in units < 1 \<or> units > 3 \<or> duration < units * 889 * 65 div 100 \<or> duration > units * 889 * 135 div 100)"

primrec put_halves :: "nat \<Rightarrow> u8 \<Rightarrow> u8 list \<times> nat \<Rightarrow> (u8 list \<times> nat) option" where
  "put_halves 0 level h = Some h"
| "put_halves (Suc units) level h = (case arr_set (fst h) (snd h) level of
       None \<Rightarrow> None
     | Some halves \<Rightarrow> put_halves units level (halves, Suc (snd h)))"

function rc5_halves :: "u8 list \<Rightarrow> u32 list \<Rightarrow> nat \<Rightarrow> nat \<Rightarrow> u8 list \<times> nat \<Rightarrow> (u8 list \<times> nat) option" where
  "rc5_halves levels durations count edge h =
     (if edge < count \<and> snd h < 28
      then case arr_get durations edge of
          None \<Rightarrow> None
        | Some duration \<Rightarrow>
            if bad_units duration then Some h
            else (case arr_get levels edge of
                None \<Rightarrow> None
              | Some level \<Rightarrow> (case put_halves (unat (units_of duration)) level h of
                    None \<Rightarrow> None
                  | Some h \<Rightarrow> rc5_halves levels durations count (Suc edge) h))
      else Some h)"
  by pat_completeness auto
termination by (relation "measure (\<lambda>(_, _, count, edge, _). count - edge)") auto

fun rc5_bits :: "u8 list \<Rightarrow> nat \<Rightarrow> nat list \<Rightarrow> u16 \<Rightarrow> u16 option option" where
  "rc5_bits halves offset [] raw = Some (Some raw)"
| "rc5_bits halves offset (k # rest) raw =
     (case (arr_get halves (offset + k * 2), arr_get halves (offset + k * 2 + 1)) of
        (Some first, Some second) \<Rightarrow>
          if first = second then Some None
          else rc5_bits halves offset rest (if first = LOW then raw OR push_bit (13 - k) 1 else raw)
      | _ \<Rightarrow> None)"

definition rc5_frame :: "u16 \<Rightarrow> Frame option" where
  "rc5_frame raw =
     (let startBit = (drop_bit 13 raw) AND 1; fieldBit = (drop_bit 12 raw) AND 1
      in if startBit = 0 \<or> raw AND 0x0fff = 0x0fff then None
         else Some (no_frame\<lparr>fr_protocol := RC5, fr_address := (drop_bit 6 raw) AND 0x1f,
                fr_data := ucast (raw AND 0x3f) OR (if fieldBit \<noteq> 0 then 0 else 0x40),
                fr_bits := 14, fr_code := ucast raw\<rparr>))"

definition rc5_offset :: "u8 list \<Rightarrow> nat \<Rightarrow> Frame option option" where
  "rc5_offset halves offset = (case rc5_bits halves offset [0..<14] 0 of
       None \<Rightarrow> None
     | Some None \<Rightarrow> Some None
     | Some (Some raw) \<Rightarrow> Some (rc5_frame raw))"

definition rc5_at :: "u8 list \<Rightarrow> u32 list \<Rightarrow> nat \<Rightarrow> nat \<Rightarrow> Frame option option" where
  "rc5_at levels durations count start =
     (case rc5_halves levels durations count start (replicate HALVES 0, 0) of
        None \<Rightarrow> None
      | Some (halves, halfCount) \<Rightarrow> search (rc5_offset halves) [0..<halfCount + 1 - 28])"

section \<open>NEC\<close>

definition nec_frame :: "u32 \<Rightarrow> Frame option" where
  "nec_frame raw =
     (let addressLow = ucast (raw AND 0xff) :: u8; addressHigh = ucast (drop_bit 8 raw AND 0xff) :: u8;
          d = ucast (drop_bit 16 raw AND 0xff) :: u8; dataInverse = ucast (drop_bit 24 raw AND 0xff) :: u8
      in if d XOR dataInverse \<noteq> 0xff then None
         else Some (no_frame\<lparr>fr_protocol := NEC,
                fr_address := (if addressLow XOR addressHigh = 0xff then ucast addressLow
                  else ucast addressLow OR push_bit 8 (ucast addressHigh)),
                fr_data := d, fr_bits := 32, fr_code := raw\<rparr>))"

definition nec_at :: "u8 list \<Rightarrow> u32 list \<Rightarrow> nat \<Rightarrow> Frame option option" where
  "nec_at levels durations start =
     (case and_then (mark levels durations start 7500 10000) (space levels durations (start + 1) 3500 5500) of
        None \<Rightarrow> None
      | Some False \<Rightarrow> Some None
      | Some True \<Rightarrow>
          (case distance_bits levels durations (300, 850) (300, 2100) (\<lambda>d. d > 1000) start [0..<32] 0 of
             None \<Rightarrow> None
           | Some None \<Rightarrow> Some None
           | Some (Some raw) \<Rightarrow> Some (nec_frame raw)))"

definition repeat_at :: "u8 list \<Rightarrow> u32 list \<Rightarrow> nat \<Rightarrow> Frame option option" where
  "repeat_at levels durations start =
     (case and_then (mark levels durations start 7500 10000)
        (and_then (space levels durations (start + 1) 1700 3000) (mark levels durations (start + 2) 300 850)) of
        None \<Rightarrow> None
      | Some False \<Rightarrow> Some None
      | Some True \<Rightarrow> Some (Some (no_frame\<lparr>fr_protocol := NEC_REPEAT, fr_repeat := True\<rparr>)))"

section \<open>The decoder\<close>

fun first_found :: "(unit \<Rightarrow> Frame option option) list \<Rightarrow> Frame option option" where
  "first_found [] = Some None"
| "first_found (f # fs) = (case f () of
       None \<Rightarrow> None
     | Some (Some frame) \<Rightarrow> Some (Some frame)
     | Some None \<Rightarrow> first_found fs)"

definition decode :: "u8 list option \<Rightarrow> u32 list option \<Rightarrow> nat \<Rightarrow> (bool \<times> Frame) option" where
  "decode levels durationsUs count = (case (levels, durationsUs) of
       (Some ls, Some ds) \<Rightarrow>
         if count < 3 then Some (False, no_frame)
         else map_option (\<lambda>f. case f of Some frame \<Rightarrow> (True, frame) | None \<Rightarrow> (False, no_frame))
           (first_found
             [\<lambda>_. search (pd24_at ls ds count) [0..<count - 50], \<lambda>_. search (rc5_at ls ds count) [0..<count],
              \<lambda>_. search (nec_at ls ds) [0..<count - 66], \<lambda>_. search (repeat_at ls ds) [0..<count - 2]])
     | _ \<Rightarrow> Some (False, no_frame))"

fun protocolName :: "Protocol \<Rightarrow> string" where
  "protocolName NEC = ''NEC''"
| "protocolName NEC_REPEAT = ''NEC_REPEAT''"
| "protocolName RC5 = ''RC5''"
| "protocolName PULSE_DISTANCE_24 = ''PD24''"
| "protocolName RAW = ''RAW''"

end
