(* ===== verification/Ir_Frames.thy ===== *)
theory Ir_Frames
  imports Ir_Decoder
begin

text \<open>
  Correctness of the infrared decoder: it never leaves its arrays, it decodes every well-timed NEC
  frame to the code that was sent, and a NEC frame with long marks that it takes for RC5.
\<close>

unbundle bit_operations_syntax

section \<open>No access out of range\<close>

lemma search_total: "(\<And>x. x \<in> set xs \<Longrightarrow> f x \<noteq> None) \<Longrightarrow> search f xs \<noteq> None"
  by (induction xs) (auto split: option.splits)

lemma search_none: "(\<And>x. x \<in> set xs \<Longrightarrow> f x = Some None) \<Longrightarrow> search f xs = Some None"
  by (induction xs) auto

lemma level_within_total: "i < length ls \<Longrightarrow> i < length ds \<Longrightarrow> level_within l ls ds i a b \<noteq> None"
  by (simp add: level_within_def arr_get_def del: not_None_eq)

lemma mark_space_total:
  "i < length ls \<Longrightarrow> i < length ds \<Longrightarrow> mark ls ds i a b \<noteq> None"
  "i < length ls \<Longrightarrow> i < length ds \<Longrightarrow> space ls ds i a b \<noteq> None"
  by (simp_all add: mark_def space_def level_within_total del: not_None_eq)

lemma and_then_total: "a \<noteq> None \<Longrightarrow> b \<noteq> None \<Longrightarrow> and_then a b \<noteq> None"
  by (auto simp: and_then_def split: bool.splits)

lemma distance_bits_total:
  assumes "\<And>k. k \<in> set ks \<Longrightarrow> start + 3 + k * 2 < length ls" "length ds = length ls"
  shows "distance_bits ls ds m s one start ks raw \<noteq> None"
  using assms
proof (induction ks arbitrary: raw)
  case (Cons k ks)
  have k: "start + 3 + k * 2 < length ls" using Cons.prems(1) by simp
  have "and_then (mark ls ds (start + 2 + k * 2) (fst m) (snd m))
      (space ls ds (start + 2 + k * 2 + 1) (fst s) (snd s)) \<noteq> None"
    by (intro and_then_total mark_space_total) (use k Cons.prems(2) in auto)
  then obtain b where b: "and_then (mark ls ds (start + 2 + k * 2) (fst m) (snd m))
      (space ls ds (start + 2 + k * 2 + 1) (fst s) (snd s)) = Some b" by blast
  have "arr_get ds (start + 2 + k * 2 + 1) = Some (ds ! (start + 2 + k * 2 + 1))"
    using k Cons.prems(2) by (simp add: arr_get_def)
  then show ?case using b Cons.IH Cons.prems by (cases b) (simp_all add: Let_def del: not_None_eq)
qed simp

lemma good_units: "\<not> bad_units d \<Longrightarrow> unat (units_of d) \<le> 3"
  by (simp add: bad_units_def Let_def word_le_nat_alt not_less)

lemma put_halves_total:
  "snd h + n \<le> length (fst h) \<Longrightarrow>
   \<exists>hs. put_halves n l h = Some (hs, snd h + n) \<and> length hs = length (fst h)"
proof (induction n arbitrary: h)
  case 0
  then show ?case by (cases h) simp
next
  case (Suc n)
  then show ?case using Suc.IH [of "((fst h)[snd h := l], Suc (snd h))"] by (simp add: arr_set_def)
qed

lemma rc5_halves_total:
  assumes "length ls = count" "length ds = count" "length (fst h) = HALVES" "snd h \<le> 30"
  shows "\<exists>hs n. rc5_halves ls ds count edge h = Some (hs, n) \<and> length hs = HALVES \<and> n \<le> 30"
  using assms
proof (induction ls ds count edge h rule: rc5_halves.induct)
  case (1 ls ds count edge h)
  show ?case
  proof (cases "edge < count \<and> snd h < 28 \<and> \<not> bad_units (ds ! edge)")
    case False
    then show ?thesis using 1 by (cases h) (auto simp: arr_get_def)
  next
    case True
    let ?n = "unat (units_of (ds ! edge))"
    have n: "?n \<le> 3" using True good_units by blast
    obtain hs where p: "put_halves ?n (ls ! edge) h = Some (hs, snd h + ?n)" "length hs = HALVES"
      using put_halves_total [of h ?n "ls ! edge"] n True 1(4) by (auto simp: HALVES_def)
    have "\<exists>hs' m. rc5_halves ls ds count (Suc edge) (hs, snd h + ?n) = Some (hs', m) \<and> length hs' = HALVES \<and> m \<le> 30"
      by (rule 1(1)) (use True 1 n p in \<open>auto simp: arr_get_def\<close>)
    then show ?thesis using True p 1(2,3) by (simp add: arr_get_def)
  qed
qed

lemma rc5_bits_total:
  "(\<And>k. k \<in> set ks \<Longrightarrow> offset + k * 2 + 1 < length halves) \<Longrightarrow> rc5_bits halves offset ks raw \<noteq> None"
proof (induction ks arbitrary: raw)
  case (Cons k ks)
  have "offset + k * 2 + 1 < length halves" using Cons.prems by simp
  then have "arr_get halves (offset + k * 2) = Some (halves ! (offset + k * 2))"
    "arr_get halves (offset + k * 2 + 1) = Some (halves ! (offset + k * 2 + 1))" by (simp_all add: arr_get_def)
  then show ?case using Cons by (simp del: not_None_eq)
qed simp

lemma pd24_total: "length ls = count \<Longrightarrow> length ds = count \<Longrightarrow> start + 50 < count \<Longrightarrow> pd24_at ls ds count start \<noteq> None"
proof -
  assume a: "length ls = count" "length ds = count" "start + 50 < count"
  have "and_then (mark ls ds start 3400 4600) (space ls ds (start + 1) 3400 4600) \<noteq> None"
    "mark ls ds (start + 50) 350 650 \<noteq> None"
    by (intro and_then_total mark_space_total; use a in simp)+
  moreover have "distance_bits ls ds (350, 650) (800, 2300) (\<lambda>d. d \<ge> 1500) start [0..<24] 0 \<noteq> None"
    by (rule distance_bits_total) (use a in auto)
  ultimately show ?thesis using a(3) by (auto simp: pd24_at_def split: bool.splits option.splits)
qed

lemma rc5_total: "length ls = count \<Longrightarrow> length ds = count \<Longrightarrow> rc5_at ls ds count start \<noteq> None"
proof -
  assume a: "length ls = count" "length ds = count"
  obtain hs n where h: "rc5_halves ls ds count start (replicate HALVES 0, 0) = Some (hs, n)" "length hs = HALVES" "n \<le> 30"
    using rc5_halves_total [OF a, of "(replicate HALVES 0, 0)" start] by auto
  have "search (rc5_offset hs) [0..<n + 1 - 28] \<noteq> None"
  proof (rule search_total)
    fix x assume x: "x \<in> set [0..<n + 1 - 28]"
    have "rc5_bits hs x [0..<14] 0 \<noteq> None" by (rule rc5_bits_total) (use x h in \<open>auto simp: HALVES_def\<close>)
    then show "rc5_offset hs x \<noteq> None" by (auto simp: rc5_offset_def split: option.splits)
  qed
  then show ?thesis using h(1) by (simp add: rc5_at_def)
qed

lemma nec_total: "length ls = count \<Longrightarrow> length ds = count \<Longrightarrow> start + 66 < count \<Longrightarrow> nec_at ls ds start \<noteq> None"
proof -
  assume a: "length ls = count" "length ds = count" "start + 66 < count"
  have "and_then (mark ls ds start 7500 10000) (space ls ds (start + 1) 3500 5500) \<noteq> None"
    by (intro and_then_total mark_space_total; use a in simp)
  moreover have "distance_bits ls ds (300, 850) (300, 2100) (\<lambda>d. d > 1000) start [0..<32] 0 \<noteq> None"
    by (rule distance_bits_total) (use a in auto)
  ultimately show ?thesis by (auto simp: nec_at_def split: bool.splits option.splits)
qed

lemma repeat_total: "length ls = count \<Longrightarrow> length ds = count \<Longrightarrow> start + 2 < count \<Longrightarrow> repeat_at ls ds start \<noteq> None"
proof -
  assume a: "length ls = count" "length ds = count" "start + 2 < count"
  have "and_then (mark ls ds start 7500 10000)
     (and_then (space ls ds (start + 1) 1700 3000) (mark ls ds (start + 2) 300 850)) \<noteq> None"
    by (intro and_then_total mark_space_total; use a in simp)
  then show ?thesis by (auto simp: repeat_at_def split: bool.splits)
qed

text \<open>C22: The decoder always returns and never reads or writes outside the captured arrays and its buffer
  of half bits, whatever levels and durations were captured.\<close>

theorem decode_in_bounds:
  assumes "length levels = count" "length durations = count"
  shows "\<exists>found frame. decode (Some levels) (Some durations) count = Some (found, frame)"
proof -
  have "search (pd24_at levels durations count) [0..<count - 50] \<noteq> None"
    by (rule search_total, rule pd24_total) (use assms in auto)
  moreover have "search (rc5_at levels durations count) [0..<count] \<noteq> None"
    by (rule search_total, rule rc5_total) (use assms in auto)
  moreover have "search (nec_at levels durations) [0..<count - 66] \<noteq> None"
    by (rule search_total, rule nec_total) (use assms in auto)
  moreover have "search (repeat_at levels durations) [0..<count - 2] \<noteq> None"
    by (rule search_total, rule repeat_total) (use assms in auto)
  ultimately show ?thesis by (auto simp: decode_def split: option.splits)
qed

theorem decode_in_bounds_witness:
  "\<exists>found frame. decode (Some [0, 1, 0]) (Some [9000, 2250, 560]) 3 = Some (found, frame)"
  by (rule decode_in_bounds) simp_all

section \<open>Well-timed NEC frames\<close>

definition frame_levels :: "u8 list" where
  "frame_levels = map (\<lambda>i. if even i then LOW else HIGH) [0..<67]"

text \<open>The durations of a NEC frame with code \<open>raw\<close>: a leader, 32 pairs of a mark and a space that is long
  for a one, and a final mark. Marks are shorter than 577 microseconds.\<close>

definition nec_timed :: "u32 \<Rightarrow> u32 list \<Rightarrow> bool" where
  "nec_timed raw ds \<longleftrightarrow> length ds = 67 \<and> within (ds ! 0) 7500 10000 \<and> within (ds ! 1) 3500 5500 \<and>
     (\<forall>k < 33. within (ds ! (2 + k * 2)) 300 576) \<and>
     (\<forall>k < 32. if bit raw k then within (ds ! (3 + k * 2)) 1001 2100 else within (ds ! (3 + k * 2)) 300 1000)"

lemma frame_level [simp]: "i < 67 \<Longrightarrow> arr_get frame_levels i = Some (if even i then LOW else HIGH)"
  by (simp add: frame_levels_def arr_get_def)

lemma timed_get [simp]: "nec_timed raw ds \<Longrightarrow> i < 67 \<Longrightarrow> arr_get ds i = Some (ds ! i)"
  by (simp add: nec_timed_def arr_get_def)

lemma timed_mark: "nec_timed raw ds \<Longrightarrow> k < 33 \<Longrightarrow> ds ! (2 + k * 2) \<ge> 300 \<and> ds ! (2 + k * 2) \<le> 576"
  by (simp add: nec_timed_def within_def)

lemma levels_differ [simp]: "LOW \<noteq> HIGH" "HIGH \<noteq> LOW"
  by (simp_all add: LOW_def HIGH_def)

lemma take_bit_next: "take_bit (Suc k) raw = (if bit raw k then take_bit k raw OR push_bit k 1 else take_bit k (raw :: u32))"
  by (rule bit_eqI) (auto simp: bit_simps less_Suc_eq)

lemma timed_bits:
  assumes "nec_timed raw ds" "k \<le> 32"
  shows "distance_bits frame_levels ds (300, 850) (300, 2100) (\<lambda>d. d > 1000) 0 [k..<32] (take_bit k raw) = Some (Some raw)"
  using assms(2)
proof (induction "32 - k" arbitrary: k)
  case 0
  then show ?case by (simp add: take_bit_word_eq_self)
next
  case (Suc n)
  then have k: "k < 32" "[k..<32] = k # [Suc k..<32]" by (simp_all add: upt_conv_Cons)
  let ?m = "ds ! (2 + k * 2)" and ?s = "ds ! (3 + k * 2)"
  have i: "0 + 2 + k * 2 = 2 + k * 2" "2 + k * 2 + 1 = 3 + k * 2" "even (2 + k * 2)" "odd (3 + k * 2)" by simp_all
  have m: "mark frame_levels ds (2 + k * 2) 300 850 = Some True"
    using timed_mark [OF assms(1), of k] k(1) assms(1) i(3)
    by (auto simp: mark_def level_within_def within_def intro: order_trans)
  have s: "within ?s 300 2100 \<and> (?s > 1000 \<longleftrightarrow> bit raw k)"
    using assms(1) k(1)
    by (cases "bit raw k") (auto simp: nec_timed_def within_def word_le_nat_alt word_less_nat_alt)
  then have "space frame_levels ds (3 + k * 2) 300 2100 = Some True"
    using k(1) assms(1) i(4) by (auto simp: space_def level_within_def)
  then have "distance_bits frame_levels ds (300, 850) (300, 2100) (\<lambda>d. d > 1000) 0 (k # [Suc k..<32]) (take_bit k raw) =
      distance_bits frame_levels ds (300, 850) (300, 2100) (\<lambda>d. d > 1000) 0 [Suc k..<32] (take_bit (Suc k) raw)"
    using m s timed_get [OF assms(1), of "3 + k * 2"] k(1)
    unfolding distance_bits.simps Let_def i(1,2) fst_conv snd_conv by (simp add: and_then_def take_bit_next)
  then show ?case using Suc k by simp
qed

declare rc5_halves.simps [simp del]

lemma timed_even:
  assumes "nec_timed raw ds" "i < 67" "even i"
  shows "i = 0 \<and> 7500 \<le> ds ! i \<and> ds ! i \<le> 10000 \<or> i \<noteq> 0 \<and> 300 \<le> ds ! i \<and> ds ! i \<le> 576"
proof (cases "i = 0")
  case True
  then show ?thesis using assms(1) by (simp add: nec_timed_def within_def)
next
  case False
  obtain j where "i = 2 * j" using assms(3) by (elim evenE)
  then obtain k where "i = 2 + k * 2" using False by (cases j) auto
  then show ?thesis using timed_mark [OF assms(1), of k] assms(2) by simp
qed

lemma no_pd24: "nec_timed raw ds \<Longrightarrow> i < 67 \<Longrightarrow> pd24_at frame_levels ds 67 i = Some None"
  using timed_even [of raw ds i]
  by (cases "even i") (auto simp: pd24_at_def and_then_def mark_def level_within_def within_def word_le_nat_alt)

lemma mark_units: "nec_timed raw ds \<Longrightarrow> i < 67 \<Longrightarrow> even i \<Longrightarrow> bad_units (ds ! i)"
proof -
  assume a: "nec_timed raw ds" "i < 67" "even i"
  show ?thesis
  proof (cases "i = 0")
    case True
    then have d: "7500 \<le> unat (ds ! i)" "unat (ds ! i) \<le> 10000" using timed_even [OF a] by (simp_all add: word_le_nat_alt)
    then have "4 \<le> (unat (ds ! i) + 444) div 889" using div_le_mono [of 3556 "unat (ds ! i) + 444" 889] by simp
    then have "units_of (ds ! i) > 3"
      using d by (simp add: units_of_def word_less_nat_alt unat_div unat_word_ariths(1))
    then show ?thesis by (simp add: bad_units_def)
  next
    case False
    then have d: "unat (ds ! i) \<le> 576" using timed_even [OF a] by (simp add: word_le_nat_alt)
    then have "units_of (ds ! i) = word_of_nat ((unat (ds ! i) + 444) div 889)"
      by (simp add: units_of_def word_unat_eq_iff unat_div unat_word_ariths(1) unat_of_nat)
    moreover have "(unat (ds ! i) + 444) div 889 \<le> 1" using d by simp
    ultimately have "units_of (ds ! i) = 0 \<or> units_of (ds ! i) = 1" by (auto simp: le_Suc_eq)
    then show ?thesis using d by (auto simp: bad_units_def Let_def word_less_nat_alt)
  qed
qed

lemma no_rc5: "nec_timed raw ds \<Longrightarrow> i < 67 \<Longrightarrow> rc5_at frame_levels ds 67 i = Some None"
proof -
  assume a: "nec_timed raw ds" "i < 67"
  have stop: "rc5_halves frame_levels ds 67 e h = Some h" if "e \<ge> 67 \<or> even e" for e h
    using that mark_units [OF a(1), of e] a(1) by (subst rc5_halves.simps) auto
  have "\<exists>hs n. rc5_halves frame_levels ds 67 i (replicate HALVES 0, 0) = Some (hs, n) \<and> n \<le> 3"
  proof (cases "even i \<or> bad_units (ds ! i)")
    case True
    then show ?thesis using mark_units [OF a] a by (subst rc5_halves.simps) auto
  next
    case False
    let ?n = "unat (units_of (ds ! i))"
    obtain hs where "put_halves ?n HIGH (replicate HALVES 0, 0) = Some (hs, ?n)"
      using put_halves_total [of "(replicate HALVES 0, 0)" ?n HIGH] good_units [of "ds ! i"] False by (auto simp: HALVES_def)
    then show ?thesis using False a stop [of "Suc i"] good_units [of "ds ! i"]
      by (subst rc5_halves.simps) auto
  qed
  then obtain hs n where "rc5_halves frame_levels ds 67 i (replicate HALVES 0, 0) = Some (hs, n)" "n \<le> 3" by blast
  then show ?thesis by (simp add: rc5_at_def)
qed

text \<open>C21: Every NEC frame whose leader, marks and spaces are inside the tolerances of the decoder, with marks
  shorter than 577 microseconds, is decoded to exactly the 32 bits that were sent, provided its third
  and fourth byte are complements: the address is the first byte if the second one is its complement
  and both bytes otherwise.\<close>

theorem nec_decodes:
  assumes "nec_timed raw durations" "nec_frame raw = Some frame"
  shows "decode (Some frame_levels) (Some durations) 67 = Some (True, frame) \<and> fr_code frame = raw"
proof -
  have "search (pd24_at frame_levels durations 67) [0..<67 - 50] = Some None"
    by (rule search_none, rule no_pd24 [OF assms(1)]) auto
  moreover have "search (rc5_at frame_levels durations 67) [0..<67] = Some None"
    by (rule search_none, rule no_rc5 [OF assms(1)]) auto
  moreover have "nec_at frame_levels durations 0 = Some (Some frame)"
  proof -
    have "mark frame_levels durations 0 7500 10000 = Some True" "space frame_levels durations (0 + 1) 3500 5500 = Some True"
      using assms(1) by (simp_all add: mark_def space_def level_within_def) (simp_all add: nec_timed_def)
    then show ?thesis using timed_bits [OF assms(1), of 0] assms(2) by (simp add: nec_at_def and_then_def)
  qed
  moreover have "[0..<67 - 66] = [0 :: nat]" by simp
  ultimately have "decode (Some frame_levels) (Some durations) 67 = Some (True, frame)"
    unfolding decode_def by simp
  moreover have "fr_code frame = raw" using assms(2) by (auto simp: nec_frame_def Let_def split: if_splits)
  ultimately show ?thesis by simp
qed

definition nec_signal :: "u32 \<Rightarrow> u32 \<Rightarrow> u32 \<Rightarrow> u32 list" where
  "nec_signal m z raw = [9000, 4500] @ concat (map (\<lambda>k. [m, if bit raw k then 1690 else z]) [0..<32]) @ [m]"

lemma pairs_nth:
  "length (concat (map (\<lambda>k. [m, g k]) [0..<n])) = n * 2"
  "k < n \<Longrightarrow> concat (map (\<lambda>k. [m, g k]) [0..<n]) ! (k * 2) = m"
  "k < n \<Longrightarrow> concat (map (\<lambda>k. [m, g k]) [0..<n]) ! Suc (k * 2) = g k"
proof -
  show l: "length (concat (map (\<lambda>k. [m, g k]) [0..<n])) = n * 2" for n by (induction n) auto
  show "k < n \<Longrightarrow> concat (map (\<lambda>k. [m, g k]) [0..<n]) ! (k * 2) = m"
    by (induction n) (auto simp: nth_append l less_Suc_eq)
  show "k < n \<Longrightarrow> concat (map (\<lambda>k. [m, g k]) [0..<n]) ! Suc (k * 2) = g k"
    by (induction n) (auto simp: nth_append l less_Suc_eq)
qed

lemma nec_signal_nth:
  "length (nec_signal m z raw) = 67 \<and> nec_signal m z raw ! 0 = 9000 \<and> nec_signal m z raw ! 1 = 4500 \<and>
   (k < 33 \<longrightarrow> nec_signal m z raw ! (2 + k * 2) = m) \<and>
   (k < 32 \<longrightarrow> nec_signal m z raw ! (3 + k * 2) = (if bit raw k then 1690 else z))"
proof -
  define xs where "xs = concat (map (\<lambda>k. [m, if bit raw k then 1690 else z]) [0..<32])"
  have s: "nec_signal m z raw = 9000 # 4500 # xs @ [m]" by (simp only: nec_signal_def xs_def append.simps)
  have l: "length xs = 64" unfolding xs_def by (subst pairs_nth(1)) simp
  have e: "k < 32 \<Longrightarrow> xs ! (k * 2) = m" unfolding xs_def by (rule pairs_nth(2))
  have o: "k < 32 \<Longrightarrow> xs ! Suc (k * 2) = (if bit raw k then 1690 else z)" unfolding xs_def by (rule pairs_nth(3))
  show ?thesis using l e o by (auto simp: s nth_append numeral_3_eq_3 less_Suc_eq)
qed

lemma nec_signal_timed:
  assumes "300 \<le> m" "m \<le> 576" "300 \<le> z" "z \<le> 1000"
  shows "nec_timed raw (nec_signal m z raw)"
  unfolding nec_timed_def using nec_signal_nth [of m z raw] assms by (simp only: within_def) auto

theorem nec_decodes_witness:
  "decode (Some frame_levels) (Some (nec_signal 560 560 0xF708FB04)) 67 =
     Some (True, no_frame\<lparr>fr_protocol := NEC, fr_address := 4, fr_data := 8, fr_bits := 32, fr_code := 0xF708FB04\<rparr>)"
proof -
  have "nec_frame 0xF708FB04 = Some (no_frame\<lparr>fr_protocol := NEC, fr_address := 4, fr_data := 8, fr_bits := 32,
      fr_code := 0xF708FB04\<rparr>)" by (simp add: nec_frame_def)
  moreover have "nec_timed 0xF708FB04 (nec_signal 560 560 0xF708FB04)" by (rule nec_signal_timed) simp_all
  ultimately show ?thesis using nec_decodes by blast
qed


end
