(* ===== verification/C_Text.thy ===== *)
theory C_Text
  imports Noob_Prelude
begin

text \<open>
  The parts of the C library the Linux daemon and the bridge to it use on text: searching, scanning of
  unsigned numbers and words as \<open>sscanf\<close> does it, and hexadecimal digits. A text is the characters
  before its terminating zero.
\<close>

section \<open>Searching\<close>

definition starts_with :: "string \<Rightarrow> string \<Rightarrow> bool" where
  "starts_with p s \<longleftrightarrow> take (length p) s = p"

text \<open>\<open>strstr\<close>: the text from the first occurrence on.\<close>

fun strstr :: "string \<Rightarrow> string \<Rightarrow> string option" where
  "strstr [] p = (if p = [] then Some [] else None)"
| "strstr (c # s) p = (if starts_with p (c # s) then Some (c # s) else strstr s p)"

definition strchr :: "string \<Rightarrow> char \<Rightarrow> string option" where
  "strchr s c = (case dropWhile (\<lambda>d. d \<noteq> c) s of [] \<Rightarrow> None | r \<Rightarrow> Some r)"

definition ends_with :: "string \<Rightarrow> string \<Rightarrow> bool" where
  "ends_with p s \<longleftrightarrow> length p \<le> length s \<and> drop (length s - length p) s = p"

lemma starts_with_append [simp]: "starts_with p (p @ s)"
  by (simp add: starts_with_def)

lemma starts_with_Nil [simp]: "starts_with [] s"
  by (simp add: starts_with_def)

lemma starts_with_Cons [simp]: "starts_with (a # p) (c # s) \<longleftrightarrow> a = c \<and> starts_with p s"
  "\<not> starts_with (a # p) []"
  by (auto simp: starts_with_def)

lemma strstr_here [simp]: "strstr (p @ s) p = Some (p @ s)"
  using starts_with_append [of p s] by (cases "p @ s") (auto simp del: starts_with_append)

lemma strstr_absent: "hd p \<notin> set s \<Longrightarrow> p \<noteq> [] \<Longrightarrow> strstr s p = None"
  by (induction s) (cases p; auto)+

lemma strstr_skip: "hd p \<notin> set s \<Longrightarrow> p \<noteq> [] \<Longrightarrow> strstr (s @ t) p = strstr t p"
  by (induction s) (cases p; auto)+

section \<open>Scanning\<close>

text \<open>The directive \<open>%u\<close>: blanks, an optional sign and digits; the value is that of \<open>strtoul\<close>, stored in 32 bits.\<close>

definition scan_u :: "int \<Rightarrow> string \<Rightarrow> (u32 \<times> string) option" where
  "scan_u ulong_max s =
     (let (neg, u) = split_sign (dropWhile c_isspace s); ds = takeWhile isDigit u; v = digits_value ds
      in if ds = [] then None
         else Some (if v > ulong_max then word_of_int ulong_max else if neg then - word_of_int v else word_of_int v,
                    dropWhile isDigit u))"

text \<open>The directive \<open>%Ns\<close>: blanks, then at least one and at most \<open>N\<close> characters that are not blank.\<close>

definition scan_s :: "nat \<Rightarrow> string \<Rightarrow> (string \<times> string) option" where
  "scan_s n s =
     (let t = dropWhile c_isspace s; word = take n (takeWhile (\<lambda>c. \<not> c_isspace c) t)
      in if word = [] then None else Some (word, drop (length word) t))"

definition scan_literal :: "string \<Rightarrow> string \<Rightarrow> string option" where
  "scan_literal p s = (if starts_with p s then Some (drop (length p) s) else None)"

definition blank_free :: "string \<Rightarrow> bool" where
  "blank_free s \<longleftrightarrow> (\<forall>c \<in> set s. \<not> c_isspace c)"

lemma digit_not_blank: "isDigit c \<Longrightarrow> \<not> c_isspace c"
  by (auto simp: isDigit_def c_isspace_def)

lemma blank_free_simps [simp]: "blank_free []" "blank_free (c # s) \<longleftrightarrow> \<not> c_isspace c \<and> blank_free s"
  "blank_free (s @ t) \<longleftrightarrow> blank_free s \<and> blank_free t"
  by (auto simp: blank_free_def)

lemma show_nat_blank_free [simp]: "blank_free (show_nat n)"
  using show_nat_digits digit_not_blank by (auto simp: blank_free_def)

lemma blank_hd: "blank_free s \<Longrightarrow> s \<noteq> [] \<Longrightarrow> dropWhile c_isspace (s @ t) = s @ t"
  by (cases s) auto

lemma blank_space [simp]: "c_isspace CHR '' ''"
  by (simp add: c_isspace_def)

lemma scan_s_word:
  assumes "blank_free s" "s \<noteq> []" "length s \<le> n" "t = [] \<or> c_isspace (hd t)"
  shows "scan_s n (s @ t) = Some (s, t)" "scan_s n (CHR '' '' # s @ t) = Some (s, t)"
proof -
  have "takeWhile (\<lambda>c. \<not> c_isspace c) (s @ t) = s"
    using assms(1,4) by (cases t) (auto simp: blank_free_def takeWhile_append)
  moreover have "n \<noteq> 0" using assms(2,3) by (cases s) auto
  ultimately show "scan_s n (s @ t) = Some (s, t)" "scan_s n (CHR '' '' # s @ t) = Some (s, t)"
    using assms blank_hd [OF assms(1,2)] by (simp_all add: scan_s_def Let_def)
qed

lemma scan_u_number:
  assumes "int n \<le> ulong_max" "t = [] \<or> \<not> isDigit (hd t)"
  shows "scan_u ulong_max (show_nat n @ t) = Some (of_nat n, t)"
    "scan_u ulong_max (CHR '' '' # show_nat n @ t) = Some (of_nat n, t)"
proof -
  have d: "list_all isDigit (show_nat n)" "show_nat n \<noteq> []" using show_nat_digits by (auto simp: list_all_iff)
  have tw: "takeWhile isDigit (show_nat n @ t) = show_nat n" "dropWhile isDigit (show_nat n @ t) = t"
    using d assms(2) by (cases t; auto simp: list_all_iff takeWhile_append dropWhile_append)+
  have ss: "split_sign (show_nat n @ t) = (False, show_nat n @ t)"
    using d by (cases "show_nat n") (auto simp: split_sign_def isDigit_def)
  have v: "digits_value (show_nat n) = int n" using digits_value_show_nat by simp
  show "scan_u ulong_max (show_nat n @ t) = Some (of_nat n, t)"
    "scan_u ulong_max (CHR '' '' # show_nat n @ t) = Some (of_nat n, t)"
    using assms(1) d(2) blank_hd [OF show_nat_blank_free d(2)]
    by (simp_all add: scan_u_def Let_def ss tw v)
qed

section \<open>Hexadecimal digits\<close>

definition hex_digit :: "nat \<Rightarrow> char" where
  "hex_digit n = ''0123456789abcdef'' ! n"

definition hex_value :: "char \<Rightarrow> nat option" where
  "hex_value c = (let n = of_char c in
     if 48 \<le> n \<and> n \<le> 57 then Some (n - 48)
     else if 97 \<le> n \<and> n \<le> 102 then Some (n - 97 + 10)
     else if 65 \<le> n \<and> n \<le> 70 then Some (n - 65 + 10)
     else None)"

definition hex_byte :: "nat \<Rightarrow> string" where
  "hex_byte n = [hex_digit (n div 16), hex_digit (n mod 16)]"

lemma all_nibbles: "(\<forall>n < (16 :: nat). P n) \<longleftrightarrow> (\<forall>n \<in> set [0..<16]. P n)"
  by auto

lemma hex_value_digit: "n < 16 \<Longrightarrow> hex_value (hex_digit n) = Some n"
proof -
  have "\<forall>n \<in> set [0..<16]. hex_value (hex_digit n) = Some n" by code_simp
  then show "n < 16 \<Longrightarrow> hex_value (hex_digit n) = Some n" by simp
qed

lemma hex_digit_clean: "n < 16 \<Longrightarrow> \<not> c_isspace (hex_digit n) \<and> hex_digit n \<noteq> CHR 0x00"
proof -
  have "\<forall>n \<in> set [0..<16]. \<not> c_isspace (hex_digit n) \<and> hex_digit n \<noteq> CHR 0x00" by code_simp
  then show "n < 16 \<Longrightarrow> \<not> c_isspace (hex_digit n) \<and> hex_digit n \<noteq> CHR 0x00" by simp
qed

end
