(* ===== verification/Neod.thy ===== *)
theory Neod
  imports C_Text Noob_Record
begin

text \<open>
  The Linux daemon of the paired board, \<open>src/neo/tools/noob-neod.c\<close>, with its argument parser
  \<open>noob_native_registry.h\<close> and its adapters \<open>hw_display.c\<close> and \<open>hw_led.c\<close>. The state is the daemon's static
  variables and, in the field \<open>os\<close>, what the operating system will answer to its calls: the bytes in
  the scanner's pipe, whether children have ended, which files exist, which calls succeed. The field
  also records the files the daemon opened and the jobs it started. A handler returns the line it
  sends, if it sends one.
\<close>

section \<open>The operating system and the state\<close>

record NeoOs =
  ulong_max :: int
  os_ir_ready :: bool
  os_pipe :: string
  os_pipe_error :: bool
  os_pipe2 :: bool
  os_fork :: bool
  os_scan_exited :: bool
  os_vm :: "string \<Rightarrow> u8 list option"
  os_pread :: bool
  os_log :: bool
  os_file_done :: "int option"
  os_esp_dir :: "string option"
  os_worker_done :: "int option"
  os_term :: "int option"
  os_gpio :: bool
  os_lines :: "nat \<Rightarrow> bool"
  os_errno :: "int \<times> string"
  os_opened :: "string list"
  os_jobs :: "(string \<times> string) list"

record Neod =
  scan_pid :: bool
  scan_output :: bool
  scan_line :: string
  ir_queue :: "u32 list"
  ir_head :: nat
  ir_count :: nat
  file_pid :: bool
  file_exit :: int
  worker :: bool
  is_thread :: bool
  last_exit :: int
  active_image :: string
  active_interval :: int32
  handles :: "bool list"
  os :: NeoOs

definition REQUEST_BYTES :: nat where "REQUEST_BYTES = 512"
definition REPLY_BYTES :: nat where "REPLY_BYTES = 768"
definition IR_QUEUE_SIZE :: nat where "IR_QUEUE_SIZE = 16"
definition SCAN_LINE_BYTES :: nat where "SCAN_LINE_BYTES = 256"
definition ASCII_BYTES :: nat where "ASCII_BYTES = 192"

definition newline :: char where "newline = CHR 0x0A"

definition c_printable :: "char \<Rightarrow> bool" where
  "c_printable c \<longleftrightarrow> 32 \<le> (of_char c :: nat) \<and> (of_char c :: nat) < 127"

type_synonym reply = "string option"

definition respond :: "u32 \<Rightarrow> string \<Rightarrow> string \<Rightarrow> reply" where
  "respond i status payload =
     (let line = ''NRP/1 '' @ show_nat (unat i) @ '' '' @ status @
        (if payload \<noteq> [] then '' '' @ payload else []) @ [newline]
      in if length line < REPLY_BYTES then Some line else None)"

section \<open>The infrared scanner\<close>

definition digits_in :: "nat \<Rightarrow> string \<Rightarrow> string" where
  "digits_in base s = takeWhile (\<lambda>c. case hex_value c of None \<Rightarrow> False | Some v \<Rightarrow> v < base) s"

definition base_value :: "nat \<Rightarrow> string \<Rightarrow> int" where
  "base_value base ds = foldl (\<lambda>a c. a * int base + int (the (hex_value c))) 0 ds"

definition strtoul0 :: "int \<Rightarrow> string \<Rightarrow> int option" where
  "strtoul0 umax s =
     (let (neg, u) = split_sign (dropWhile c_isspace s);
          (base, d) = (if (starts_with ''0x'' u \<or> starts_with ''0X'' u) \<and> digits_in 16 (drop 2 u) \<noteq> []
                       then (16, drop 2 u) else if starts_with ''0'' u then (8, u) else (10, u));
          ds = digits_in base d; v = base_value base ds
      in if ds = [] then None
         else Some (if v > umax then umax else if neg then (umax + 1 - v) mod (umax + 1) else v))"

definition queue_put :: "u32 \<Rightarrow> Neod \<Rightarrow> Neod" where
  "queue_put v n =
     (let n = (if ir_count n = IR_QUEUE_SIZE
               then n\<lparr>ir_head := (ir_head n + 1) mod IR_QUEUE_SIZE, ir_count := ir_count n - 1\<rparr> else n);
          n = n\<lparr>ir_queue := (ir_queue n)[(ir_head n + ir_count n) mod IR_QUEUE_SIZE := v]\<rparr>
      in n\<lparr>ir_count := ir_count n + 1\<rparr>)"

definition queue_take :: "Neod \<Rightarrow> (u32 \<times> Neod) option" where
  "queue_take n = (if ir_count n = 0 then None
     else Some (ir_queue n ! ir_head n,
                n\<lparr>ir_head := (ir_head n + 1) mod IR_QUEUE_SIZE, ir_count := ir_count n - 1\<rparr>))"

definition queue_scancode :: "string \<Rightarrow> Neod \<Rightarrow> Neod" where
  "queue_scancode line n = (case strstr line ''scancode = '' of
       None \<Rightarrow> n
     | Some field \<Rightarrow> (case strtoul0 (ulong_max (os n)) (drop 11 field) of
           None \<Rightarrow> n
         | Some v \<Rightarrow> queue_put (word_of_int v) n))"

definition collect_char :: "char \<Rightarrow> Neod \<Rightarrow> Neod" where
  "collect_char c n =
     (if c = newline \<or> c = CHR 0x0D then (queue_scancode (scan_line n) n)\<lparr>scan_line := []\<rparr>
      else if length (scan_line n) + 1 < SCAN_LINE_BYTES \<and> c_printable c
      then n\<lparr>scan_line := scan_line n @ [c]\<rparr>
      else if length (scan_line n) + 1 \<ge> SCAN_LINE_BYTES then n\<lparr>scan_line := []\<rparr>
      else n)"

definition collect_scancodes :: "string \<Rightarrow> Neod \<Rightarrow> Neod" where
  "collect_scancodes bytes n = fold collect_char bytes n"

definition read_pipe :: "nat \<Rightarrow> Neod \<Rightarrow> string \<times> Neod" where
  "read_pipe capacity n = (if os_pipe_error (os n) then ([], n)
     else (take capacity (os_pipe (os n)), n\<lparr>os := (os n)\<lparr>os_pipe := drop capacity (os_pipe (os n))\<rparr>\<rparr>))"

definition stop_scan :: "Neod \<Rightarrow> Neod" where
  "stop_scan n = n\<lparr>scan_pid := False, scan_output := False, scan_line := [], ir_head := 0, ir_count := 0,
     os := (os n)\<lparr>os_scan_exited := False, os_pipe := []\<rparr>\<rparr>"

primrec drain_reads :: "nat \<Rightarrow> Neod \<Rightarrow> Neod" where
  "drain_reads 0 n = n"
| "drain_reads (Suc k) n = (let (bytes, n) = read_pipe 512 n
     in if bytes = [] then n else drain_reads k (collect_scancodes bytes n))"

definition drain_scan :: "Neod \<Rightarrow> Neod" where
  "drain_scan n =
     (let n = (if scan_output n then drain_reads 8 n else n)
      in if scan_pid n \<and> os_scan_exited (os n)
         then n\<lparr>scan_pid := False, scan_output := False, os := (os n)\<lparr>os_scan_exited := False, os_pipe := []\<rparr>\<rparr>
         else n)"

section \<open>Files and audio\<close>

definition unhex_pair :: "char \<Rightarrow> char \<Rightarrow> char option" where
  "unhex_pair a b = (case (hex_value a, hex_value b) of
       (Some x, Some y) \<Rightarrow> let v = x * 16 + y in if v < 32 \<or> v > 126 then None else Some (char_of v)
     | _ \<Rightarrow> None)"

fun unhex_loop :: "string \<Rightarrow> string option" where
  "unhex_loop (a # b # rest) = (case unhex_pair a b of None \<Rightarrow> None
     | Some c \<Rightarrow> map_option (Cons c) (unhex_loop rest))"
| "unhex_loop _ = Some []"

definition unhex :: "string \<Rightarrow> nat \<Rightarrow> string option" where
  "unhex hex capacity = (if hex = [] \<or> odd (length hex) \<or> length hex div 2 \<ge> capacity then None
     else unhex_loop hex)"

definition name_char :: "char \<Rightarrow> bool" where
  "name_char c \<longleftrightarrow> (97 \<le> (of_char c :: nat) \<and> of_char c \<le> (122 :: nat)) \<or>
     (65 \<le> (of_char c :: nat) \<and> of_char c \<le> (90 :: nat)) \<or> isDigit c \<or>
     c = CHR ''_'' \<or> c = CHR ''-'' \<or> c = CHR ''.''"

definition basename_ok :: "string \<Rightarrow> bool" where
  "basename_ok name \<longleftrightarrow> name \<noteq> [] \<and> hd name \<noteq> CHR ''.'' \<and> strstr name ''..'' = None \<and>
     (\<forall>c \<in> set name. name_char c)"

definition reap_file :: "Neod \<Rightarrow> Neod" where
  "reap_file n = (case os_file_done (os n) of
       Some status \<Rightarrow> if file_pid n then n\<lparr>file_exit := status, file_pid := False,
           os := (os n)\<lparr>os_file_done := None\<rparr>\<rparr> else n
     | None \<Rightarrow> n)"

definition VM_CHUNK :: nat where "VM_CHUNK = 128"

definition vm_payload :: "u8 list \<Rightarrow> nat \<Rightarrow> string" where
  "vm_payload content offset =
     (let bytes = take VM_CHUNK (drop offset content); got = length bytes
      in ''value='' @ show_nat got @ '' size='' @ show_nat (length content) @ '' eof='' @
         show_bool (offset + got = length content) @ '' data='' @ concat (map (\<lambda>b. hex_byte (unat b)) bytes))"

definition vm_request :: "int \<Rightarrow> string \<Rightarrow> (u32 \<times> string) option" where
  "vm_request umax arguments = (case scan_u umax arguments of None \<Rightarrow> None
     | Some (offset, rest) \<Rightarrow> (case scan_s 383 rest of None \<Rightarrow> None
         | Some (hex, rest) \<Rightarrow>
             if dropWhile c_isspace rest \<noteq> [] then None
             else (case unhex hex ASCII_BYTES of None \<Rightarrow> None
                 | Some name \<Rightarrow> if basename_ok name then Some (offset, name) else None)))"

definition vm_read :: "u32 \<Rightarrow> string \<Rightarrow> Neod \<Rightarrow> reply \<times> Neod" where
  "vm_read i arguments n = (case vm_request (ulong_max (os n)) arguments of
       None \<Rightarrow> (respond i ''ERR BAD_REQUEST'' ''expected offset and hex VM basename'', n)
     | Some (offset, name) \<Rightarrow>
         if length name < 5 \<or> \<not> ends_with ''.nvm'' name
         then (respond i ''ERR BAD_PATH'' ''VM file must end in .nvm'', n)
         else let n = n\<lparr>os := (os n)\<lparr>os_opened := os_opened (os n) @ [name]\<rparr>\<rparr>
              in case os_vm (os n) name of
                   None \<Rightarrow> (respond i ''ERR VM_FILE'' ''VM unavailable or invalid size'', n)
                 | Some content \<Rightarrow>
                     if length content < 1 \<or> length content > 1024 \<or> unat offset > length content
                     then (respond i ''ERR VM_FILE'' ''VM unavailable or invalid size'', n)
                     else if \<not> os_pread (os n) then (respond i ''ERR IO'' ''VM read failed'', n)
                     else (respond i ''OK'' (vm_payload content (unat offset)), n))"

definition file_status :: "Neod \<Rightarrow> string" where
  "file_status n = ''value='' @ show_bool (file_pid n) @ '' running='' @ show_bool (file_pid n) @
     '' exit='' @ show_int (file_exit n)"

definition job_name :: "bool \<Rightarrow> bool \<Rightarrow> string \<Rightarrow> string option" where
  "job_name fetch play arguments = (if \<not> fetch \<and> \<not> play then None
     else case unhex arguments ASCII_BYTES of None \<Rightarrow> None
       | Some name \<Rightarrow>
           if fetch \<and> (hd name \<noteq> CHR ''/'' \<or> strstr name ''..'' \<noteq> None \<or> strchr name CHR 0x5C \<noteq> None) then None
           else if play \<and> \<not> basename_ok name then None
           else Some name)"

definition file_command :: "u32 \<Rightarrow> string \<Rightarrow> string \<Rightarrow> Neod \<Rightarrow> reply \<times> Neod" where
  "file_command i command arguments n =
     (let n = reap_file n
      in if command = ''FILE_STATUS'' \<and> arguments = [] then (respond i ''OK'' (file_status n), n)
         else if command = ''VM_READ'' then vm_read i arguments n
         else let fetch = (command = ''FILE_DOWNLOAD'')
              in case job_name fetch (command = ''AUDIO_PLAY'') arguments of
                   None \<Rightarrow> (respond i ''ERR BAD_REQUEST'' ''invalid file operation or path'', n)
                 | Some name \<Rightarrow>
                     if file_pid n then (respond i ''ERR BUSY'' ''file or audio job running'', n)
                     else if \<not> os_log (os n) then (respond i ''ERR IO'' ''job log unavailable'', n)
                     else if \<not> os_fork (os n) then (respond i ''ERR IO'' ''job start failed'', n)
                     else (respond i ''OK'' ''value=1 started=1 async=1'',
                           n\<lparr>file_pid := True, file_exit := -1, os := (os n)\<lparr>os_file_done := None,
                             os_jobs := os_jobs (os n) @ [(if fetch then ''fetch'' else ''play'', name)]\<rparr>\<rparr>))"

section \<open>Commands in their old form\<close>

definition hex32 :: "u32 \<Rightarrow> string" where
  "hex32 w = map (\<lambda>k. hex_digit (nat (uint w div 16 ^ k mod 16))) (rev [0..<8])"

definition ir_scan_start :: "u32 \<Rightarrow> Neod \<Rightarrow> reply \<times> Neod" where
  "ir_scan_start i n =
     (if \<not> os_ir_ready (os n)
      then (respond i ''ERR IR_UNAVAILABLE'' ''no rc0 device or ir-keytable; enable the HAT IR driver first'', n)
      else if scan_pid n then (respond i ''OK'' ''value=1 already_running=1'', n)
      else if \<not> os_pipe2 (os n) then (respond i ''ERR IO'' ''cannot create scanner pipe'', n)
      else if \<not> os_fork (os n) then (respond i ''ERR IO'' ''cannot start ir-keytable'', n)
      else (respond i ''OK'' ''value=1 started=1'',
            n\<lparr>scan_pid := True, scan_output := True,
              os := (os n)\<lparr>os_pipe := [], os_scan_exited := False\<rparr>\<rparr>))"

definition ir_scan_read :: "u32 \<Rightarrow> Neod \<Rightarrow> reply \<times> Neod" where
  "ir_scan_read i n =
     (if \<not> scan_pid n \<or> \<not> scan_output n then (respond i ''ERR NOT_RUNNING'' ''start IR_SCAN first'', n)
      else if os_pipe_error (os n) then (respond i ''ERR IO'' ''scanner read failed'', n)
      else let (raw, n) = read_pipe 479 n; n = collect_scancodes raw n;
               (v, n) = (case queue_take n of None \<Rightarrow> (0, n) | Some (v, n) \<Rightarrow> (v, n))
           in (respond i ''OK'' (''value='' @ show_i32 v @ '' scancode=0x'' @ hex32 v @ '' queued='' @
                 show_nat (ir_count n)), n))"

definition hw_command :: "u32 \<Rightarrow> string \<Rightarrow> string \<Rightarrow> Neod \<Rightarrow> reply \<times> Neod" where
  "hw_command i command arguments n =
     (if command \<in> {''FILE_DOWNLOAD'', ''FILE_STATUS'', ''AUDIO_PLAY'', ''VM_READ''}
      then file_command i command arguments n
      else if arguments \<noteq> [] then (respond i ''ERR BAD_REQUEST'' ''unexpected arguments'', n)
      else if command = ''PING'' then (respond i ''OK'' ''PONG'', n)
      else if command = ''CAPS''
      then (respond i ''OK'' (''name=Neo functions=IR_STATUS,IR_SCAN_START,IR_SCAN_STOP,IR_SCAN_READ,'' @
              ''FILE_DOWNLOAD,FILE_STATUS,VM_READ,AUDIO_PLAY''), n)
      else if command = ''IR_STATUS''
      then (if \<not> os_ir_ready (os n)
            then (respond i ''ERR IR_UNAVAILABLE'' ''no rc0 device or ir-keytable; enable the HAT IR driver first'', n)
            else (respond i ''OK'' (''value='' @ show_bool (scan_pid n) @ '' ready=1 scanning='' @ show_bool (scan_pid n)), n))
      else if command = ''IR_SCAN_START'' then ir_scan_start i n
      else if command = ''IR_SCAN_STOP'' then (respond i ''OK'' ''value=1 stopped=1'', stop_scan n)
      else if command = ''IR_SCAN_READ'' then ir_scan_read i n
      else (respond i ''ERR UNKNOWN_COMMAND'' command, n))"

end
