(* ===== verification/Neo_Natives.thy ===== *)
theory Neo_Natives
  imports Neod
begin

text \<open>
  The native calls of the Linux daemon: the parser of numeric and quoted arguments, the adapters for the
  display worker and the LEDs, the table of functions and the handler of one connection.
\<close>

section \<open>Arguments\<close>

record NoobNativeArguments =
  numbers :: "int32 list"
  ascii :: string

type_synonym NoobNativeFunction = "u32 \<Rightarrow> string \<Rightarrow> NoobNativeArguments \<Rightarrow> Neod \<Rightarrow> reply \<times> Neod"

record NoobNativeEntry =
  ne_name :: string
  ne_numbers :: nat
  ne_text :: bool
  ne_call :: NoobNativeFunction

definition noob_native_find :: "NoobNativeEntry list \<Rightarrow> string \<Rightarrow> NoobNativeEntry option" where
  "noob_native_find es name = List.find (\<lambda>e. ne_name e = name) es"

definition parse_number :: "string \<Rightarrow> (int32 \<times> string) option" where
  "parse_number text = (let (v, rest, range_error) = strtol10 INT64_MIN INT64_MAX text
     in if range_error \<or> length rest = length text \<or> v < INT32_MIN \<or> v > INT32_MAX \<or>
           (rest \<noteq> [] \<and> hd rest \<noteq> CHR '' '') then None
        else Some (word_of_int v, rest))"

lemma strtol10_shorter: "length (fst (snd (strtol10 lo hi s))) \<le> length s"
proof -
  have "length (dropWhile isDigit (snd (split_sign (dropWhile c_isspace (c_str s))))) \<le> length s"
  proof -
    have "length (snd (split_sign t)) \<le> length t" for t by (cases t) (auto simp: split_sign_def)
    moreover have "length (dropWhile c_isspace (c_str s)) \<le> length s"
      by (metis c_str_def le_trans length_dropWhile_le length_takeWhile_le)
    ultimately show ?thesis by (meson le_trans length_dropWhile_le)
  qed
  moreover have "length (c_str s) \<le> length s" by (simp add: c_str_def length_takeWhile_le)
  ultimately show ?thesis by (simp add: strtol10_def Let_def case_prod_unfold)
qed

lemma parse_number_shorter: "parse_number s = Some (v, rest) \<Longrightarrow> length rest < length s"
  using strtol10_shorter [of INT64_MIN INT64_MAX s]
  by (auto simp: parse_number_def Let_def case_prod_unfold split: if_splits)

function parse_numbers :: "int32 list \<Rightarrow> string \<Rightarrow> (int32 list \<times> string) option" where
  "parse_numbers ns text =
     (if text = [] \<or> hd text = CHR 0x22 then Some (ns, text)
      else if length ns = 8 then None
      else case parse_number text of None \<Rightarrow> None
        | Some (v, rest) \<Rightarrow> parse_numbers (ns @ [v]) (skip_spaces rest))"
  by pat_completeness auto
termination
proof (relation "measure (\<lambda>(_, text). length text)")
  fix ns t x v rest
  assume "parse_number t = Some x" "(v, rest) = x"
  then have "length rest < length t" using parse_number_shorter by blast
  then show "((ns @ [v], skip_spaces rest), (ns, t)) \<in> measure (\<lambda>(_, text). length text)"
    using length_skip_spaces [of rest] by simp
qed simp

fun parse_quoted :: "string \<Rightarrow> string \<Rightarrow> (string \<times> string) option" where
  "parse_quoted used [] = None"
| "parse_quoted used (c # text) =
     (if c = CHR 0x22 then Some (used, text)
      else if c = CHR 0x5C
      then (case text of [] \<Rightarrow> None
        | d # rest \<Rightarrow> if d \<noteq> CHR 0x5C \<and> d \<noteq> CHR 0x22 then None
            else if length used + 1 \<ge> ASCII_BYTES then None
            else parse_quoted (used @ [d]) rest)
      else if \<not> c_printable c \<or> length used + 1 \<ge> ASCII_BYTES then None
      else parse_quoted (used @ [c]) text)"

definition noob_native_parse :: "string \<Rightarrow> bool \<Rightarrow> NoobNativeArguments option" where
  "noob_native_parse text mixed = (case parse_numbers [] (skip_spaces text) of
       None \<Rightarrow> None
     | Some (ns, rest) \<Rightarrow>
         if \<not> mixed then (if rest = [] then Some \<lparr>numbers = ns, ascii = []\<rparr> else None)
         else if rest = [] then None
         else (case parse_quoted [] (tl rest) of
             None \<Rightarrow> None
           | Some (a, rest) \<Rightarrow> if skip_spaces rest = [] then Some \<lparr>numbers = ns, ascii = a\<rparr> else None))"

section \<open>The display worker\<close>

definition reap :: "Neod \<Rightarrow> Neod" where
  "reap n = (case os_worker_done (os n) of
       Some status \<Rightarrow> if worker n then n\<lparr>last_exit := status, worker := False,
           os := (os n)\<lparr>os_worker_done := None\<rparr>\<rparr> else n
     | None \<Rightarrow> n)"

text \<open>\<open>stop\<close> sends SIGTERM and reaps for 200 ms; \<open>os_term\<close> is the status the worker ends with in that time.\<close>

definition display_stop :: "Neod \<Rightarrow> Neod" where
  "display_stop n = (if \<not> worker n then n
     else case os_term (os n) of
         Some status \<Rightarrow> n\<lparr>last_exit := status, worker := False, os := (os n)\<lparr>os_worker_done := None\<rparr>\<rparr>
       | None \<Rightarrow> n\<lparr>worker := False, os := (os n)\<lparr>os_worker_done := None\<rparr>\<rparr>)"

definition display_log_path :: "Neod \<Rightarrow> string" where
  "display_log_path n = (case os_esp_dir (os n) of None \<Rightarrow> ''/esp'' | Some d \<Rightarrow> d) @ ''/.display.log''"

definition display_operation :: "string \<Rightarrow> string" where
  "display_operation name = (if name = ''DISPLAY_START'' then ''thread''
     else if name = ''IMAGE_FORMAT'' then ''format'' else if name = ''OLED_DRAW'' then ''image'' else ''text'')"

definition first_number :: "NoobNativeArguments \<Rightarrow> int32" where
  "first_number args = (case numbers args of [] \<Rightarrow> 0 | v # _ \<Rightarrow> v)"

definition display_launch :: "u32 \<Rightarrow> string \<Rightarrow> NoobNativeArguments \<Rightarrow> Neod \<Rightarrow> reply \<times> Neod" where
  "display_launch i name args n =
     (if length (display_log_path n) \<ge> 256 then (respond i ''ERR IO'' ''display log path too long'', n)
      else if \<not> os_log (os n) then (respond i ''ERR IO'' ''display log unavailable'', n)
      else if \<not> os_fork (os n) then (respond i ''ERR IO'' ''display worker failed'', n)
      else (respond i ''OK'' ''value=1 started=1 async=1 channel_busy=1'',
            n\<lparr>worker := True, is_thread := (name = ''DISPLAY_START''), active_image := ascii args,
              active_interval := first_number args, last_exit := -1,
              os := (os n)\<lparr>os_worker_done := None,
                os_jobs := os_jobs (os n) @ [(display_operation name, ascii args)]\<rparr>\<rparr>))"

definition hw_display_call :: NoobNativeFunction where
  "hw_display_call i name args n =
     (let n = reap n; start = (name = ''DISPLAY_START'')
      in if name = ''DISPLAY_STATUS''
         then (respond i ''OK'' (''value='' @ show_bool (worker n) @ '' running='' @ show_bool (worker n) @
                 '' channel_busy='' @ show_bool (worker n) @ '' type='' @
                 (if is_thread n then ''thread'' else ''sequence'') @ '' exit='' @ show_int (last_exit n)), n)
         else if name = ''DISPLAY_STOP''
         then (respond i ''OK'' ''value=0 stopped=1 channel_busy=0'', display_stop n)
         else if start \<and> (sint (first_number args) < 1000 \<or> sint (first_number args) > 60000)
         then (respond i ''ERR BAD_ARGUMENTS'' ''interval_ms must be 1000..60000'', n)
         else let n = (if worker n \<and> start \<and> is_thread n \<and>
                          (active_image n \<noteq> ascii args \<or> active_interval n \<noteq> first_number args)
                       then display_stop n else n)
              in if worker n
                 then (if start \<and> is_thread n then respond i ''OK'' ''value=1 already_running=1''
                       else respond i ''ERR BUSY'' ''display channel occupied'', n)
                 else display_launch i name args n)"

section \<open>The LEDs\<close>

definition noob_led_pins :: "(int \<times> nat) list" where
  "noob_led_pins = [(7, 203), (11, 0), (12, 6), (13, 2), (15, 3), (19, 64), (21, 65), (22, 1), (23, 66), (24, 67)]"

definition NOOB_LED_BOOT_PIN :: int where "NOOB_LED_BOOT_PIN = 23"

definition index_of :: "int \<Rightarrow> nat option" where
  "index_of pin = List.find (\<lambda>k. fst (noob_led_pins ! k) = pin) [0..<length noob_led_pins]"

text \<open>Claiming a line makes it an output at LOW.\<close>

definition claim :: "nat \<Rightarrow> Neod \<Rightarrow> bool \<times> Neod" where
  "claim k n = (if handles n ! k then (True, n)
     else if \<not> os_gpio (os n) then (False, n)
     else (True, n\<lparr>handles := (handles n)[k := True],
             os := (os n)\<lparr>os_lines := (os_lines (os n))(snd (noob_led_pins ! k) := False)\<rparr>\<rparr>))"

definition hw_led_boot :: "Neod \<Rightarrow> bool \<times> Neod" where
  "hw_led_boot n = (case index_of NOOB_LED_BOOT_PIN of None \<Rightarrow> (False, n) | Some k \<Rightarrow> claim k n)"

definition led_usage :: "u32 \<Rightarrow> reply" where
  "led_usage i = respond i ''ERR BAD_ARGUMENTS'' ''LED_SET physical_pin 0|1; LED_STATUS physical_pin''"

definition led_access :: "u32 \<Rightarrow> bool \<Rightarrow> int \<Rightarrow> bool \<Rightarrow> nat \<Rightarrow> Neod \<Rightarrow> reply \<times> Neod" where
  "led_access i setting pin level k n =
     (let (ok, n) = claim k n; line = snd (noob_led_pins ! k)
      in if \<not> ok \<or> \<not> os_gpio (os n)
         then (respond i ''ERR GPIO'' (''pin='' @ show_int pin @ '' errno='' @ show_int (fst (os_errno (os n))) @ '' '' @
                 snd (os_errno (os n))), n)
         else if setting
         then (respond i ''OK'' (''pin='' @ show_int pin @ '' claimed=1 value='' @ show_bool level),
               n\<lparr>os := (os n)\<lparr>os_lines := (os_lines (os n))(line := level)\<rparr>\<rparr>)
         else (respond i ''OK'' (''pin='' @ show_int pin @ '' claimed=1 value='' @ show_bool (os_lines (os n) line)), n))"

definition hw_led_call :: NoobNativeFunction where
  "hw_led_call i name args n =
     (let setting = (name = ''LED_SET'')
      in case numbers args of [] \<Rightarrow> (led_usage i, n)
      | pin # others \<Rightarrow>
          (case index_of (sint pin) of None \<Rightarrow> (led_usage i, n)
           | Some k \<Rightarrow>
               if length (numbers args) \<noteq> (if setting then 2 else 1) \<or> ascii args \<noteq> [] \<or>
                  (setting \<and> hd others \<noteq> 0 \<and> hd others \<noteq> 1) then (led_usage i, n)
               else if \<not> setting \<and> \<not> handles n ! k then (respond i ''OK'' ''claimed=0 state=unknown'', n)
               else led_access i setting (sint pin) (setting \<and> hd others = 1) k n))"

section \<open>The table and the handler\<close>

definition hex_text :: "string \<Rightarrow> string" where
  "hex_text s = concat (map (\<lambda>c. hex_byte (of_char c)) s)"

definition native_adapter :: NoobNativeFunction where
  "native_adapter i name args n = (case numbers args of
       [] \<Rightarrow> hw_command i name (take 431 (hex_text (ascii args))) n
     | v # _ \<Rightarrow> if sint v < 0 then (respond i ''ERR BAD_ARGUMENTS'' ''offset must be nonnegative'', n)
         else hw_command i name (take 431 (show_i32 v @ '' '' @ hex_text (ascii args))) n)"

definition native :: "string \<Rightarrow> nat \<Rightarrow> bool \<Rightarrow> NoobNativeFunction \<Rightarrow> NoobNativeEntry" where
  "native name k t f = \<lparr>ne_name = name, ne_numbers = k, ne_text = t, ne_call = f\<rparr>"

definition natives_table :: "NoobNativeEntry list" where
  "natives_table = [native ''LED_SET'' 2 False hw_led_call, native ''LED_STATUS'' 1 False hw_led_call,
     native ''IR_STATUS'' 0 False native_adapter, native ''IR_SCAN_START'' 0 False native_adapter,
     native ''IR_SCAN_STOP'' 0 False native_adapter, native ''IR_SCAN_READ'' 0 False native_adapter,
     native ''FILE_DOWNLOAD'' 0 True native_adapter, native ''FILE_STATUS'' 0 False native_adapter,
     native ''VM_READ'' 1 True native_adapter, native ''AUDIO_PLAY'' 0 True native_adapter,
     native ''IMAGE_FORMAT'' 0 True hw_display_call, native ''OLED_DRAW'' 0 True hw_display_call,
     native ''OLED_TEXT'' 0 True hw_display_call, native ''DISPLAY_START'' 1 True hw_display_call,
     native ''DISPLAY_STOP'' 0 False hw_display_call, native ''DISPLAY_STATUS'' 0 False hw_display_call]"

datatype Received = Closed | TooLong | Line string

text \<open>The bytes the client sends, up to its closing of the connection.\<close>

fun read_request :: "string \<Rightarrow> string \<Rightarrow> Received" where
  "read_request used [] = (if length used + 1 < REQUEST_BYTES then Closed else TooLong)"
| "read_request used (c # rest) =
     (if \<not> length used + 1 < REQUEST_BYTES then TooLong
      else if c = newline then Line used
      else if c = CHR 0x00 then Closed
      else read_request (used @ [c]) rest)"

definition caps_payload :: string where
  "caps_payload = ''name=Neo native_calls=CALL,CALL_MIXED functions='' @ join_with '','' (map ne_name natives_table)"

definition call_native :: "u32 \<Rightarrow> bool \<Rightarrow> string \<Rightarrow> Neod \<Rightarrow> reply \<times> Neod" where
  "call_native i mixed arguments n = (case scan_s 47 arguments of
       None \<Rightarrow> (respond i ''ERR BAD_REQUEST'' ''missing native name'', n)
     | Some (name, rest) \<Rightarrow>
         (case noob_native_find natives_table name of
            None \<Rightarrow> (respond i ''ERR UNKNOWN_FUNCTION'' name, n)
          | Some entry \<Rightarrow>
              (case noob_native_parse (dropWhile c_isspace rest) mixed of
                 None \<Rightarrow> (respond i ''ERR BAD_ARGUMENTS'' ''wrong numeric/ASCII arguments'', n)
               | Some parsed \<Rightarrow>
                   if length (numbers parsed) \<noteq> ne_numbers entry \<or> (ascii parsed \<noteq> []) \<noteq> ne_text entry
                   then (respond i ''ERR BAD_ARGUMENTS'' ''wrong numeric/ASCII arguments'', n)
                   else ne_call entry i (ne_name entry) parsed n)))"

definition parse_request :: "int \<Rightarrow> string \<Rightarrow> u32 \<times> (string \<times> string) option" where
  "parse_request umax request = (case scan_literal ''NRP/1'' request of
       None \<Rightarrow> (0, None)
     | Some rest \<Rightarrow> (case scan_u umax rest of
           None \<Rightarrow> (0, None)
         | Some (i, rest) \<Rightarrow> (case scan_s 47 rest of
               None \<Rightarrow> (i, None)
             | Some (command, rest) \<Rightarrow> (i, Some (command, dropWhile c_isspace rest)))))"

definition handle_line :: "string \<Rightarrow> Neod \<Rightarrow> reply \<times> Neod" where
  "handle_line request n =
     (let n = drain_scan n
      in case parse_request (ulong_max (os n)) request of
           (i, None) \<Rightarrow> (respond i ''ERR BAD_REQUEST'' ''expected NRP/1 id command'', n)
         | (i, Some (command, arguments)) \<Rightarrow>
             if command = ''PING'' \<and> arguments = [] then (respond i ''OK'' ''PONG'', n)
             else if command = ''CAPS'' \<and> arguments = [] then (respond i ''OK'' caps_payload, n)
             else if command = ''CALL'' \<or> command = ''CALL_MIXED''
             then call_native i (command = ''CALL_MIXED'') arguments n
             else if noob_native_find natives_table command \<noteq> None then hw_command i command arguments n
             else (respond i ''ERR UNKNOWN_COMMAND'' command, n))"

definition handle :: "string \<Rightarrow> Neod \<Rightarrow> reply \<times> Neod" where
  "handle bytes n = (case read_request [] bytes of
       Closed \<Rightarrow> (None, n)
     | TooLong \<Rightarrow> (respond 0 ''ERR BAD_REQUEST'' ''request too long'', n)
     | Line request \<Rightarrow> handle_line request n)"

text \<open>One round of the loop in \<open>main\<close>: children and the scanner are looked after, then a client is served.\<close>

definition serve :: "string option \<Rightarrow> Neod \<Rightarrow> reply \<times> Neod" where
  "serve client n = (let n = reap_file (drain_scan n)
     in case client of None \<Rightarrow> (None, n) | Some bytes \<Rightarrow> handle bytes n)"

end
