(* ===== verification/Neo_Runs.thy ===== *)
theory Neo_Runs
  imports Neo_Natives
begin

text \<open>
  Properties of the Linux daemon: the ring of scancodes as a drop-oldest queue, and the invariant of the
  states the daemon reaches while clients send arbitrary bytes and the operating system changes its
  answers arbitrarily. The invariant says that the buffers are used within their bounds, and that only
  checked names reach a file or a job.
\<close>

section \<open>The ring of scancodes\<close>

definition ir_wf :: "Neod \<Rightarrow> bool" where
  "ir_wf n \<longleftrightarrow> length (ir_queue n) = IR_QUEUE_SIZE \<and> ir_head n < IR_QUEUE_SIZE \<and> ir_count n \<le> IR_QUEUE_SIZE"

definition ir_contents :: "Neod \<Rightarrow> u32 list" where
  "ir_contents n = map (\<lambda>k. ir_queue n ! ((ir_head n + k) mod IR_QUEUE_SIZE)) [0..<ir_count n]"

definition ir_clear :: "Neod \<Rightarrow> Neod" where
  "ir_clear n = n\<lparr>ir_head := 0, ir_count := 0\<rparr>"

lemma ir_contents_length [simp]: "length (ir_contents n) = ir_count n"
  by (simp add: ir_contents_def)

lemma IR_QUEUE_SIZE_pos [simp]: "0 < IR_QUEUE_SIZE"
  by (simp add: IR_QUEUE_SIZE_def)

lemma ring_slot_distinct: "k < c \<Longrightarrow> c < m \<Longrightarrow> (h + k) mod m \<noteq> (h + c) mod (m :: nat)"
proof
  assume a: "k < c" "c < m" "(h + k) mod m = (h + c) mod m"
  then have "(c - k) mod m = 0"
    by (metis add_diff_cancel_left mod_eq_dvd_iff_nat add_le_cancel_left less_imp_le mod_0_imp_dvd dvd_imp_mod_0)
  then show False using a by simp
qed

definition ir_advance :: "Neod \<Rightarrow> Neod" where
  "ir_advance n = n\<lparr>ir_head := (ir_head n + 1) mod IR_QUEUE_SIZE, ir_count := ir_count n - 1\<rparr>"

definition ir_append :: "u32 \<Rightarrow> Neod \<Rightarrow> Neod" where
  "ir_append v n = n\<lparr>ir_queue := (ir_queue n)[(ir_head n + ir_count n) mod IR_QUEUE_SIZE := v], ir_count := ir_count n + 1\<rparr>"

lemma queue_put_steps: "queue_put v n = ir_append v (if ir_count n = IR_QUEUE_SIZE then ir_advance n else n)"
  by (simp add: queue_put_def ir_append_def ir_advance_def Let_def)

lemma queue_take_steps: "queue_take n = (if ir_count n = 0 then None else Some (ir_queue n ! ir_head n, ir_advance n))"
  by (simp add: queue_take_def ir_advance_def)

lemma ring_tail: "0 < ir_count n \<Longrightarrow> ir_contents (ir_advance n) = tl (ir_contents n)"
  by (rule nth_equalityI) (auto simp: ir_contents_def ir_advance_def nth_tl mod_simps)

lemma ring_append:
  assumes "ir_wf n" "ir_count n < IR_QUEUE_SIZE"
  shows "ir_contents (ir_append v n) = ir_contents n @ [v]"
proof -
  have "(ir_head n + ir_count n) mod IR_QUEUE_SIZE \<noteq> (ir_head n + k) mod IR_QUEUE_SIZE" if "k < ir_count n" for k
    using ring_slot_distinct [OF that assms(2), of "ir_head n"] by simp
  then show ?thesis using assms
    by (intro nth_equalityI) (auto simp: ir_contents_def ir_append_def nth_append less_Suc_eq ir_wf_def nth_list_update)
qed

lemma ring_advance_wf: "ir_wf n \<Longrightarrow> ir_wf (ir_advance n)"
  by (auto simp: ir_wf_def ir_advance_def)

lemma ir_advance_count [simp]: "ir_count (ir_advance n) = ir_count n - 1"
  by (simp add: ir_advance_def)

lemma queue_put_wf: "ir_wf n \<Longrightarrow> ir_wf (queue_put v n)"
  by (auto simp: ir_wf_def queue_put_def Let_def)

lemma queue_put_contents:
  assumes "ir_wf n"
  shows "ir_contents (queue_put v n) =
    (if length (ir_contents n) < IR_QUEUE_SIZE then ir_contents n else tl (ir_contents n)) @ [v]"
proof (cases "ir_count n = IR_QUEUE_SIZE")
  case True
  then have "0 < ir_count n" "ir_count (ir_advance n) < IR_QUEUE_SIZE" by simp_all
  then show ?thesis using ring_append [OF ring_advance_wf [OF assms]] ring_tail True by (simp add: queue_put_steps)
next
  case False
  then have lt: "ir_count n < IR_QUEUE_SIZE" using assms by (simp add: ir_wf_def)
  then show ?thesis using ring_append [OF assms lt] by (simp add: queue_put_steps)
qed

lemma queue_take_contents:
  assumes "ir_wf n" "ir_contents n = x # xs"
  shows "\<exists>m. queue_take n = Some (x, m) \<and> ir_wf m \<and> ir_contents m = xs"
proof (intro exI conjI)
  have pos: "0 < ir_count n" using assms(2) ir_contents_length [of n] by simp
  have "x = ir_contents n ! 0" using assms(2) by simp
  also have "\<dots> = ir_queue n ! ir_head n" using pos assms(1) by (simp add: ir_contents_def ir_wf_def)
  finally show "queue_take n = Some (x, ir_advance n)" using pos by (simp add: queue_take_steps)
  show "ir_wf (ir_advance n)" by (rule ring_advance_wf [OF assms(1)])
  show "ir_contents (ir_advance n) = xs" using ring_tail [OF pos] assms(2) by simp
qed

lemma queue_take_empty: "ir_contents n = [] \<Longrightarrow> queue_take n = None"
  by (simp add: queue_take_def ir_contents_def)

lemma ir_clear_ok: "ir_wf n \<Longrightarrow> ir_wf (ir_clear n)" "ir_contents (ir_clear n) = []"
  by (simp_all add: ir_clear_def ir_wf_def ir_contents_def)

lemma ir_wf_bounded: "ir_wf n \<Longrightarrow> ir_count n \<le> IR_QUEUE_SIZE"
  by (simp add: ir_wf_def)

interpretation scancodes: drop_oldest_queue queue_put queue_take ir_clear ir_count ir_contents ir_wf IR_QUEUE_SIZE
  by unfold_locales
    (rule IR_QUEUE_SIZE_pos queue_put_wf queue_put_contents queue_take_empty queue_take_contents ir_clear_ok
      ir_contents_length [symmetric] ir_wf_bounded [folded ir_contents_length]; assumption)+

section \<open>The invariant\<close>

definition safe_job :: "string \<times> string \<Rightarrow> bool" where
  "safe_job job = (case job of (operation, name) \<Rightarrow>
     (operation = ''fetch'' \<longrightarrow> name \<noteq> [] \<and> hd name = CHR ''/'' \<and> strstr name ''..'' = None \<and> CHR 0x5C \<notin> set name) \<and>
     (operation = ''play'' \<longrightarrow> basename_ok name) \<and>
     length name < ASCII_BYTES \<and> (\<forall>c \<in> set name. c_printable c))"

definition safe_vm :: "string \<Rightarrow> bool" where
  "safe_vm name \<longleftrightarrow> basename_ok name \<and> ends_with ''.nvm'' name \<and> length name < ASCII_BYTES"

definition neod_ok :: "Neod \<Rightarrow> bool" where
  "neod_ok n \<longleftrightarrow> ir_wf n \<and> length (scan_line n) < SCAN_LINE_BYTES \<and> (scan_pid n \<longleftrightarrow> scan_output n) \<and>
     length (handles n) = length noob_led_pins \<and>
     list_all safe_job (os_jobs (os n)) \<and> list_all safe_vm (os_opened (os n))"

definition os_clean :: "NeoOs \<Rightarrow> NeoOs \<Rightarrow> bool" where
  "os_clean o1 o2 \<longleftrightarrow> os_jobs o2 = os_jobs o1 \<and> os_opened o2 = os_opened o1"

lemma neod_ok_frame:
  assumes "neod_ok n" "ir_queue m = ir_queue n" "ir_head m = ir_head n" "ir_count m = ir_count n"
    "scan_line m = scan_line n" "scan_pid m = scan_pid n" "scan_output m = scan_output n"
    "length (handles m) = length (handles n)" "os_jobs (os m) = os_jobs (os n)" "os_opened (os m) = os_opened (os n)"
  shows "neod_ok m"
  using assms by (simp add: neod_ok_def ir_wf_def)

named_theorems neo_inv

lemma queue_scancode_frame:
  "scan_line (queue_scancode l n) = scan_line n" "scan_pid (queue_scancode l n) = scan_pid n"
  "scan_output (queue_scancode l n) = scan_output n" "handles (queue_scancode l n) = handles n"
  "os (queue_scancode l n) = os n"
  by (auto simp: queue_scancode_def queue_put_def Let_def split: option.split)

lemma queue_scancode_wf: "ir_wf n \<Longrightarrow> ir_wf (queue_scancode l n)"
  by (auto simp: queue_scancode_def queue_put_wf split: option.split)

lemma ir_wf_scan_line [simp]: "ir_wf (n\<lparr>scan_line := l\<rparr>) = ir_wf n"
  by (simp add: ir_wf_def)

lemma ir_wf_os [simp]: "ir_wf (n\<lparr>os := x\<rparr>) = ir_wf n"
  by (simp add: ir_wf_def)

lemma collect_char_ok [neo_inv]: "neod_ok n \<Longrightarrow> neod_ok (collect_char c n)"
  by (auto simp: neod_ok_def collect_char_def queue_scancode_frame queue_scancode_wf SCAN_LINE_BYTES_def)

lemma collect_scancodes_ok [neo_inv]: "neod_ok n \<Longrightarrow> neod_ok (collect_scancodes bytes n)"
  unfolding collect_scancodes_def by (induction bytes arbitrary: n) (simp_all add: collect_char_ok)

lemma read_pipe_ok [neo_inv]: "neod_ok n \<Longrightarrow> neod_ok (snd (read_pipe k n))"
  by (auto simp: read_pipe_def intro: neod_ok_frame)

lemma drain_reads_ok [neo_inv]: "neod_ok n \<Longrightarrow> neod_ok (drain_reads k n)"
  by (induction k arbitrary: n) (auto simp: Let_def case_prod_unfold neo_inv)

lemma stop_scan_ok [neo_inv]: "neod_ok n \<Longrightarrow> neod_ok (stop_scan n)"
  by (simp add: neod_ok_def stop_scan_def ir_wf_def SCAN_LINE_BYTES_def)

lemma scanner_gone_ok [neo_inv]:
  "neod_ok n \<Longrightarrow> neod_ok (n\<lparr>scan_pid := False, scan_output := False, os := (os n)\<lparr>os_scan_exited := e, os_pipe := p\<rparr>\<rparr>)"
  by (simp add: neod_ok_def ir_wf_def)

lemma drain_scan_ok [neo_inv]: "neod_ok n \<Longrightarrow> neod_ok (drain_scan n)"
  by (auto simp: drain_scan_def Let_def neo_inv)

lemma reap_file_ok [neo_inv]: "neod_ok n \<Longrightarrow> neod_ok (reap_file n)"
  by (auto simp: reap_file_def intro: neod_ok_frame split: option.split)

lemma unhex_pair_printable: "unhex_pair a b = Some c \<Longrightarrow> c_printable c"
  by (auto simp: unhex_pair_def c_printable_def Let_def split: option.splits if_splits)

lemma unhex_loop_printable: "unhex_loop s = Some t \<Longrightarrow> (\<forall>c \<in> set t. c_printable c) \<and> length t = length s div 2"
  by (induction s arbitrary: t rule: unhex_loop.induct) (auto split: option.splits dest: unhex_pair_printable)

lemma unhex_bounds:
  assumes "unhex s k = Some t"
  shows "\<forall>c \<in> set t. c_printable c" "length t < k" "t \<noteq> []"
proof -
  have a: "unhex_loop s = Some t" "s \<noteq> []" "even (length s)" "length s div 2 < k"
    using assms by (auto simp: unhex_def split: if_splits)
  show "\<forall>c \<in> set t. c_printable c" "length t < k" using unhex_loop_printable [OF a(1)] a(4) by auto
  show "t \<noteq> []"
  proof
    assume "t = []"
    then have "length s div 2 = 0" using unhex_loop_printable [OF a(1)] by simp
    then have "length s < 2" by simp
    then show False using a(2,3) by (cases s) auto
  qed
qed

lemma strchr_None: "strchr s c = None \<longleftrightarrow> c \<notin> set s"
proof -
  have "strchr s c = None \<longleftrightarrow> dropWhile (\<lambda>d. d \<noteq> c) s = []"
    by (cases "dropWhile (\<lambda>d. d \<noteq> c) s") (simp_all add: strchr_def del: dropWhile_eq_Nil_conv)
  then show ?thesis by (simp add: dropWhile_eq_Nil_conv) blast
qed

lemma job_name_safe: "job_name f p a = Some name \<Longrightarrow> safe_job (if f then ''fetch'' else ''play'', name)"
  by (auto simp: job_name_def safe_job_def strchr_None unhex_bounds split: if_splits option.splits)

lemma vm_request_safe: "vm_request u a = Some (i, name) \<Longrightarrow> ends_with ''.nvm'' name \<Longrightarrow> safe_vm name"
  by (auto simp: vm_request_def safe_vm_def unhex_bounds split: if_splits option.splits prod.splits)

lemma neod_ok_if: "neod_ok (snd x) \<Longrightarrow> neod_ok (snd y) \<Longrightarrow> neod_ok (snd (if b then x else y))"
  by simp

lemma opened_ok: "neod_ok n \<Longrightarrow> safe_vm name \<Longrightarrow> neod_ok (n\<lparr>os := (os n)\<lparr>os_opened := os_opened (os n) @ [name]\<rparr>\<rparr>)"
  by (simp add: neod_ok_def)

lemma vm_read_ok [neo_inv]:
  assumes "neod_ok n"
  shows "neod_ok (snd (vm_read i a n))"
proof (cases "vm_request (ulong_max (os n)) a")
  case None
  then show ?thesis using assms by (simp add: vm_read_def)
next
  case (Some p)
  obtain k name where p: "p = (k, name)" by (cases p)
  show ?thesis
  proof (cases "length name < 5 \<or> \<not> ends_with ''.nvm'' name")
    case True
    then show ?thesis using assms Some p by (simp add: vm_read_def)
  next
    case False
    then have "safe_vm name" using vm_request_safe Some p by blast
    then have m: "neod_ok (n\<lparr>os := (os n)\<lparr>os_opened := os_opened (os n) @ [name]\<rparr>\<rparr>)" by (rule opened_ok [OF assms])
    have "snd (vm_read i a n) = n\<lparr>os := (os n)\<lparr>os_opened := os_opened (os n) @ [name]\<rparr>\<rparr>"
      using Some p False by (simp add: vm_read_def Let_def split: option.split)
    then show ?thesis using m by simp
  qed
qed

lemma started_ok:
  "neod_ok n \<Longrightarrow> safe_job job \<Longrightarrow> neod_ok (n\<lparr>file_pid := True, file_exit := x, os := (os n)\<lparr>os_file_done := None,
     os_jobs := os_jobs (os n) @ [job]\<rparr>\<rparr>)"
  by (simp add: neod_ok_def ir_wf_def)

lemma file_command_ok [neo_inv]:
  assumes "neod_ok n"
  shows "neod_ok (snd (file_command i c a n))"
proof (cases "job_name (c = ''FILE_DOWNLOAD'') (c = ''AUDIO_PLAY'') a")
  case None
  show ?thesis unfolding file_command_def Let_def None
    by (intro neod_ok_if) (simp_all add: neo_inv assms)
next
  case (Some name)
  have "neod_ok (reap_file n)" by (rule reap_file_ok [OF assms])
  from started_ok [OF this job_name_safe [OF Some]] show ?thesis unfolding file_command_def Let_def Some option.case
    by (intro neod_ok_if) (simp_all add: neo_inv assms)
qed

lemma ir_scan_start_ok [neo_inv]: "neod_ok n \<Longrightarrow> neod_ok (snd (ir_scan_start i n))"
  unfolding ir_scan_start_def by (intro neod_ok_if) (simp_all add: neod_ok_def ir_wf_def)

lemma queue_take_ok: "neod_ok n \<Longrightarrow> queue_take n = Some (v, m) \<Longrightarrow> neod_ok m"
  by (auto simp: queue_take_def neod_ok_def ir_wf_def split: if_splits)

lemma ir_scan_read_ok [neo_inv]:
  assumes "neod_ok n"
  shows "neod_ok (snd (ir_scan_read i n))"
proof -
  let ?m = "collect_scancodes (fst (read_pipe 479 n)) (snd (read_pipe 479 n))"
  have m: "neod_ok ?m" using assms by (simp add: neo_inv)
  have "neod_ok (snd (case queue_take ?m of None \<Rightarrow> (0, ?m) | Some (v, n) \<Rightarrow> (v, n)))"
    using m queue_take_ok [OF m] by (cases "queue_take ?m") auto
  then show ?thesis unfolding ir_scan_read_def Let_def case_prod_unfold
    by (intro neod_ok_if) (simp_all add: assms)
qed

lemma hw_command_ok [neo_inv]: "neod_ok n \<Longrightarrow> neod_ok (snd (hw_command i c a n))"
  unfolding hw_command_def by (intro neod_ok_if) (simp_all add: neo_inv)

section \<open>Native calls keep the invariant\<close>

definition args_ok :: "NoobNativeArguments \<Rightarrow> bool" where
  "args_ok args \<longleftrightarrow> length (ascii args) < ASCII_BYTES \<and> (\<forall>c \<in> set (ascii args). c_printable c)"

lemma parse_quoted_Cons:
  assumes "parse_quoted used (c # s) = Some r"
  obtains "c = CHR 0x22" "r = (used, s)"
  | d rest where "s = d # rest" "d = CHR 0x5C \<or> d = CHR 0x22" "length used + 1 < ASCII_BYTES"
      "parse_quoted (used @ [d]) rest = Some r"
  | "c_printable c" "length used + 1 < ASCII_BYTES" "parse_quoted (used @ [c]) s = Some r"
  using assms by (cases s) (simp_all del: parse_quoted.simps(1) add: parse_quoted.simps(2) [of used c s] split: if_splits)

lemma parse_quoted_ok:
  "parse_quoted used s = Some (a, rest) \<Longrightarrow> length used < ASCII_BYTES \<Longrightarrow> \<forall>c \<in> set used. c_printable c \<Longrightarrow>
   length a < ASCII_BYTES \<and> (\<forall>c \<in> set a. c_printable c)"
proof (induction s arbitrary: used rule: length_induct)
  case (1 s)
  have p: "c_printable CHR 0x5C" "c_printable CHR 0x22" by (simp_all add: c_printable_def)
  obtain c t where s: "s = c # t" using 1(2) by (cases s) auto
  have IH: "parse_quoted used' t' = Some (a, rest) \<Longrightarrow> length used' < ASCII_BYTES \<Longrightarrow> \<forall>c \<in> set used'. c_printable c \<Longrightarrow>
      length a < ASCII_BYTES \<and> (\<forall>c \<in> set a. c_printable c)" if "length t' < length s" for t' used'
    using 1(1) that by blast
  from 1(2) [unfolded s] show ?case
  proof (cases rule: parse_quoted_Cons)
    case 1
    then show ?thesis using \<open>length used < ASCII_BYTES\<close> \<open>\<forall>c \<in> set used. c_printable c\<close> by simp
  next
    case (2 d r)
    show ?thesis by (rule IH [OF _ 2(4)]) (use 2(1-3) s p \<open>\<forall>c \<in> set used. c_printable c\<close> in auto)
  next
    case 3
    show ?thesis by (rule IH [OF _ 3(3)]) (use 3(1,2) s \<open>\<forall>c \<in> set used. c_printable c\<close> in auto)
  qed
qed

lemma noob_native_parse_ok: "noob_native_parse s m = Some args \<Longrightarrow> args_ok args"
  using parse_quoted_ok [of "[]"]
  by (auto simp: noob_native_parse_def args_ok_def ASCII_BYTES_def split: option.splits if_splits)

lemma reap_ok [neo_inv]: "neod_ok n \<Longrightarrow> neod_ok (reap n)"
  by (auto simp: reap_def intro: neod_ok_frame split: option.split)

lemma display_stop_ok [neo_inv]: "neod_ok n \<Longrightarrow> neod_ok (display_stop n)"
  by (auto simp: display_stop_def intro: neod_ok_frame split: option.split)

lemma display_job_safe: "args_ok args \<Longrightarrow> safe_job (display_operation name, ascii args)"
  by (simp add: safe_job_def args_ok_def display_operation_def)

lemma display_launch_ok: "neod_ok n \<Longrightarrow> args_ok args \<Longrightarrow> neod_ok (snd (display_launch i name args n))"
  unfolding display_launch_def
  by (intro neod_ok_if) (simp_all add: neod_ok_def ir_wf_def display_job_safe)

lemma hw_display_call_ok: "neod_ok n \<Longrightarrow> args_ok args \<Longrightarrow> neod_ok (snd (hw_display_call i name args n))"
  unfolding hw_display_call_def Let_def
  by (intro neod_ok_if) (simp_all add: neo_inv display_launch_ok)

lemma claim_ok [neo_inv]: "neod_ok n \<Longrightarrow> neod_ok (snd (claim k n))"
  by (simp add: claim_def neod_ok_def ir_wf_def)

lemma set_lines_ok: "neod_ok n \<Longrightarrow> neod_ok (n\<lparr>os := (os n)\<lparr>os_lines := f\<rparr>\<rparr>)"
  by (simp add: neod_ok_def)

lemma led_access_ok: "neod_ok n \<Longrightarrow> neod_ok (snd (led_access i s pin level k n))"
  unfolding led_access_def Let_def case_prod_unfold
  by (intro neod_ok_if) (simp_all add: claim_ok set_lines_ok)

lemma hw_led_call_ok: "neod_ok n \<Longrightarrow> neod_ok (snd (hw_led_call i name args n))"
  by (auto simp: hw_led_call_def Let_def led_access_ok split: list.split option.split)

lemma native_adapter_ok: "neod_ok n \<Longrightarrow> neod_ok (snd (native_adapter i name args n))"
  by (auto simp: native_adapter_def hw_command_ok split: list.split)

lemma natives_table_ok:
  "list_all (\<lambda>e. ne_call e \<in> {hw_led_call, hw_display_call, native_adapter}) natives_table"
  by (simp add: natives_table_def native_def)

lemma native_entry_ok:
  assumes "noob_native_find natives_table name = Some e" "neod_ok n" "args_ok args"
  shows "neod_ok (snd (ne_call e i m args n))"
proof -
  have "e \<in> set natives_table" using assms(1) unfolding noob_native_find_def by (metis find_Some_iff nth_mem)
  then have "ne_call e \<in> {hw_led_call, hw_display_call, native_adapter}"
    using natives_table_ok unfolding list_all_iff by blast
  then show ?thesis using assms by (auto simp: hw_led_call_ok hw_display_call_ok native_adapter_ok)
qed

lemma call_native_ok:
  assumes "neod_ok n"
  shows "neod_ok (snd (call_native i mixed a n))"
  using assms by (auto simp: call_native_def split: option.split intro: native_entry_ok noob_native_parse_ok)

lemma handle_line_ok: "neod_ok n \<Longrightarrow> neod_ok (snd (handle_line r n))"
proof -
  assume "neod_ok n"
  then have "neod_ok (drain_scan n)" by (rule drain_scan_ok)
  then show ?thesis unfolding handle_line_def Let_def
    by (auto split: prod.split option.split intro: call_native_ok hw_command_ok)
qed

lemma handle_ok: "neod_ok n \<Longrightarrow> neod_ok (snd (handle bytes n))"
  by (simp add: handle_def handle_line_ok split: Received.split)

lemma serve_ok: "neod_ok n \<Longrightarrow> neod_ok (snd (serve client n))"
  by (simp add: serve_def Let_def handle_ok neo_inv split: option.split)

section \<open>Runs of the daemon\<close>

definition neod_boot :: "NeoOs \<Rightarrow> Neod" where
  "neod_boot x = \<lparr>scan_pid = False, scan_output = False, scan_line = [], ir_queue = replicate IR_QUEUE_SIZE 0,
     ir_head = 0, ir_count = 0, file_pid = False, file_exit = -1, worker = False, is_thread = False, last_exit = -1,
     active_image = [], active_interval = 0, handles = replicate (length noob_led_pins) False, os = x\<rparr>"

inductive neod_runs :: "Neod \<Rightarrow> reply list \<Rightarrow> bool" where
  boot: "os_jobs x = [] \<Longrightarrow> os_opened x = [] \<Longrightarrow> neod_runs (snd (hw_led_boot (neod_boot x))) []"
| client: "neod_runs n rs \<Longrightarrow> serve client n = (r, m) \<Longrightarrow> neod_runs m (rs @ [r])"
| system: "neod_runs n rs \<Longrightarrow> os_jobs x = os_jobs (os n) \<Longrightarrow> os_opened x = os_opened (os n) \<Longrightarrow> neod_runs (n\<lparr>os := x\<rparr>) rs"

lemma neod_boot_ok: "os_jobs x = [] \<Longrightarrow> os_opened x = [] \<Longrightarrow> neod_ok (neod_boot x)"
  by (simp add: neod_boot_def neod_ok_def ir_wf_def SCAN_LINE_BYTES_def)

lemma hw_led_boot_ok: "neod_ok n \<Longrightarrow> neod_ok (snd (hw_led_boot n))"
  by (auto simp: hw_led_boot_def claim_ok split: option.split)

lemma neod_runs_ok: "neod_runs n rs \<Longrightarrow> neod_ok n"
proof (induction rule: neod_runs.induct)
  case (boot x)
  then show ?case by (intro hw_led_boot_ok neod_boot_ok)
next
  case (client n rs c r m)
  then show ?case using serve_ok [of n c] by simp
next
  case (system n rs x)
  then show ?case by (simp add: neod_ok_def)
qed

definition sample_os :: NeoOs where
  "sample_os = \<lparr>ulong_max = 4294967295, os_ir_ready = True, os_pipe = [], os_pipe_error = False, os_pipe2 = True,
     os_fork = True, os_scan_exited = False, os_vm = (\<lambda>name. if name = ''a.nvm'' then Some [1, 2, 3] else None),
     os_pread = True, os_log = True, os_file_done = None, os_esp_dir = None, os_worker_done = None,
     os_term = Some 15, os_gpio = True, os_lines = (\<lambda>_. False), os_errno = (5, ''Input/output error''),
     os_opened = [], os_jobs = []\<rparr>"

definition sample_run :: "string \<Rightarrow> Neod" where
  "sample_run request = snd (serve (Some (request @ [newline])) (snd (hw_led_boot (neod_boot sample_os))))"

lemma sample_run_reached: "\<exists>rs. neod_runs (sample_run request) rs"
proof -
  have b: "neod_runs (snd (hw_led_boot (neod_boot sample_os))) []"
    by (rule boot) (simp_all add: sample_os_def)
  show ?thesis unfolding sample_run_def using client [OF b surjective_pairing] by blast
qed

text \<open>C24: Whatever bytes clients send and whatever the operating system answers, the daemon opens only files whose
  name is a plain basename ending in .nvm, fetches only absolute paths without a parent reference or a
  backslash, and plays only plain basenames; every name handed to a job is printable and shorter than
  its buffer.\<close>

theorem neod_safe_names:
  "neod_runs n rs \<Longrightarrow> list_all safe_job (os_jobs (os n)) \<and> list_all safe_vm (os_opened (os n))"
  by (drule neod_runs_ok) (simp add: neod_ok_def)

theorem neod_safe_names_witness:
  "os_jobs (os (sample_run ''NRP/1 8 AUDIO_PLAY 612e6d7033'')) = [(''play'', ''a.mp3'')] \<and>
   list_all safe_job (os_jobs (os (sample_run ''NRP/1 8 AUDIO_PLAY 612e6d7033''))) \<and>
   os_opened (os (sample_run ''NRP/1 8 VM_READ 0 612e6e766d'')) = [''a.nvm''] \<and>
   list_all safe_vm (os_opened (os (sample_run ''NRP/1 8 VM_READ 0 612e6e766d'')))"
proof -
  obtain rs where r: "neod_runs (sample_run ''NRP/1 8 AUDIO_PLAY 612e6d7033'') rs" using sample_run_reached by blast
  obtain rs' where r': "neod_runs (sample_run ''NRP/1 8 VM_READ 0 612e6e766d'') rs'" using sample_run_reached by blast
  have "os_jobs (os (sample_run ''NRP/1 8 AUDIO_PLAY 612e6d7033'')) = [(''play'', ''a.mp3'')]" by code_simp
  moreover have "os_opened (os (sample_run ''NRP/1 8 VM_READ 0 612e6e766d'')) = [''a.nvm'']" by code_simp
  ultimately show ?thesis using neod_safe_names [OF r] neod_safe_names [OF r'] by simp
qed



section \<open>Scancodes from the scanner's text\<close>

lemma hex_digit_value: "hex_value (hex_digit (k mod 16)) = Some (k mod 16)"
  by (simp add: hex_value_digit)

lemma base_value_snoc: "base_value b (s @ [c]) = base_value b s * int b + int (the (hex_value c))"
  by (simp add: base_value_def)

lemma base_value_append: "base_value b (s @ t) = base_value b s * int b ^ length t + base_value b t"
proof (induction t rule: rev_induct)
  case Nil
  show ?case by (simp add: base_value_def)
next
  case (snoc c t)
  have "base_value b (s @ t @ [c]) = base_value b (s @ t) * int b + int (the (hex_value c))"
    using base_value_snoc [of b "s @ t" c] by simp
  then show ?case unfolding snoc base_value_snoc by (simp add: distrib_right)
qed

lemma base_value_digits: "base_value 16 (map (\<lambda>k. hex_digit (n div 16 ^ k mod 16)) (rev [0..<m])) = int (n mod 16 ^ m)"
proof (induction m)
  case 0
  show ?case by (simp add: base_value_def)
next
  case (Suc m)
  let ?d = "\<lambda>k. hex_digit (n div 16 ^ k mod 16)"
  have d: "base_value 16 [?d m] = int (n div 16 ^ m mod 16)"
    by (simp add: base_value_def hex_digit_value)
  have "base_value 16 (map ?d (rev [0..<Suc m])) = base_value 16 ([?d m] @ map ?d (rev [0..<m]))" by simp
  also have "\<dots> = int (n div 16 ^ m mod 16) * 16 ^ m + int (n mod 16 ^ m)"
    unfolding base_value_append d Suc by simp
  also have "\<dots> = int (n mod (16 ^ m * 16))" unfolding mod_mult2_eq by (simp only: of_nat_add of_nat_mult of_nat_power of_nat_numeral mult.commute)
  finally show ?case by (simp only: power_Suc2)
qed

lemma hex32_nat: "hex32 w = map (\<lambda>k. hex_digit (unat w div 16 ^ k mod 16)) (rev [0..<8])"
proof -
  have "uint w div 16 ^ k mod 16 = int (unat w div 16 ^ k mod 16)" for k
    by (simp add: zdiv_int zmod_int)
  then show ?thesis unfolding hex32_def by simp
qed

lemma hex32_value: "base_value 16 (hex32 v) = uint v"
proof -
  have "unat v < 4294967296" using unsigned_less [of v] by simp
  then show ?thesis by (simp add: hex32_nat base_value_digits del: upt_rec_numeral)
qed

lemma hex32_digits: "digits_in 16 (hex32 v) = hex32 v" "hex32 v \<noteq> []"
proof -
  have "case hex_value c of None \<Rightarrow> False | Some v \<Rightarrow> v < 16" if "c \<in> set (hex32 v)" for c
    using that by (auto simp: hex32_nat hex_digit_value)
  then show "digits_in 16 (hex32 v) = hex32 v" by (simp add: digits_in_def takeWhile_eq_all_conv)
  show "hex32 v \<noteq> []" by (simp add: hex32_def)
qed

lemma strtoul0_hex32: "4294967295 \<le> umax \<Longrightarrow> strtoul0 umax (''0x'' @ hex32 v) = Some (uint v)"
proof -
  assume "4294967295 \<le> umax"
  moreover have "uint v \<le> 4294967295" proof -
    have "uint v < 4294967296" using unsigned_less [of v] by simp
    then show ?thesis by simp
  qed
  ultimately show ?thesis using hex32_digits [of v]
    by (simp add: strtoul0_def split_sign_def c_isspace_def hex32_value)
qed

definition scan_report :: "string \<Rightarrow> u32 \<Rightarrow> string" where
  "scan_report prefix v = prefix @ ''scancode = 0x'' @ hex32 v"

lemma queue_scancode_report:
  assumes "CHR ''s'' \<notin> set prefix" "4294967295 \<le> ulong_max (os n)"
  shows "queue_scancode (scan_report prefix v) n = queue_put v n"
proof -
  have "strstr (scan_report prefix v) ''scancode = '' = Some (''scancode = '' @ ''0x'' @ hex32 v)"
    using strstr_skip [of "''scancode = ''" prefix] assms(1) by (simp add: scan_report_def)
  then show ?thesis using strtoul0_hex32 [OF assms(2), of v] by (simp add: queue_scancode_def)
qed

lemma collect_line:
  assumes "\<forall>c \<in> set s. c_printable c" "length (scan_line n) + length s < SCAN_LINE_BYTES"
  shows "collect_scancodes s n = n\<lparr>scan_line := scan_line n @ s\<rparr>"
  using assms
proof (induction s arbitrary: n)
  case Nil
  show ?case by (simp add: collect_scancodes_def)
next
  case (Cons c s)
  have "c \<noteq> newline" "c \<noteq> CHR 0x0D" using Cons.prems(1) by (auto simp: c_printable_def newline_def)
  then have "collect_char c n = n\<lparr>scan_line := scan_line n @ [c]\<rparr>" using Cons.prems by (simp add: collect_char_def)
  then show ?case using Cons.IH [of "n\<lparr>scan_line := scan_line n @ [c]\<rparr>"] Cons.prems
    by (simp add: collect_scancodes_def)
qed

lemma hex32_printable: "c \<in> set (hex32 v) \<Longrightarrow> c_printable c"
proof -
  have "\<forall>k \<in> set [0..<16]. c_printable (hex_digit k)" by code_simp
  then have "c_printable (hex_digit (k mod 16))" for k by simp
  then show "c \<in> set (hex32 v) \<Longrightarrow> c_printable c" by (auto simp: hex32_nat)
qed

definition report_prefix :: "string \<Rightarrow> bool" where
  "report_prefix prefix \<longleftrightarrow> (\<forall>c \<in> set prefix. c_printable c \<and> c \<noteq> CHR ''s'') \<and> length prefix < 200"

lemma queue_put_frame:
  "queue_put v (n\<lparr>scan_line := l\<rparr>) = (queue_put v n)\<lparr>scan_line := l\<rparr>"
  "scan_line (queue_put v n) = scan_line n" "os (queue_put v n) = os n"
  by (simp_all add: queue_put_def Let_def)

lemma collect_report:
  assumes "report_prefix prefix" "4294967295 \<le> ulong_max (os n)" "scan_line n = []"
  shows "collect_scancodes (scan_report prefix v @ [newline]) n = queue_put v n"
proof -
  have p: "\<forall>c \<in> set (scan_report prefix v). c_printable c"
    using assms(1) hex32_printable by (auto simp: scan_report_def report_prefix_def c_printable_def)
  have len: "length (scan_line n) + length (scan_report prefix v) < SCAN_LINE_BYTES"
    using assms(1,3) by (simp add: scan_report_def report_prefix_def SCAN_LINE_BYTES_def hex32_def)
  have s: "CHR ''s'' \<notin> set prefix" using assms(1) by (auto simp: report_prefix_def)
  have "collect_scancodes (scan_report prefix v @ [newline]) n =
      collect_char newline (collect_scancodes (scan_report prefix v) n)" by (simp add: collect_scancodes_def)
  also have "\<dots> = collect_char newline (n\<lparr>scan_line := scan_report prefix v\<rparr>)"
    unfolding collect_line [OF p len] by (simp add: assms(3))
  also have "\<dots> = (queue_put v n)\<lparr>scan_line := []\<rparr>"
    using queue_scancode_report [OF s, of "n\<lparr>scan_line := scan_report prefix v\<rparr>" v] assms(2)
    by (simp add: collect_char_def queue_put_frame(1))
  also have "\<dots> = queue_put v n" using queue_put_frame(2) [of v n] assms(3) by simp
  finally show ?thesis .
qed

definition scanner_text :: "string \<Rightarrow> u32 list \<Rightarrow> string" where
  "scanner_text prefix vs = concat (map (\<lambda>v. scan_report prefix v @ [newline]) vs)"

lemma collect_reports:
  assumes "report_prefix prefix" "4294967295 \<le> ulong_max (os n)" "scan_line n = []"
  shows "collect_scancodes (scanner_text prefix vs) n = scancodes.push_all vs n"
  using assms(2,3)
proof (induction vs arbitrary: n)
  case Nil
  show ?case by (simp add: collect_scancodes_def scanner_text_def)
next
  case (Cons v vs)
  have "collect_scancodes (scanner_text prefix (v # vs)) n =
      collect_scancodes (scanner_text prefix vs) (collect_scancodes (scan_report prefix v @ [newline]) n)"
    by (simp add: collect_scancodes_def scanner_text_def)
  also have "\<dots> = scancodes.push_all vs (queue_put v n)"
    unfolding collect_report [OF assms(1) Cons.prems] by (rule Cons.IH) (simp_all add: queue_put_frame Cons.prems)
  finally show ?case by simp
qed

lemma push_all_frame: "os (scancodes.push_all vs n) = os n"
  by (induction vs arbitrary: n) (simp_all add: queue_put_frame)

lemma ir_advance_os: "queue_take n = Some (v, m) \<Longrightarrow> os m = os n"
  by (auto simp: queue_take_def split: if_splits)

text \<open>Reading the scanner returns the scancodes it printed one by one, oldest first: with the queue and the lines
  still in the pipe holding more than sixteen codes, the oldest are dropped; the answer carries the
  oldest code that is kept, in decimal and in hexadecimal, and the number left behind it.\<close>

theorem scan_read_oldest:
  assumes "ir_wf n" "scan_pid n" "scan_output n" "\<not> os_pipe_error (os n)" "scan_line n = []"
    "4294967295 \<le> ulong_max (os n)" "report_prefix prefix" "os_pipe (os n) = scanner_text prefix vs"
    "length (scanner_text prefix vs) \<le> 479"
    "drop (ir_count n + length vs - IR_QUEUE_SIZE) (ir_contents n @ vs) = v # rest"
  shows "\<exists>m. ir_scan_read i n = (respond i ''OK'' (''value='' @ show_i32 v @ '' scancode=0x'' @ hex32 v @ '' queued='' @
      show_nat (length rest)), m) \<and> ir_contents m = rest \<and> ir_wf m \<and> os_pipe (os m) = []"
proof -
  let ?n = "n\<lparr>os := (os n)\<lparr>os_pipe := []\<rparr>\<rparr>"
  let ?q = "scancodes.push_all vs ?n"
  have wf: "ir_wf ?n" using assms(1) by simp
  have read: "read_pipe 479 n = (scanner_text prefix vs, ?n)" using assms(4,8,9) by (simp add: read_pipe_def)
  have q: "collect_scancodes (scanner_text prefix vs) ?n = ?q"
    by (rule collect_reports [OF assms(7)]) (simp_all add: assms(5,6))
  have "ir_contents ?n = ir_contents n" by (simp add: ir_contents_def)
  then have "ir_contents ?q = v # rest" using scancodes.push_all_contents [OF wf, of vs] assms(10) by simp
  then obtain m where m: "queue_take ?q = Some (v, m)" "ir_wf m" "ir_contents m = rest"
    using queue_take_contents [OF scancodes.push_all_wf [OF wf]] by blast
  moreover have "os_pipe (os m) = []" using ir_advance_os [OF m(1)] by (simp add: push_all_frame)
  moreover have "ir_count m = length rest" using m(3) ir_contents_length [of m] by simp
  ultimately show ?thesis using assms(2-4) read q by (simp add: ir_scan_read_def)
qed

definition scanning :: Neod where
  "scanning = (neod_boot (sample_os\<lparr>os_pipe := scanner_text ''7.1: event type EV_MSC(0x04): '' [0x7f, 3]\<rparr>))\<lparr>scan_pid := True,
     scan_output := True\<rparr>"

theorem scan_read_oldest_witness:
  "\<exists>m. ir_scan_read 4 scanning = (respond 4 ''OK'' (''value=127 scancode=0x0000007f queued=1''), m) \<and> ir_contents m = [3]"
proof -
  have w: "ir_wf scanning" by (simp add: scanning_def neod_boot_def ir_wf_def)
  have l: "length (scanner_text ''7.1: event type EV_MSC(0x04): '' [0x7f, 3]) \<le> 479" by code_simp
  have c: "drop (ir_count scanning + length [0x7f, 3 :: u32] - IR_QUEUE_SIZE) (ir_contents scanning @ [0x7f, 3]) = 0x7f # [3]"
    by (simp add: scanning_def neod_boot_def ir_contents_def IR_QUEUE_SIZE_def)
  have p: "report_prefix ''7.1: event type EV_MSC(0x04): ''" by code_simp
  have s: "show_i32 (0x7f :: u32) = ''127''" "hex32 0x7f = ''0000007f''" "show_nat (length [3 :: u32]) = ''1''" by code_simp+
  obtain m where "ir_scan_read 4 scanning = (respond 4 ''OK'' (''value='' @ show_i32 (0x7f :: u32) @ '' scancode=0x'' @
      hex32 0x7f @ '' queued='' @ show_nat (length [3 :: u32])), m)" "ir_contents m = [3]"
    using scan_read_oldest [OF w _ _ _ _ _ p _ l c, of 4] by (auto simp: scanning_def neod_boot_def sample_os_def)
  then show ?thesis unfolding s by simp
qed

section \<open>The LEDs\<close>

definition led_args :: "int \<Rightarrow> bool option \<Rightarrow> NoobNativeArguments" where
  "led_args pin level = \<lparr>numbers = word_of_int pin # (case level of None \<Rightarrow> [] | Some b \<Rightarrow> [of_bool b]), ascii = []\<rparr>"

lemma led_pins_small: "index_of pin = Some k \<Longrightarrow> k < length noob_led_pins \<and> 0 \<le> pin \<and> pin < 32"
proof -
  assume "index_of pin = Some k"
  then have k: "k < length noob_led_pins" "pin = fst (noob_led_pins ! k)"
    by (auto simp: index_of_def find_Some_iff)
  have "\<forall>p \<in> set noob_led_pins. 0 \<le> fst p \<and> fst p < 32" by code_simp
  then show ?thesis using k nth_mem by blast
qed

text \<open>Setting an LED whose GPIO lines can be used drives exactly its line to the level asked for, claiming it first
  when it is not yet claimed, and a later status request reports that level.\<close>

theorem led_set_status:
  assumes "length (handles n) = length noob_led_pins" "index_of pin = Some k" "os_gpio (os n)"
  shows "\<exists>m. hw_led_call i ''LED_SET'' (led_args pin (Some level)) n =
        (respond i ''OK'' (''pin='' @ show_int pin @ '' claimed=1 value='' @ show_bool level), m) \<and>
      hw_led_call j ''LED_STATUS'' (led_args pin None) m =
        (respond j ''OK'' (''pin='' @ show_int pin @ '' claimed=1 value='' @ show_bool level), m) \<and>
      os_lines (os m) = (os_lines (os n))(snd (noob_led_pins ! k) := level)"
proof -
  have k: "k < length (handles n)" "0 \<le> pin" "pin < 32" using led_pins_small [OF assms(2)] assms(1) by simp_all
  then have s: "sint (word_of_int pin :: int32) = pin"
    by (simp add: sint_word_of_int_32)
  show ?thesis using assms(2,3) k s
    by (cases level) (auto simp: hw_led_call_def led_args_def led_access_def claim_def Let_def)
qed

theorem led_set_status_witness:
  "\<exists>m. hw_led_call 3 ''LED_SET'' (led_args 23 (Some True)) (neod_boot sample_os) =
        (respond 3 ''OK'' ''pin=23 claimed=1 value=1'', m) \<and> os_lines (os m) 66"
proof -
  have k: "index_of 23 = Some 8" by code_simp
  have s: "show_int 23 = ''23''" "show_bool True = ''1''" "snd (noob_led_pins ! 8) = 66" by code_simp+
  show ?thesis using led_set_status [OF _ k, of "neod_boot sample_os" 3 True 4]
    by (auto simp: neod_boot_def sample_os_def s)
qed

end
