(* ===== verification/Neo_Bridge.thy ===== *)
theory Neo_Bridge
  imports C_Text Program_Store
begin

text \<open>
  The bridge of the board to the Linux daemon, \<open>noobs/iris/hw_neo_bridge.cpp\<close>: one request per TCP connection,
  the native functions that forward to the daemon, the display service that keeps asking until the
  daemon answers, and the download of a program in chunks into the program store. The network stack
  is a parameter: how connecting ends, and which pieces of a reply arrive.
\<close>

section \<open>One request\<close>

datatype Connection = NoSocket | NoNonblock | Unreachable | Connected

record 'w NeoLink =
  nl_connect :: "'w \<Rightarrow> Connection \<times> 'w"
  nl_exchange :: "string \<Rightarrow> 'w \<Rightarrow> string list option \<times> 'w"

definition REPLY_CAPACITY :: nat where "REPLY_CAPACITY = 512"
definition NEO_REQUEST_BYTES :: nat where "NEO_REQUEST_BYTES = 512"

fun recv_loop :: "string \<Rightarrow> string list \<Rightarrow> string" where
  "recv_loop used [] = used"
| "recv_loop used (piece # pieces) =
     (if \<not> length used + 1 < REPLY_CAPACITY \<or> piece = [] then used
      else let used = used @ take (REPLY_CAPACITY - length used - 1) piece
           in if CHR 0x0A \<in> set used then used else recv_loop used pieces)"

definition cut_line :: "string \<Rightarrow> string" where
  "cut_line s = takeWhile (\<lambda>c. c \<noteq> CHR 0x0D \<and> c \<noteq> CHR 0x0A) s"

definition reply_status :: "string \<Rightarrow> NativeResult" where
  "reply_status payload =
     (if starts_with ''OK'' payload \<and> (length payload = 2 \<or> payload ! 2 = CHR '' '')
      then result True (case strstr payload ''value='' of None \<Rightarrow> 0
             | Some field \<Rightarrow> word_of_int (fst (strtol10 INT64_MIN INT64_MAX (drop 6 field))))
           (drop 3 payload)
      else if starts_with ''ERR '' payload then native_fail (''Neo: '' @ drop 4 payload)
      else native_fail ''Neo bridge: malformed reply status'')"

definition parse_reply :: "string \<Rightarrow> NativeResult" where
  "parse_reply reply =
     (if CHR 0x0A \<notin> set reply then native_fail ''Neo bridge: missing complete reply''
      else let text = c_str reply
           in if \<not> starts_with ''NRP/1 1 '' text then native_fail ''Neo bridge: unexpected reply ID or version''
              else case strchr text CHR '' '' of None \<Rightarrow> native_fail ''Neo bridge: malformed reply''
                | Some p \<Rightarrow> (case strchr (tl p) CHR '' '' of None \<Rightarrow> native_fail ''Neo bridge: malformed reply''
                    | Some p \<Rightarrow> reply_status (cut_line (tl p))))"

definition neo_request_line :: "string \<Rightarrow> string" where
  "neo_request_line command = ''NRP/1 1 '' @ c_str command @ [CHR 0x0A]"

definition neoRequest :: "'w NeoLink \<Rightarrow> string \<Rightarrow> 'w \<Rightarrow> NativeResult \<times> 'w" where
  "neoRequest link command w = (case nl_connect link w of
       (NoSocket, w) \<Rightarrow> (native_fail ''Neo bridge: socket failed'', w)
     | (NoNonblock, w) \<Rightarrow> (native_fail ''Neo bridge: nonblocking socket failed'', w)
     | (Unreachable, w) \<Rightarrow> (native_fail ''Neo bridge: Neo command service unavailable'', w)
     | (Connected, w) \<Rightarrow>
         (let request = neo_request_line command
          in if \<not> length request < NEO_REQUEST_BYTES then (native_fail ''Neo bridge: request send failed'', w)
             else case nl_exchange link request w of
                 (None, w) \<Rightarrow> (native_fail ''Neo bridge: request send failed'', w)
               | (Some pieces, w) \<Rightarrow> (parse_reply (recv_loop [] pieces), w)))"

section \<open>Text of commands\<close>

text \<open>\<open>String::replace\<close>: every occurrence, from the left, without overlap. The number says how many
  characters of an occurrence are still to be skipped.\<close>

fun replace_from :: "string \<Rightarrow> string \<Rightarrow> nat \<Rightarrow> string \<Rightarrow> string" where
  "replace_from old new k [] = []"
| "replace_from old new k (c # s) =
     (if k > 0 then replace_from old new (k - 1) s
      else if starts_with old (c # s) then new @ replace_from old new (length old - 1) s
      else c # replace_from old new 0 s)"

definition replace_text :: "string \<Rightarrow> string \<Rightarrow> string \<Rightarrow> string" where
  "replace_text old new s = replace_from old new 0 s"

definition hexText :: "string \<Rightarrow> string" where
  "hexText s = concat (map (\<lambda>c. hex_byte (of_char c)) s)"

definition nativeTextCall :: "string \<Rightarrow> string \<Rightarrow> string" where
  "nativeTextCall name text =
     (let escaped = replace_text [CHR 0x22] [CHR 0x5C, CHR 0x22] (replace_text [CHR 0x5C] [CHR 0x5C, CHR 0x5C] text)
      in ''CALL_MIXED '' @ name @ '' '' @ [CHR 0x22] @ escaped @ [CHR 0x22])"

definition empty_text_call :: "string \<Rightarrow> string" where
  "empty_text_call name = ''CALL_MIXED '' @ name @ '' '' @ [CHR 0x22, CHR 0x22]"

section \<open>The display service\<close>

record 's neo_world = "'s store_world" +
  displayVm :: bool
  displayWanted :: bool
  displayVmOwned :: bool
  displayStopPending :: bool
  displayImage :: string
  displayInterval :: u32
  displayNextAttempt :: u32

definition IRIS_NEO_DISPLAY_RETRY_MS :: u32 where "IRIS_NEO_DISPLAY_RETRY_MS = 10000"

definition display_command :: "('s, 'a) neo_world_scheme \<Rightarrow> string" where
  "display_command w = (if displayWanted w
     then replace_text ''DISPLAY_START '' (''DISPLAY_START '' @ show_nat (unat (displayInterval w)) @ '' '')
            (nativeTextCall ''DISPLAY_START'' (displayImage w))
     else empty_text_call ''DISPLAY_STOP'')"

definition release_display :: "('s, 'a) neo_world_scheme \<Rightarrow> ('s, 'a) neo_world_scheme" where
  "release_display w = (if displayVmOwned w \<and> displayVm w \<and> \<not> vm_active (vm w)
     then w\<lparr>displayWanted := False, displayVmOwned := False, displayStopPending := True, displayNextAttempt := 0\<rparr>
     else w)"

definition display_tick :: "(('s, 'a) neo_world_scheme) NeoLink \<Rightarrow> (('s, 'a) neo_world_scheme) BackgroundService" where
  "display_tick link reg w =
     (let w = release_display w
      in if \<not> displayWanted w \<and> \<not> displayStopPending w then (None, w)
         else let (now, w) = millis w
              in if not_due now (displayNextAttempt w) then (None, w)
                 else let (now, w) = millis w;
                          w = w\<lparr>displayNextAttempt := now + IRIS_NEO_DISPLAY_RETRY_MS\<rparr>;
                          (r, w) = neoRequest link (display_command w) w;
                          w = (if r_ok r \<and> displayStopPending w then w\<lparr>displayStopPending := False\<rparr> else w)
                      in if r_ok r then (None, w)
                         else (Some (''NRP/1 0 EVENT NEO_DISPLAY_PENDING detail='' @ r_detail r), w))"

definition displayService :: "('s, 'a) neo_world_scheme \<Rightarrow> ('s, 'a) neo_world_scheme" where
  "displayService w = w\<lparr>displayVm := True\<rparr>"

definition image_char :: "char \<Rightarrow> bool" where
  "image_char c \<longleftrightarrow> isAlphaNumeric c \<or> c = CHR ''_'' \<or> c = CHR ''-'' \<or> c = CHR ''.''"

definition displayStart :: "('s, 'a) neo_world_scheme NativeMixedFunction" where
  "displayStart args name w =
     (if length args \<noteq> 1 \<or> sint (hd args) < 1000 \<or> sint (hd args) > 60000 \<or> name = [] \<or> length name > 100
      then (native_fail ''usage: interval_ms(1000..60000), GIF basename'', w)
      else if \<exists>c \<in> set name. \<not> image_char c then (native_fail ''invalid image basename'', w)
      else if strstr name ''..'' \<noteq> None then (native_fail ''invalid image basename'', w)
      else (result True 1 ''display requested; retry while Neo boots'',
            w\<lparr>displayImage := name, displayInterval := hd args, displayWanted := True, displayStopPending := False,
              displayVmOwned := (displayVm w \<and> vm_active (vm w)), displayNextAttempt := 0\<rparr>))"

definition displayStop :: "('s, 'a) neo_world_scheme NativeFunction" where
  "displayStop args w =
     (if args \<noteq> [] then (native_fail ''usage: no arguments'', w)
      else (result True 0 ''display stop requested'',
            w\<lparr>displayWanted := False, displayVmOwned := False, displayStopPending := True, displayNextAttempt := 0\<rparr>))"

section \<open>Forwarded functions\<close>

definition forward :: "'w NeoLink \<Rightarrow> string \<Rightarrow> 'w NativeFunction" where
  "forward link command args w = (if args \<noteq> [] then (native_fail ''usage: no arguments'', w)
     else neoRequest link command w)"

definition forward_text :: "'w NeoLink \<Rightarrow> string \<Rightarrow> string \<Rightarrow> nat \<Rightarrow> 'w NativeMixedFunction" where
  "forward_text link name usage bound args text w =
     (if args \<noteq> [] \<or> text = [] \<or> length text \<ge> bound then (native_fail usage, w)
      else neoRequest link (nativeTextCall name text) w)"

text \<open>The ASCII argument of a native call never exceeds 255 bytes; functions without a bound of their own
  accept all of them.\<close>

definition ledSet :: "'w NeoLink \<Rightarrow> 'w NativeFunction" where
  "ledSet link args w = (if length args \<noteq> 2 \<or> (args ! 1 \<noteq> 0 \<and> args ! 1 \<noteq> 1)
     then (native_fail ''usage: physical_pin 0|1'', w)
     else neoRequest link (''CALL LED_SET '' @ show_i32 (args ! 0) @ '' '' @ show_i32 (args ! 1)) w)"

definition ledStatus :: "'w NeoLink \<Rightarrow> 'w NativeFunction" where
  "ledStatus link args w = (if length args \<noteq> 1 then (native_fail ''usage: physical_pin'', w)
     else neoRequest link (''CALL LED_STATUS '' @ show_i32 (args ! 0)) w)"

definition text_only :: "'w NeoLink \<Rightarrow> string \<Rightarrow> string \<Rightarrow> 'w NativeMixedFunction" where
  "text_only link name usage args text w = (if args \<noteq> [] \<or> text = [] then (native_fail usage, w)
     else neoRequest link (nativeTextCall name text) w)"

definition imageFormat :: "'w NeoLink \<Rightarrow> 'w NativeMixedFunction" where
  "imageFormat link = text_only link ''IMAGE_FORMAT'' ''usage: image basename''"

definition oledDraw :: "'w NeoLink \<Rightarrow> 'w NativeMixedFunction" where
  "oledDraw link = text_only link ''OLED_DRAW'' ''usage: GIF basename''"

definition oledText :: "'w NeoLink \<Rightarrow> 'w NativeMixedFunction" where
  "oledText link = text_only link ''OLED_TEXT'' ''usage: text''"

definition displayStatus :: "'w NeoLink \<Rightarrow> 'w NativeFunction" where
  "displayStatus link = forward link (empty_text_call ''DISPLAY_STATUS'')"

definition neo_caps :: "'w NeoLink \<Rightarrow> 'w NativeFunction" where
  "neo_caps link = forward link ''CAPS''"

definition irStatus :: "'w NeoLink \<Rightarrow> 'w NativeFunction" where
  "irStatus link = forward link (empty_text_call ''IR_STATUS'')"

definition irScanStart :: "'w NeoLink \<Rightarrow> 'w NativeFunction" where
  "irScanStart link = forward link (empty_text_call ''IR_SCAN_START'')"

definition irScanStop :: "'w NeoLink \<Rightarrow> 'w NativeFunction" where
  "irScanStop link = forward link (empty_text_call ''IR_SCAN_STOP'')"

definition irScanRead :: "'w NeoLink \<Rightarrow> 'w NativeFunction" where
  "irScanRead link = forward link (empty_text_call ''IR_SCAN_READ'')"

definition fileStatus :: "'w NeoLink \<Rightarrow> 'w NativeFunction" where
  "fileStatus link = forward link (empty_text_call ''FILE_STATUS'')"

definition fileDownload :: "'w NeoLink \<Rightarrow> 'w NativeMixedFunction" where
  "fileDownload link = forward_text link ''FILE_DOWNLOAD'' ''usage: NEO_FILE_DOWNLOAD 0 numeric args, SD path'' 192"

definition audioPlay :: "'w NeoLink \<Rightarrow> 'w NativeMixedFunction" where
  "audioPlay link = forward_text link ''AUDIO_PLAY'' ''usage: AUDIO_PLAY 0 numeric args, audio basename'' 192"

section \<open>Download of a program\<close>

definition field_of :: "string \<Rightarrow> string \<Rightarrow> string" where
  "field_of detail key = (case strstr detail key of None \<Rightarrow> []
     | Some s \<Rightarrow> takeWhile (\<lambda>c. c \<noteq> CHR '' '') (drop (length key) s))"

fun unhex_bytes :: "string \<Rightarrow> u8 list option" where
  "unhex_bytes (a # b # rest) = (case (hex_value a, hex_value b) of
       (Some x, Some y) \<Rightarrow> map_option (Cons (of_nat (x * 16 + y))) (unhex_bytes rest)
     | _ \<Rightarrow> None)"
| "unhex_bytes _ = Some []"

lemma unhex_bytes_length: "unhex_bytes s = Some bs \<Longrightarrow> length bs = length s div 2"
  by (induction s arbitrary: bs rule: unhex_bytes.induct) (auto split: option.splits)

datatype Chunk = BadChunk string | More "u8 list" | Last "u8 list"

definition vm_chunk :: "string \<Rightarrow> nat \<Rightarrow> nat \<Rightarrow> nat \<times> Chunk" where
  "vm_chunk detail offset expected =
     (let size = toInt (field_of detail ''size=''); data = field_of detail ''data=''; eof = field_of detail ''eof=''
      in if size \<le> 0 \<or> size > int PROGRAM_BYTES \<or> (expected \<noteq> 0 \<and> expected \<noteq> nat size) \<or> odd (length data) \<or>
            length data > 256 \<or> offset + length data div 2 > nat size
         then (expected, BadChunk ''Neo bridge: invalid VM chunk'')
         else (nat size, case unhex_bytes data of None \<Rightarrow> BadChunk ''invalid VM hex''
             | Some bytes \<Rightarrow>
                 if eof = ''1''
                 then (if offset + length bytes \<noteq> nat size then BadChunk ''incomplete VM download''
                       else Last bytes)
                 else if data = [] \<or> eof \<noteq> ''0'' then BadChunk ''invalid VM EOF''
                 else More bytes))"

lemma vm_chunk_more: "vm_chunk detail offset expected = (e, More bytes) \<Longrightarrow> bytes \<noteq> []"
proof -
  assume a: "vm_chunk detail offset expected = (e, More bytes)"
  let ?d = "field_of detail ''data=''"
  have "unhex_bytes ?d = Some bytes" "?d \<noteq> []" "even (length ?d)"
    using a by (auto simp: vm_chunk_def Let_def split: if_splits option.splits)
  then show ?thesis using unhex_bytes_length by (cases ?d) fastforce+
qed

function download_loop :: "(('s, 'a) neo_world_scheme) NeoLink \<Rightarrow> string \<Rightarrow> u8 list \<Rightarrow> nat \<Rightarrow> ('s, 'a) neo_world_scheme
    \<Rightarrow> (NativeResult + u8 list) \<times> ('s, 'a) neo_world_scheme" where
  "download_loop link encoded bytes expected w =
     (if \<not> length bytes < PROGRAM_BYTES then (Inl (native_fail ''incomplete VM download''), w)
      else case neoRequest link (''VM_READ '' @ show_nat (length bytes) @ '' '' @ encoded) w of (r, w) \<Rightarrow>
        if \<not> r_ok r then (Inl r, w)
        else case vm_chunk (r_detail r) (length bytes) expected of
            (e, BadChunk m) \<Rightarrow> (Inl (native_fail m), w)
          | (e, Last more_bytes) \<Rightarrow> (Inr (bytes @ more_bytes), w)
          | (e, More more_bytes) \<Rightarrow> download_loop link encoded (bytes @ more_bytes) e w)"
  by pat_completeness auto
termination
  by (relation "measure (\<lambda>(_, _, bytes, _, _). PROGRAM_BYTES - length bytes)")
    (auto dest!: vm_chunk_more [OF sym] intro!: diff_less_mono2)

declare download_loop.simps [simp del]

lemma download_step:
  assumes "length bytes < PROGRAM_BYTES"
    "neoRequest link (''VM_READ '' @ show_nat (length bytes) @ '' '' @ encoded) w = (r, w1)" "r_ok r"
  shows "vm_chunk (r_detail r) (length bytes) e = (e1, More ms) \<Longrightarrow>
      download_loop link encoded bytes e w = download_loop link encoded (bytes @ ms) e1 w1"
    "vm_chunk (r_detail r) (length bytes) e = (e1, Last ms) \<Longrightarrow>
      download_loop link encoded bytes e w = (Inr (bytes @ ms), w1)"
  by (simp_all only: download_loop.simps [of link encoded bytes e w] assms simp_thms if_True if_False prod.case Chunk.case)

definition vmDownload :: "'s FS \<Rightarrow> (('s, 'a) neo_world_scheme) NeoLink \<Rightarrow> (('s, 'a) neo_world_scheme) NativeMixedFunction" where
  "vmDownload fs link args filename w =
     (if length args > 1 \<or> (args \<noteq> [] \<and> hd args \<noteq> 0 \<and> hd args \<noteq> 1) \<or> length filename < 5 \<or> length filename > 80 \<or>
         \<not> ends_with ''.nvm'' filename
      then (native_fail ''usage: VM_DOWNLOAD [replace=0|1] ASCII basename.nvm'', w)
      else case download_loop link (hexText filename) [] 0 w of
          (Inl r, w) \<Rightarrow> (r, w)
        | (Inr bytes, w) \<Rightarrow> storeBytes fs (take (length filename - 4) filename) (Some bytes)
                              (args \<noteq> [] \<and> hd args = 1) w)"

end
