(* ===== verification/Neo_Link.thy ===== *)
theory Neo_Link
  imports Neo_Runs Neo_Bridge Store_Runs
begin

text \<open>
  The board and the Linux daemon together. The connection between them is an interface: what a transport
  of lines promises is a locale, the client's lemmas are proved in it, and it is interpreted for a
  connection to the modelled daemon that delivers the reply in pieces of any fixed size. The results are
  about both programs: a text argument reaches the daemon's native function unchanged, and a download
  stores exactly the bytes of the daemon's file.
\<close>

section \<open>The transport of lines\<close>

lemma recv_pieces:
  assumes "used @ concat pieces = line @ [CHR 0x0A]" "[] \<notin> set pieces" "CHR 0x0A \<notin> set line"
    "length line + 1 < REPLY_CAPACITY"
  shows "recv_loop used pieces = line @ [CHR 0x0A]"
  using assms(1,2)
proof (induction pieces arbitrary: used)
  case Nil
  then show ?case by simp
next
  case (Cons p ps)
  have p: "p \<noteq> []" using Cons.prems(2) by auto
  have "length (used @ p @ concat ps) = length line + 1" using Cons.prems(1) by simp
  then have len: "length used + length p + length (concat ps) = length line + 1" by simp
  moreover have "0 < length p" using p by simp
  ultimately have room: "length used + 1 < REPLY_CAPACITY" "length p \<le> REPLY_CAPACITY - length used - 1"
    using assms(4) by linarith+
  show ?case
  proof (cases "CHR 0x0A \<in> set (used @ p)")
    case False
    then show ?thesis using Cons room p by simp
  next
    case True
    have "concat ps = []"
    proof (rule ccontr)
      assume "concat ps \<noteq> []"
      then obtain r x where r: "concat ps = r @ [x]" by (metis append_butlast_last_id)
      then have "(used @ p) @ r = line" using Cons.prems(1) by simp
      then show False using True assms(3) by auto
    qed
    then have "used @ p = line @ [CHR 0x0A]" using Cons.prems(1) by (simp del: concat_eq_Nil_conv)
    then show ?thesis using True room p by auto
  qed
qed

definition plain :: "string \<Rightarrow> bool" where
  "plain s \<longleftrightarrow> (\<forall>c \<in> set s. c \<noteq> CHR 0x00 \<and> c \<noteq> CHR 0x0A \<and> c \<noteq> CHR 0x0D)"

lemma plain_simps [simp]: "plain []" "plain (c # s) \<longleftrightarrow> c \<noteq> CHR 0x00 \<and> c \<noteq> CHR 0x0A \<and> c \<noteq> CHR 0x0D \<and> plain s"
  "plain (s @ t) \<longleftrightarrow> plain s \<and> plain t"
  by (auto simp: plain_def)

lemma plain_c_str: "plain s \<Longrightarrow> c_str (s @ t) = s @ c_str t" "plain s \<Longrightarrow> c_str s = s"
  by (auto simp: plain_def c_str_def takeWhile_append)

lemma plain_cut: "plain s \<Longrightarrow> cut_line (s @ CHR 0x0A # t) = s"
  by (induction s) (auto simp: cut_line_def)

lemma printable_plain: "\<forall>c \<in> set s. c_printable c \<Longrightarrow> plain s"
  by (auto simp: plain_def c_printable_def)

definition reply_line :: "string \<Rightarrow> string" where
  "reply_line body = ''NRP/1 1 '' @ body @ [CHR 0x0A]"

lemma parse_reply_line:
  assumes "plain body"
  shows "parse_reply (reply_line body) = reply_status body"
proof -
  have c: "c_str (reply_line body) = ''NRP/1 1 '' @ body @ [CHR 0x0A]"
    using plain_c_str(1) [of "''NRP/1 1 '' @ body" "[CHR 0x0A]"] assms by (simp add: reply_line_def c_str_def)
  have m: "CHR 0x0A \<in> set (reply_line body)" by (simp add: reply_line_def)
  show ?thesis using plain_cut [OF assms, of "[]"] m unfolding parse_reply_def c Let_def
    by (simp add: strchr_def)
qed

locale line_transport =
  fixes link :: "'w NeoLink" and answer :: "string \<Rightarrow> 'w \<Rightarrow> string option \<times> 'w"
  assumes connects: "nl_connect link w = (Connected, w)"
    and delivers: "answer request w = (Some s, w') \<Longrightarrow>
      \<exists>pieces. nl_exchange link request w = (Some pieces, w') \<and> [] \<notin> set pieces \<and> concat pieces = s"
begin

lemma request_answered:
  assumes "answer (neo_request_line command) w = (Some (reply_line body), w')" "plain body"
    "length (neo_request_line command) < NEO_REQUEST_BYTES" "length body < 500"
  shows "neoRequest link command w = (reply_status body, w')"
proof -
  obtain pieces where p: "nl_exchange link (neo_request_line command) w = (Some pieces, w')" "[] \<notin> set pieces"
    "concat pieces = reply_line body" using delivers [OF assms(1)] by blast
  have n: "CHR 0x0A \<notin> set body" using assms(2) by (auto simp: plain_def)
  have "recv_loop [] pieces = (''NRP/1 1 '' @ body) @ [CHR 0x0A]"
    by (rule recv_pieces) (use p(2,3) assms(4) n in \<open>simp_all add: reply_line_def REPLY_CAPACITY_def\<close>)
  then have "recv_loop [] pieces = reply_line body" by (simp add: reply_line_def)
  then show ?thesis using assms(3) p(1) connects [of w] parse_reply_line [OF assms(2)]
    by (simp add: neoRequest_def Let_def)
qed

end

section \<open>The daemon behind the transport\<close>

record 's paired_world = "'s neo_world" +
  neod :: Neod

definition daemon_answer :: "string \<Rightarrow> ('s, 'a) paired_world_scheme \<Rightarrow> string option \<times> ('s, 'a) paired_world_scheme" where
  "daemon_answer request w = (let (r, n) = serve (Some request) (neod w) in (r, w\<lparr>neod := n\<rparr>))"

fun cut_pieces :: "nat \<Rightarrow> nat \<Rightarrow> string \<Rightarrow> string list" where
  "cut_pieces width 0 s = (if s = [] then [] else [s])"
| "cut_pieces width (Suc k) s = (if s = [] then [] else take (Suc width) s # cut_pieces width k (drop (Suc width) s))"

lemma cut_pieces_whole: "concat (cut_pieces width k s) = s" "[] \<notin> set (cut_pieces width k s)"
  by (induction k arbitrary: s) auto

definition wire :: "nat \<Rightarrow> (('s, 'a) paired_world_scheme) NeoLink" where
  "wire width = \<lparr>nl_connect = \<lambda>w. (Connected, w),
     nl_exchange = \<lambda>request w. (case daemon_answer request w of
         (r, w) \<Rightarrow> (Some (case r of None \<Rightarrow> [] | Some s \<Rightarrow> cut_pieces width (length s) s), w))\<rparr>"

interpretation wired: line_transport "wire width" daemon_answer for width
  by unfold_locales (auto simp: wire_def cut_pieces_whole)

lemma respond_line:
  assumes "length status + length payload < 700"
  shows "respond 1 status payload = Some (reply_line (status @ (if payload \<noteq> [] then '' '' @ payload else [])))"
proof -
  have "show_nat (unat (1 :: u32)) = ''1''" by code_simp
  then show ?thesis using assms by (simp add: respond_def reply_line_def newline_def REPLY_BYTES_def)
qed

lemma read_request_line:
  assumes "CHR 0x0A \<notin> set line" "CHR 0x00 \<notin> set line" "length used + length line + 1 < REQUEST_BYTES"
  shows "read_request used (line @ [CHR 0x0A]) = Line (used @ line)"
  using assms by (induction line arbitrary: used) (auto simp: newline_def)

lemma parse_request_word:
  assumes "blank_free word" "word \<noteq> []" "length word \<le> 47" "args = [] \<or> \<not> c_isspace (hd args)" "1 \<le> umax"
  shows "parse_request umax (''NRP/1 1 '' @ word @ '' '' @ args) = (1, Some (word, args))"
    "parse_request umax (''NRP/1 1 '' @ word) = (1, Some (word, []))"
proof -
  have one: "show_nat 1 = ''1''" by code_simp
  have u: "scan_u umax (CHR '' '' # CHR ''1'' # CHR '' '' # t) = Some (1, CHR '' '' # t)" for t
    using scan_u_number(2) [of 1 umax "CHR '' '' # t"] assms(5) unfolding one by (simp add: isDigit_def)
  have lit: "scan_literal ''NRP/1'' (''NRP/1 1 '' @ t) = Some (CHR '' '' # CHR ''1'' # CHR '' '' # t)" for t
    by (simp add: scan_literal_def starts_with_def)
  have d: "dropWhile c_isspace args = args" using assms(4) by (cases args) auto
  show "parse_request umax (''NRP/1 1 '' @ word @ '' '' @ args) = (1, Some (word, args))"
    using scan_s_word(2) [OF assms(1-3), of "CHR '' '' # args"] unfolding parse_request_def lit u by (simp add: u d)
  show "parse_request umax (''NRP/1 1 '' @ word) = (1, Some (word, []))"
    using scan_s_word(2) [OF assms(1-3), of "[]"] unfolding parse_request_def lit u by (simp add: u)
qed

section \<open>A text reaches the daemon\<close>

lemma hexText_length: "length (hexText s) = 2 * length s"
  by (induction s) (simp_all add: hexText_def hex_byte_def)

lemma unhex_pair_byte:
  assumes "c_printable c"
  shows "unhex_pair (hex_digit (of_char c div 16)) (hex_digit (of_char c mod 16)) = Some c"
proof -
  have c: "32 \<le> (of_char c :: nat)" "(of_char c :: nat) \<le> 126" using assms by (auto simp: c_printable_def)
  have "(of_char c :: nat) div 16 < 16" using c(2) by linarith
  then have h: "hex_value (hex_digit (of_char c div 16)) = Some (of_char c div 16)" by (rule hex_value_digit)
  have "(of_char c :: nat) div 16 * 16 + of_char c mod 16 = of_char c" by simp
  then show ?thesis using c h hex_digit_value [of "of_char c"] by (simp add: unhex_pair_def Let_def)
qed

lemma unhex_loop_hexText: "\<forall>c \<in> set s. c_printable c \<Longrightarrow> unhex_loop (hexText s) = Some s"
  by (induction s) (simp_all add: hexText_def hex_byte_def unhex_pair_byte)

lemma unhex_hexText: "\<forall>c \<in> set s. c_printable c \<Longrightarrow> s \<noteq> [] \<Longrightarrow> length s < k \<Longrightarrow> unhex (hexText s) k = Some s"
  using hexText_length [of s] unhex_loop_hexText [of s] by (cases "hexText s") (auto simp: unhex_def)

lemma of_char_byte: "(of_char c :: nat) < 256"
  by (metis mod_less_divisor of_char_mod_256 zero_less_numeral)

lemma hexText_blank_free: "blank_free (hexText s)" "plain (hexText s)"
proof -
  have "\<not> c_isspace (hex_digit (of_char c div 16)) \<and> hex_digit (of_char c div 16) \<noteq> CHR 0x00" for c
    by (rule hex_digit_clean) (use of_char_byte [of c] in linarith)
  moreover have "\<not> c_isspace (hex_digit (of_char c mod 16)) \<and> hex_digit (of_char c mod 16) \<noteq> CHR 0x00" for c
    by (rule hex_digit_clean) simp
  ultimately have *: "\<forall>d \<in> set (hexText s). \<not> c_isspace d \<and> d \<noteq> CHR 0x00"
    by (auto simp: hexText_def hex_byte_def)
  then show "blank_free (hexText s)" by (simp add: blank_free_def)
  show "plain (hexText s)" unfolding plain_def
  proof
    fix d assume "d \<in> set (hexText s)"
    then have "\<not> c_isspace d" "d \<noteq> CHR 0x00" using * by auto
    then show "d \<noteq> CHR 0x00 \<and> d \<noteq> CHR 0x0A \<and> d \<noteq> CHR 0x0D" by (auto simp: c_isspace_def)
  qed
qed

definition escaped_text :: "string \<Rightarrow> string" where
  "escaped_text s = concat (map (\<lambda>c. if c = CHR 0x22 \<or> c = CHR 0x5C then [CHR 0x5C, c] else [c]) s)"

lemma replace_single: "replace_from [a] r 0 s = concat (map (\<lambda>c. if c = a then r else [c]) s)"
  by (induction s) auto

lemma replace_twice:
  "replace_text [CHR 0x22] [CHR 0x5C, CHR 0x22] (replace_text [CHR 0x5C] [CHR 0x5C, CHR 0x5C] s) = escaped_text s"
  unfolding replace_text_def replace_single escaped_text_def by (induction s) auto

lemma escape_length: "length (escaped_text s) \<le> 2 * length s"
  by (induction s) (auto simp: escaped_text_def)

lemma escape_printable: "\<forall>c \<in> set s. c_printable c \<Longrightarrow> \<forall>c \<in> set (escaped_text s). c_printable c"
  by (auto simp: escaped_text_def c_printable_def)

lemma parse_quoted_escape:
  "\<forall>c \<in> set s. c_printable c \<Longrightarrow> length used + length s < ASCII_BYTES \<Longrightarrow>
   parse_quoted used (escaped_text s @ CHR 0x22 # rest) = Some (used @ s, rest)"
proof (induction s arbitrary: used)
  case Nil
  show ?case by (simp add: escaped_text_def)
next
  case (Cons c s)
  have e: "escaped_text (c # s) = (if c = CHR 0x22 \<or> c = CHR 0x5C then [CHR 0x5C, c] else [c]) @ escaped_text s"
    by (simp add: escaped_text_def)
  show ?case unfolding e using Cons by auto
qed

lemma noob_native_parse_text:
  assumes "\<forall>c \<in> set s. c_printable c" "length s < ASCII_BYTES"
  shows "noob_native_parse (CHR 0x22 # escaped_text s @ [CHR 0x22]) True = Some \<lparr>numbers = [], ascii = s\<rparr>"
proof -
  have "parse_numbers [] (CHR 0x22 # escaped_text s @ [CHR 0x22]) = Some ([], CHR 0x22 # escaped_text s @ [CHR 0x22])"
    by (subst parse_numbers.simps) simp
  then show ?thesis using parse_quoted_escape [OF assms(1), of "[]" "[]"] assms(2)
    by (simp add: noob_native_parse_def skip_spaces_def)
qed

lemma table_lookup:
  assumes "e \<in> set natives_table"
  shows "noob_native_find natives_table (ne_name e) = Some e"
proof -
  have d: "distinct (map ne_name natives_table)" by (simp add: natives_table_def native_def)
  obtain k where k: "k < length natives_table" "e = natives_table ! k" using assms by (metis in_set_conv_nth)
  have "ne_name (natives_table ! j) \<noteq> ne_name e" if "j < k" for j
    using d k that by (metis length_map less_trans nth_eq_iff_index_eq nth_map order.irrefl)
  then show ?thesis unfolding noob_native_find_def find_Some_iff using k by blast
qed

lemma table_names:
  assumes "e \<in> set natives_table"
  shows "blank_free (ne_name e)" "ne_name e \<noteq> []" "length (ne_name e) \<le> 47" "plain (ne_name e)"
proof -
  have "list_all (\<lambda>e. blank_free (ne_name e) \<and> ne_name e \<noteq> [] \<and> length (ne_name e) \<le> 47 \<and> plain (ne_name e)) natives_table"
    by (simp add: natives_table_def native_def c_isspace_def)
  then show "blank_free (ne_name e)" "ne_name e \<noteq> []" "length (ne_name e) \<le> 47" "plain (ne_name e)"
    using assms by (simp_all add: list_all_iff)
qed

lemma handle_bridge_line:
  assumes "plain command" "length command + 9 < REQUEST_BYTES"
  shows "handle (neo_request_line command) n = handle_line (''NRP/1 1 '' @ command) n"
proof -
  have "read_request [] ((''NRP/1 1 '' @ command) @ [CHR 0x0A]) = Line ([] @ ''NRP/1 1 '' @ command)"
    by (rule read_request_line) (use assms in \<open>auto simp: plain_def\<close>)
  then show ?thesis using plain_c_str(2) [OF assms(1)] by (simp add: handle_def neo_request_line_def)
qed

lemma call_line:
  assumes "args = [] \<or> \<not> c_isspace (hd args)" "1 \<le> ulong_max (os (drain_scan n))"
  shows "handle_line (''NRP/1 1 '' @ ''CALL_MIXED'' @ '' '' @ args) n = call_native 1 True args (drain_scan n)"
  using parse_request_word(1) [of "''CALL_MIXED''", OF _ _ _ assms] unfolding handle_line_def Let_def
  by (simp add: c_isspace_def)

lemma call_text:
  assumes "e \<in> set natives_table" "ne_numbers e = 0" "ne_text e" "\<forall>c \<in> set s. c_printable c" "length s < ASCII_BYTES" "s \<noteq> []"
  shows "call_native 1 True (ne_name e @ '' '' @ CHR 0x22 # escaped_text s @ [CHR 0x22]) n =
    ne_call e 1 (ne_name e) \<lparr>numbers = [], ascii = s\<rparr> n"
proof -
  have sc: "scan_s 47 (ne_name e @ CHR '' '' # CHR 0x22 # escaped_text s @ [CHR 0x22]) =
      Some (ne_name e, CHR '' '' # CHR 0x22 # escaped_text s @ [CHR 0x22])"
    by (rule scan_s_word(1) [OF table_names(1-3) [OF assms(1)]]) simp
  have d: "\<not> c_isspace CHR 0x22" by (simp add: c_isspace_def)
  show ?thesis using table_lookup [OF assms(1)] noob_native_parse_text [OF assms(4,5)] assms(2,3,6)
    by (simp add: call_native_def sc d)
qed

lemma os_frames:
  "ulong_max (os (drain_scan n)) = ulong_max (os n)" "os_vm (os (drain_scan n)) = os_vm (os n)"
  "os_pread (os (drain_scan n)) = os_pread (os n)"
  "ulong_max (os (reap_file n)) = ulong_max (os n)" "os_vm (os (reap_file n)) = os_vm (os n)"
  "os_pread (os (reap_file n)) = os_pread (os n)"
proof -
  define keep where "keep m \<longleftrightarrow> ulong_max (os m) = ulong_max (os n) \<and> os_vm (os m) = os_vm (os n) \<and>
      os_pread (os m) = os_pread (os n)" for m :: Neod
  have cc: "os (collect_scancodes bytes m) = os m" for bytes m
  proof -
    have "os (collect_char c m) = os m" for c m by (simp add: collect_char_def queue_scancode_frame)
    then show ?thesis unfolding collect_scancodes_def by (induction bytes arbitrary: m) simp_all
  qed
  have rd: "keep m \<Longrightarrow> keep (drain_reads k m)" for k m
  proof (induction k arbitrary: m)
    case (Suc k)
    have "keep (snd (read_pipe 512 m))" using Suc.prems by (simp add: read_pipe_def keep_def)
    moreover from this have "keep (collect_scancodes b (snd (read_pipe 512 m)))" for b by (simp add: keep_def cc)
    ultimately show ?case by (simp add: Let_def case_prod_unfold Suc.IH)
  qed simp
  have "keep n" by (simp add: keep_def)
  then have "keep (drain_scan n)" using rd [of n 8] by (auto simp: drain_scan_def Let_def keep_def)
  moreover have "keep (reap_file n)" by (auto simp: reap_file_def keep_def split: option.split)
  ultimately show "ulong_max (os (drain_scan n)) = ulong_max (os n)" "os_vm (os (drain_scan n)) = os_vm (os n)"
    "os_pread (os (drain_scan n)) = os_pread (os n)"
    "ulong_max (os (reap_file n)) = ulong_max (os n)" "os_vm (os (reap_file n)) = os_vm (os n)"
    "os_pread (os (reap_file n)) = os_pread (os n)"
    by (simp_all add: keep_def)
qed

text \<open>C27: A text argument crosses from the board to the daemon unchanged: for every function of the daemon's table
  that takes a text and no numbers, and every printable text shorter than the daemon's buffer, the call
  the board writes runs exactly that function with exactly that text, quotes and backslashes included.\<close>

theorem text_call_delivered:
  assumes "e \<in> set natives_table" "ne_numbers e = 0" "ne_text e"
    and "\<forall>c \<in> set s. c_printable c" "length s < ASCII_BYTES" "s \<noteq> []" "1 \<le> ulong_max (os n)"
  shows "handle (neo_request_line (nativeTextCall (ne_name e) s)) n =
    ne_call e 1 (ne_name e) \<lparr>numbers = [], ascii = s\<rparr> (drain_scan n)"
proof -
  let ?args = "ne_name e @ '' '' @ CHR 0x22 # escaped_text s @ [CHR 0x22]"
  have cmd: "nativeTextCall (ne_name e) s = ''CALL_MIXED'' @ '' '' @ ?args"
    by (simp add: nativeTextCall_def replace_twice)
  have pl: "plain (nativeTextCall (ne_name e) s)"
    unfolding cmd using table_names(4) [OF assms(1)] printable_plain [OF escape_printable [OF assms(4)]] by simp
  have len: "length (nativeTextCall (ne_name e) s) + 9 < REQUEST_BYTES"
    unfolding cmd using table_names(3) [OF assms(1)] escape_length [of s] assms(5)
    by (simp add: REQUEST_BYTES_def ASCII_BYTES_def)
  have h: "?args = [] \<or> \<not> c_isspace (hd ?args)" using table_names(1,2) [OF assms(1)] by (cases "ne_name e") auto
  have "handle (neo_request_line (nativeTextCall (ne_name e) s)) n = call_native 1 True ?args (drain_scan n)"
    unfolding handle_bridge_line [OF pl len] unfolding cmd by (rule call_line [OF h]) (simp add: os_frames assms(7))
  then show ?thesis using call_text [OF assms(1-6)] by simp
qed

theorem text_call_delivered_witness:
  "os_jobs (os (snd (handle (neo_request_line (nativeTextCall ''OLED_TEXT'' [CHR ''h'', CHR 0x22, CHR 0x5C])) (neod_boot sample_os)))) =
    [(''text'', [CHR ''h'', CHR 0x22, CHR 0x5C])]"
proof -
  let ?e = "native ''OLED_TEXT'' 0 True hw_display_call"
  have e: "?e \<in> set natives_table" by (simp add: natives_table_def)
  have "handle (neo_request_line (nativeTextCall (ne_name ?e) [CHR ''h'', CHR 0x22, CHR 0x5C])) (neod_boot sample_os) =
      ne_call ?e 1 (ne_name ?e) \<lparr>numbers = [], ascii = [CHR ''h'', CHR 0x22, CHR 0x5C]\<rparr> (drain_scan (neod_boot sample_os))"
    by (rule text_call_delivered [OF e])
      (simp_all add: native_def c_printable_def ASCII_BYTES_def neod_boot_def sample_os_def)
  then show ?thesis
    by (simp add: native_def hw_display_call_def reap_def drain_scan_def neod_boot_def sample_os_def display_launch_def
        display_log_path_def display_operation_def Let_def)
qed

section \<open>A program reaches the board\<close>

definition offers :: "Neod \<Rightarrow> string \<Rightarrow> u8 list \<Rightarrow> bool" where
  "offers n name content \<longleftrightarrow> os_vm (os n) name = Some content \<and> os_pread (os n) \<and> 4294967295 \<le> ulong_max (os n)"

definition program_file :: "string \<Rightarrow> bool" where
  "program_file name \<longleftrightarrow> basename_ok name \<and> 5 \<le> length name \<and> length name \<le> 80 \<and> ends_with ''.nvm'' name"

lemma basename_printable: "basename_ok name \<Longrightarrow> \<forall>c \<in> set name. c_printable c"
  by (auto simp: basename_ok_def name_char_def c_printable_def isDigit_def)

lemma show_nat_length: "n < 10 ^ k \<Longrightarrow> 0 < k \<Longrightarrow> length (show_nat n) \<le> k"
proof (induction k arbitrary: n)
  case (Suc k)
  show ?case
  proof (cases "n < 10")
    case True
    then show ?thesis by (simp add: show_nat.simps [of n])
  next
    case False
    then have k: "0 < k" using Suc.prems by (cases k) auto
    have "n div 10 < 10 ^ k" using Suc.prems(1) by (simp add: less_mult_imp_div_less)
    then have "length (show_nat (n div 10)) \<le> k" using k by (rule Suc.IH)
    then show ?thesis using False by (simp add: show_nat.simps [of n])
  qed
qed simp

lemma show_nat_plain: "plain (show_nat n)"
  using show_nat_digits [of _ n] by (fastforce simp: plain_def isDigit_def)

lemma vm_request_line:
  assumes "program_file name" "off \<le> 1024" "4294967295 \<le> umax"
  shows "vm_request umax (show_nat off @ '' '' @ hexText name) = Some (of_nat off, name)"
proof -
  have nm: "name \<noteq> []" "length name < ASCII_BYTES" "basename_ok name" "length (hexText name) \<le> 383" "hexText name \<noteq> []"
    using assms(1) hexText_length [of name] by (auto simp: program_file_def ASCII_BYTES_def simp flip: length_0_conv)
  have u: "scan_u umax (show_nat off @ CHR '' '' # hexText name) = Some (of_nat off, CHR '' '' # hexText name)"
    by (rule scan_u_number(1)) (use assms(2,3) in \<open>simp_all add: isDigit_def\<close>)
  have s: "scan_s 383 (CHR '' '' # hexText name) = Some (hexText name, [])"
    using scan_s_word(2) [OF hexText_blank_free(1) nm(5,4), of "[]"] by simp
  show ?thesis using unhex_hexText [OF basename_printable [OF nm(3)] nm(1,2)] nm(3) by (simp add: vm_request_def u s)
qed

lemma vm_read_file:
  assumes "program_file name" "offers n name content" "1 \<le> length content" "length content \<le> 1024" "off \<le> length content"
  shows "\<exists>m. vm_read 1 (show_nat off @ '' '' @ hexText name) n = (respond 1 ''OK'' (vm_payload content off), m) \<and>
    offers m name content"
proof -
  have o: "unat (of_nat off :: u32) = off"
    using assms(4,5) by (simp add: unat_of_nat)
  have r: "vm_request (ulong_max (os n)) (show_nat off @ '' '' @ hexText name) = Some (of_nat off, name)"
    by (rule vm_request_line [OF assms(1)]) (use assms(2,4,5) in \<open>auto simp: offers_def\<close>)
  show ?thesis using assms r o by (auto simp: vm_read_def Let_def offers_def program_file_def)
qed

lemma handle_vm_read:
  assumes "program_file name" "offers n name content" "1 \<le> length content" "length content \<le> 1024" "off \<le> length content"
  shows "\<exists>m. serve (Some (neo_request_line (''VM_READ '' @ show_nat off @ '' '' @ hexText name))) n =
      (respond 1 ''OK'' (vm_payload content off), m) \<and> offers m name content"
proof -
  let ?args = "show_nat off @ '' '' @ hexText name"
  let ?n = "drain_scan (reap_file (drain_scan n))"
  have off: "offers ?n name content" "offers (reap_file ?n) name content"
    using assms(2) by (simp_all add: offers_def os_frames)
  have sn: "plain (show_nat off)" "length (show_nat off) \<le> 11"
  proof -
    show "plain (show_nat off)" by (rule show_nat_plain)
    show "length (show_nat off) \<le> 11" using show_nat_length [of off 4] assms(4,5) by simp
  qed
  have pl: "plain (''VM_READ '' @ ?args)" using sn hexText_blank_free(2) by simp
  have len: "length (''VM_READ '' @ ?args) + 9 < REQUEST_BYTES"
    using sn(2) hexText_length [of name] assms(1) by (simp add: REQUEST_BYTES_def program_file_def)
  have hd: "?args = [] \<or> \<not> c_isspace (hd ?args)"
    using show_nat_blank_free [of off] show_nat_nonempty [of off] by (cases "show_nat off") auto
  have pr: "parse_request (ulong_max (os ?n)) (''NRP/1 1 '' @ ''VM_READ'' @ '' '' @ ?args) = (1, Some (''VM_READ'', ?args))"
    by (rule parse_request_word(1) [OF _ _ _ hd]) (use off(1) in \<open>simp_all add: offers_def c_isspace_def\<close>)
  have tb: "noob_native_find natives_table ''VM_READ'' \<noteq> None"
    using table_lookup [of "native ''VM_READ'' 1 True native_adapter"] by (simp add: natives_table_def native_def)
  have "serve (Some (neo_request_line (''VM_READ '' @ ?args))) n = hw_command 1 ''VM_READ'' ?args ?n"
    using handle_bridge_line [OF pl len] pr tb by (simp add: serve_def Let_def handle_line_def)
  also have "\<dots> = vm_read 1 ?args (reap_file ?n)" by (simp add: hw_command_def file_command_def Let_def)
  finally show ?thesis using vm_read_file [OF assms(1) off(2) assms(3-5)] by simp
qed

lemma strstr_number [simp]:
  "strstr (show_nat n @ t) ''size='' = strstr t ''size=''" "strstr (show_nat n @ t) ''eof='' = strstr t ''eof=''"
  "strstr (show_nat n @ t) ''data='' = strstr t ''data=''"
proof -
  have d: "CHR ''s'' \<notin> set (show_nat n)" "CHR ''e'' \<notin> set (show_nat n)" "CHR ''d'' \<notin> set (show_nat n)"
    using show_nat_digits [of "CHR ''s''" n] show_nat_digits [of "CHR ''e''" n] show_nat_digits [of "CHR ''d''" n]
    by (auto simp: isDigit_def)
  show "strstr (show_nat n @ t) ''size='' = strstr t ''size=''" using d(1) by (intro strstr_skip) simp_all
  show "strstr (show_nat n @ t) ''eof='' = strstr t ''eof=''" using d(2) by (intro strstr_skip) simp_all
  show "strstr (show_nat n @ t) ''data='' = strstr t ''data=''" using d(3) by (intro strstr_skip) simp_all
qed

lemma field_number [simp]: "takeWhile (\<lambda>c. c \<noteq> CHR '' '') (show_nat n @ CHR '' '' # t) = show_nat n"
proof -
  have "c \<noteq> CHR '' ''" if "c \<in> set (show_nat n)" for c using show_nat_digits [OF that] by (auto simp: isDigit_def)
  then show ?thesis by (simp add: takeWhile_append)
qed

definition hex_bytes :: "u8 list \<Rightarrow> string" where
  "hex_bytes bs = concat (map (\<lambda>b. hex_byte (unat b)) bs)"

lemma unat_byte: "unat (b :: u8) < 256"
  using unsigned_less [of b] by simp

lemma hex_bytes_blank_free: "c \<in> set (hex_bytes bs) \<Longrightarrow> c \<noteq> CHR '' ''" "plain (hex_bytes bs)"
proof -
  have "\<not> c_isspace (hex_digit (unat b div 16)) \<and> hex_digit (unat b div 16) \<noteq> CHR 0x00" for b :: u8
    by (rule hex_digit_clean) (use unat_byte [of b] in linarith)
  moreover have "\<not> c_isspace (hex_digit (unat b mod 16)) \<and> hex_digit (unat b mod 16) \<noteq> CHR 0x00" for b :: u8
    by (rule hex_digit_clean) simp
  ultimately have *: "\<forall>d \<in> set (hex_bytes bs). \<not> c_isspace d \<and> d \<noteq> CHR 0x00"
    by (auto simp: hex_bytes_def hex_byte_def)
  then show "c \<in> set (hex_bytes bs) \<Longrightarrow> c \<noteq> CHR '' ''" by (auto simp: c_isspace_def)
  show "plain (hex_bytes bs)" unfolding plain_def
  proof
    fix d assume "d \<in> set (hex_bytes bs)"
    then have "\<not> c_isspace d" "d \<noteq> CHR 0x00" using * by auto
    then show "d \<noteq> CHR 0x00 \<and> d \<noteq> CHR 0x0A \<and> d \<noteq> CHR 0x0D" by (auto simp: c_isspace_def)
  qed
qed

lemma unhex_hex_bytes: "unhex_bytes (hex_bytes bs) = Some bs"
proof (induction bs)
  case Nil
  show ?case by (simp add: hex_bytes_def)
next
  case (Cons b bs)
  have h: "hex_value (hex_digit (unat b div 16)) = Some (unat b div 16)"
    by (rule hex_value_digit) (use unat_byte [of b] in linarith)
  have "of_nat (unat b div 16 * 16 + unat b mod 16) = b" by simp
  then show ?case using Cons h hex_digit_value [of "unat b"] by (simp add: hex_bytes_def hex_byte_def)
qed

lemma hex_bytes_length: "length (hex_bytes bs) = 2 * length bs"
  by (induction bs) (simp_all add: hex_bytes_def hex_byte_def)

lemma payload_fields:
  fixes content off
  defines "part \<equiv> take VM_CHUNK (drop off content)"
  shows "field_of (vm_payload content off) ''size='' = show_nat (length content)"
    "field_of (vm_payload content off) ''eof='' = show_bool (off + length part = length content)"
    "field_of (vm_payload content off) ''data='' = hex_bytes part"
proof -
  have p: "vm_payload content off = ''value='' @ show_nat (length part) @ '' size='' @ show_nat (length content) @ '' eof='' @
      show_bool (off + length part = length content) @ '' data='' @ hex_bytes part"
    unfolding vm_payload_def Let_def part_def hex_bytes_def by simp
  have t: "takeWhile (\<lambda>c. c \<noteq> CHR '' '') (hex_bytes part) = hex_bytes part"
    using hex_bytes_blank_free(1) by (intro takeWhile_eq_all_conv [THEN iffD2]) blast
  show "field_of (vm_payload content off) ''size='' = show_nat (length content)"
    "field_of (vm_payload content off) ''eof='' = show_bool (off + length part = length content)"
    "field_of (vm_payload content off) ''data='' = hex_bytes part"
    unfolding p field_of_def by (simp_all add: show_bool_def t)
qed

lemma vm_chunk_payload:
  assumes "off < length content" "length content \<le> PROGRAM_BYTES" "expected = 0 \<or> expected = length content"
  shows "vm_chunk (vm_payload content off) off expected = (length content,
    if off + VM_CHUNK < length content then More (take VM_CHUNK (drop off content)) else Last (drop off content))"
proof -
  have i: "toInt (show_nat (length content)) = int (length content)"
    using assms(2) by (intro toInt_show_nat) (simp add: INT32_MAX_def vm_sizes)
  have c: "0 < VM_CHUNK" "VM_CHUNK = 128" by (simp_all add: VM_CHUNK_def)
  have ne: "hex_bytes (take VM_CHUNK (drop off content)) \<noteq> []"
    using hex_bytes_length [of "take VM_CHUNK (drop off content)"] assms(1) c by (auto simp flip: length_0_conv)
  show ?thesis using assms i ne unhex_hex_bytes hex_bytes_length
    by (auto simp: vm_chunk_def payload_fields Let_def c show_bool_def)
qed

lemma payload_short:
  assumes "length content \<le> PROGRAM_BYTES"
  shows "length (vm_payload content off) < 400" "plain (vm_payload content off)" "vm_payload content off \<noteq> []"
proof -
  let ?part = "take VM_CHUNK (drop off content)"
  have p: "vm_payload content off = ''value='' @ show_nat (length ?part) @ '' size='' @ show_nat (length content) @ '' eof='' @
      show_bool (off + length ?part = length content) @ '' data='' @ hex_bytes ?part"
    unfolding vm_payload_def Let_def hex_bytes_def by simp
  have "length (show_nat (length ?part)) \<le> 4" "length (show_nat (length content)) \<le> 4"
    using assms by (intro show_nat_length; simp add: VM_CHUNK_def vm_sizes)+
  moreover have "length (hex_bytes ?part) \<le> 256" using hex_bytes_length [of ?part] by (simp add: VM_CHUNK_def)
  moreover have "length (show_bool b) = 1" for b by (simp add: show_bool_def)
  ultimately show "length (vm_payload content off) < 400" unfolding p by (simp only: length_append) simp
  show "plain (vm_payload content off)" unfolding p using hex_bytes_blank_free(2) show_nat_plain by (simp add: show_bool_def)
  show "vm_payload content off \<noteq> []" unfolding p by simp
qed

context line_transport
begin

lemma request_ok:
  assumes "answer (neo_request_line command) w = (respond 1 ''OK'' payload, w')" "plain payload" "payload \<noteq> []"
    "length (neo_request_line command) < NEO_REQUEST_BYTES" "length payload < 490"
  shows "\<exists>v. neoRequest link command w = (result True v payload, w')"
proof -
  have r: "respond 1 ''OK'' payload = Some (reply_line (''OK '' @ payload))"
    using respond_line [of "''OK''" payload] assms(3,5) by simp
  have "neoRequest link command w = (reply_status (''OK '' @ payload), w')"
    by (rule request_answered) (use assms r in simp_all)
  then show ?thesis by (auto simp: reply_status_def)
qed

end

lemma command_length:
  assumes "program_file name" "off \<le> 1024"
  shows "length (neo_request_line (''VM_READ '' @ show_nat off @ '' '' @ hexText name)) < NEO_REQUEST_BYTES"
proof -
  have "length (show_nat off) \<le> 4" using assms(2) by (intro show_nat_length) simp_all
  moreover have "c_str s = s" if "plain s" for s using that by (rule plain_c_str(2))
  ultimately show ?thesis using assms(1) hexText_length [of name] hexText_blank_free(2) show_nat_plain
    by (simp add: neo_request_line_def NEO_REQUEST_BYTES_def program_file_def)
qed

lemma download_all:
  fixes w :: "('s, 'a) paired_world_scheme"
  assumes link: "line_transport link daemon_answer" and name: "program_file name"
    and content: "length content \<le> PROGRAM_BYTES"
  shows "offers (neod w) name content \<Longrightarrow> k < length content \<Longrightarrow> expected = 0 \<or> expected = length content \<Longrightarrow>
    \<exists>n. download_loop link (hexText name) (take k content) expected w = (Inr content, w\<lparr>neod := n\<rparr>)"
proof (induction "length content - k" arbitrary: k expected w rule: less_induct)
  case less
  let ?cmd = "''VM_READ '' @ show_nat k @ '' '' @ hexText name"
  have sz: "PROGRAM_BYTES = 1024" by (simp add: vm_sizes)
  have lk: "length (take k content) = k" using less.prems(2) by simp
  obtain m where m: "serve (Some (neo_request_line ?cmd)) (neod w) = (respond 1 ''OK'' (vm_payload content k), m)"
    "offers m name content"
    using handle_vm_read [OF name less.prems(1), of k] less.prems(2) content sz by auto
  have ans: "daemon_answer (neo_request_line ?cmd) w = (respond 1 ''OK'' (vm_payload content k), w\<lparr>neod := m\<rparr>)"
    using m(1) by (simp add: daemon_answer_def)
  have len: "length (vm_payload content k) < 490" using payload_short(1) [OF content, of k] by simp
  have cl: "length (neo_request_line ?cmd) < NEO_REQUEST_BYTES"
    by (rule command_length [OF name]) (use less.prems(2) content sz in simp)
  obtain v where req: "neoRequest link ?cmd w = (result True v (vm_payload content k), w\<lparr>neod := m\<rparr>)"
    using line_transport.request_ok [OF link ans payload_short(2,3) [OF content] cl len] by blast
  note chunk = vm_chunk_payload [OF less.prems(2) content less.prems(3)]
  have room: "length (take k content) < PROGRAM_BYTES" using less.prems(2) content lk by linarith
  have req': "neoRequest link (''VM_READ '' @ show_nat (length (take k content)) @ '' '' @ hexText name) w =
      (result True v (vm_payload content k), w\<lparr>neod := m\<rparr>)" unfolding lk by (rule req)
  note step = download_step [OF room req', unfolded lk]
  have ok: "r_ok (result True v (vm_payload content k))" "r_detail (result True v (vm_payload content k)) = vm_payload content k"
    by (simp_all add: result_def)
  show ?case
  proof (cases "k + VM_CHUNK < length content")
    case True
    let ?w = "w\<lparr>neod := m\<rparr>"
    have c: "vm_chunk (vm_payload content k) k expected = (length content, More (take VM_CHUNK (drop k content)))"
      using chunk True by simp
    have o: "offers (neod ?w) name content" using m(2) by simp
    have "length content - (k + VM_CHUNK) < length content - k" using less.prems(2) by (simp add: VM_CHUNK_def)
    from less.hyps [OF this o True] obtain n
      where n: "download_loop link (hexText name) (take (k + VM_CHUNK) content) (length content) ?w = (Inr content, ?w\<lparr>neod := n\<rparr>)"
      by blast
    have "download_loop link (hexText name) (take k content) expected w =
        download_loop link (hexText name) (take k content @ take VM_CHUNK (drop k content)) (length content) ?w"
      by (rule step(1) [OF ok(1)]) (simp only: ok(2) c)
    also have "take k content @ take VM_CHUNK (drop k content) = take (k + VM_CHUNK) content" by (simp add: take_add)
    finally show ?thesis using n by auto
  next
    case False
    then have c: "vm_chunk (vm_payload content k) k expected = (length content, Last (drop k content))"
      using chunk by simp
    have "download_loop link (hexText name) (take k content) expected w = (Inr (take k content @ drop k content), w\<lparr>neod := m\<rparr>)"
      by (rule step(2) [OF ok(1)]) (simp only: ok(2) c)
    then show ?thesis by auto
  qed
qed

lemma pathFor_file: "pathFor d name = Some p \<Longrightarrow> file_path p"
  by (auto simp: pathFor_def file_path_def Let_def split: if_splits)

lemma storeBytes_stores:
  assumes "filesystem fs view" "storeBytes fs name (Some bytes) replace w = (r, w')" "r_ok r"
  shows "view (now (sd w')) (the (pathFor (programDirectory w) name)) = Some bytes \<and> r_value r = of_nat (length bytes)"
proof -
  obtain p where p: "pathFor (programDirectory w) name = Some p"
    using assms(2,3) by (cases "pathFor (programDirectory w) name") (auto simp: storeBytes_def native_fail_def split: if_splits)
  obtain x D where a: "atomicWrite fs p bytes (sd w) = (x, D)" by fastforce
  have "x = Inr () \<and> w' = w\<lparr>sd := D\<rparr> \<and> r_value r = of_nat (length bytes)"
    using assms(2,3) p a by (cases x) (auto simp: storeBytes_def native_fail_def result_def split: if_splits)
  then show ?thesis using filesystem.atomicWrite_effect(2) [OF assms(1) pathFor_file [OF p] a] p
    by (simp add: filesystem.written_effect_def [OF assms(1)])
qed

text \<open>C26: A program downloaded from the daemon arrives whole: over any transport that delivers the daemon's lines, in
  whatever pieces, the board collects exactly the bytes of the daemon's file, hands them to the program
  store under the file's name without its extension, and when the store reports success the card holds
  exactly these bytes.\<close>

theorem vm_download_exact:
  fixes w :: "('s, 'a) paired_world_scheme"
  assumes "line_transport link daemon_answer" "filesystem fs view"
    and "program_file name" "offers (neod w) name content" "content \<noteq> []" "length content \<le> PROGRAM_BYTES"
  shows "\<exists>n. vmDownload fs link [of_bool replace] name w =
      storeBytes fs (take (length name - 4) name) (Some content) replace (w\<lparr>neod := n\<rparr>) \<and>
    (let (r, w') = vmDownload fs link [of_bool replace] name w
     in r_ok r \<longrightarrow> view (now (sd w')) (the (pathFor (programDirectory w) (take (length name - 4) name))) = Some content \<and>
          r_value r = of_nat (length content))"
proof -
  obtain n where n: "download_loop link (hexText name) [] 0 w = (Inr content, w\<lparr>neod := n\<rparr>)"
    using download_all [OF assms(1,3,6,4), of 0 0] assms(5) by auto
  have d: "vmDownload fs link [of_bool replace] name w =
      storeBytes fs (take (length name - 4) name) (Some content) replace (w\<lparr>neod := n\<rparr>)"
    using assms(3) n by (cases replace) (simp_all add: vmDownload_def program_file_def)
  obtain r w' where s: "storeBytes fs (take (length name - 4) name) (Some content) replace (w\<lparr>neod := n\<rparr>) = (r, w')"
    by fastforce
  show ?thesis
  proof (intro exI conjI)
    show "vmDownload fs link [of_bool replace] name w =
        storeBytes fs (take (length name - 4) name) (Some content) replace (w\<lparr>neod := n\<rparr>)" by (rule d)
  qed (use d s storeBytes_stores [OF assms(2) s] in auto)
qed

definition paired_board :: "u8 list \<Rightarrow> Card paired_world" where
  "paired_board content = neo_world.extend (store_world.extend (store_world.truncate (store_board [] \<lparr>files = [], plan = []\<rparr>))
       (neo_world.fields True False False False [] 5000 0))
     (paired_world.fields (neod_boot (sample_os\<lparr>os_vm := (\<lambda>name. if name = ''blink.nvm'' then Some content else None)\<rparr>)))"

theorem vm_download_exact_witness:
  "let (r, w) = vmDownload (card_fs True) (wire 2) [0] ''blink.nvm'' (paired_board (replicate 300 7))
   in r_ok r \<and> card_view (now (sd w)) ''/programs/prog_blink.nvm'' = Some (replicate 300 7)"
proof -
  let ?w = "paired_board (replicate 300 7)"
  have f: "program_file ''blink.nvm''" by code_simp
  have o: "offers (neod ?w) ''blink.nvm'' (replicate 300 7)"
    by (simp add: offers_def paired_board_def neod_boot_def sample_os_def store_world.defs neo_world.defs paired_world.defs)
  have pth: "programVm ?w" "programDirectory ?w = DEFAULT_DIRECTORY" "sd ?w = \<lparr>now = \<lparr>files = [], plan = []\<rparr>, visited = []\<rparr>"
    by (simp_all add: paired_board_def store_world.defs neo_world.defs paired_world.defs)
  have t: "take (length ''blink.nvm'' - 4) ''blink.nvm'' = ''blink''" by simp
  have ne: "replicate 300 (7 :: u8) \<noteq> []" "length (replicate 300 (7 :: u8)) \<le> PROGRAM_BYTES" by (simp_all add: vm_sizes)
  obtain n where n: "vmDownload (card_fs True) (wire 2) [of_bool False] ''blink.nvm'' ?w =
      storeBytes (card_fs True) ''blink'' (Some (replicate 300 7)) False (?w\<lparr>neod := n\<rparr>)"
    and v: "let (r, w') = vmDownload (card_fs True) (wire 2) [of_bool False] ''blink.nvm'' ?w
      in r_ok r \<longrightarrow> card_view (now (sd w')) (the (pathFor (programDirectory ?w) ''blink'')) = Some (replicate 300 7) \<and>
        r_value r = of_nat (length (replicate 300 (7 :: u8)))"
    using vm_download_exact [OF wired.line_transport_axioms [of 2] card.filesystem_axioms [of True] f o ne, of False, unfolded t]
    by - (erule exE, erule conjE, rule that; assumption)
  have "r_ok (fst (storeBytes (card_fs True) ''blink'' (Some (replicate 300 7)) False (?w\<lparr>neod := n\<rparr>)))"
    by (simp add: storeBytes_def blink_path pth vm_sizes atomicWrite_def install_def card_eval result_def works_def)
  then show ?thesis using n v by (auto simp: pth blink_path DEFAULT_DIRECTORY_def Let_def split: prod.splits)
qed

end
