(* ===== verification/Council_Book.thy ===== *)
theory Council_Book
  imports C_Text
begin

text \<open>
  The contact book of the Council, \<open>src/council/src/contact_book.c\<close>: a parser for the JSON file of contacts and
  the search for a contact by name. A cursor is the text from its position on; a parser returns the
  cursor at which it gave up, or a value and the cursor behind it.
\<close>

section \<open>Contacts\<close>

text \<open>The value before a role is read is the zero of \<open>memset\<close>.\<close>

datatype contact_role = NO_ROLE | CONTACT_HUMAN | CONTACT_AI

record contact =
  contact_name :: string
  role :: contact_role
  host :: string
  port :: "16 word"
  shared_key :: string
  arbiter_priority :: int32
  ram_gb :: u32

type_synonym contact_book = "contact list"

definition COUNCIL_MAX_CONTACTS :: nat where "COUNCIL_MAX_CONTACTS = 64"
definition COUNCIL_NAME_LENGTH :: nat where "COUNCIL_NAME_LENGTH = 64"
definition COUNCIL_HOST_LENGTH :: nat where "COUNCIL_HOST_LENGTH = 256"
definition COUNCIL_KEY_LENGTH :: nat where "COUNCIL_KEY_LENGTH = 128"

definition no_contact :: contact where
  "no_contact = \<lparr>contact_name = [], role = NO_ROLE, host = [], port = 0, shared_key = [], arbiter_priority = 0, ram_gb = 0\<rparr>"

definition contact_book_find :: "contact_book \<Rightarrow> string \<Rightarrow> nat option" where
  "contact_book_find book name = List.find (\<lambda>i. contact_name (book ! i) = name) [0..<length book]"

section \<open>Parsers\<close>

type_synonym 'a parsed = "string + 'a \<times> string"

definition skip_space :: "string \<Rightarrow> string" where
  "skip_space p = dropWhile c_isspace p"

definition at :: "char \<Rightarrow> string \<Rightarrow> bool" where
  "at c p \<longleftrightarrow> p \<noteq> [] \<and> hd p = c"

fun json_chars :: "string \<Rightarrow> nat \<Rightarrow> string \<Rightarrow> (string \<times> string) option" where
  "json_chars used cap [] = None"
| "json_chars used cap (c # p) =
     (if c = CHR 0x22 then Some (used, p)
      else if c = CHR 0x5C
      then (case p of [] \<Rightarrow> None
        | d # p \<Rightarrow> if d \<noteq> CHR 0x5C \<and> d \<noteq> CHR 0x22 \<and> d \<noteq> CHR ''/'' then None
            else if length used + 1 \<ge> cap then None
            else json_chars (used @ [d]) cap p)
      else if (of_char c :: nat) < 32 \<or> length used + 1 \<ge> cap then None
      else json_chars (used @ [c]) cap p)"

definition json_string :: "string \<Rightarrow> nat \<Rightarrow> string parsed" where
  "json_string p cap = (let q = skip_space p
     in if \<not> at CHR 0x22 q then Inl p
        else case json_chars [] cap (tl q) of None \<Rightarrow> Inl p | Some r \<Rightarrow> Inr r)"

definition expect :: "string \<Rightarrow> char \<Rightarrow> string + string" where
  "expect p token = (let q = skip_space p in if at token q then Inr (tl q) else Inl p)"

definition json_long :: "int \<Rightarrow> int \<Rightarrow> string \<Rightarrow> int parsed" where
  "json_long lo hi p = (let q = skip_space p; (v, rest, _) = strtol10 INT64_MIN INT64_MAX q
     in if length rest = length q \<or> v < lo \<or> v > hi then Inl q else Inr (v, rest))"

text \<open>\<open>strtoul\<close> negates modulo the width of \<open>unsigned long\<close>.\<close>

definition strtoul10 :: "string \<Rightarrow> int \<times> string" where
  "strtoul10 s =
     (let (neg, u) = split_sign (dropWhile c_isspace s); ds = takeWhile isDigit u; v = digits_value ds
      in if ds = [] then (0, s)
         else (if v \<ge> 2 ^ 64 then 2 ^ 64 - 1 else if neg then (- v) mod 2 ^ 64 else v, dropWhile isDigit u))"

definition json_ulong :: "int \<Rightarrow> string \<Rightarrow> int parsed" where
  "json_ulong hi p = (let q = skip_space p; (v, rest) = strtoul10 q
     in if length rest = length q \<or> v > hi then Inl q else Inr (v, rest))"

definition text_field :: "string \<Rightarrow> contact \<Rightarrow> nat \<Rightarrow> string \<Rightarrow> string \<Rightarrow> (contact \<times> nat) parsed" where
  "text_field key item seen v p =
     (if key = ''name'' then (if length v \<ge> COUNCIL_NAME_LENGTH then Inl p
        else Inr ((item\<lparr>contact_name := v\<rparr>, or seen 1), p))
      else if key = ''role'' then (if v = ''human'' then Inr ((item\<lparr>role := CONTACT_HUMAN\<rparr>, or seen 2), p)
        else if v = ''ai'' then Inr ((item\<lparr>role := CONTACT_AI\<rparr>, or seen 2), p) else Inl p)
      else if key = ''host'' then (if length v \<ge> COUNCIL_HOST_LENGTH then Inl p
        else Inr ((item\<lparr>host := v\<rparr>, or seen 4), p))
      else if key = ''shared_key'' then (if length v \<ge> COUNCIL_KEY_LENGTH then Inl p
        else Inr ((item\<lparr>shared_key := v\<rparr>, or seen 16), p))
      else Inl p)"

definition contact_field :: "string \<Rightarrow> contact \<Rightarrow> nat \<Rightarrow> string \<Rightarrow> (contact \<times> nat) parsed" where
  "contact_field key item seen p =
     (if key = ''port'' then (case json_long 1 65535 p of Inl q \<Rightarrow> Inl q
        | Inr (v, r) \<Rightarrow> Inr ((item\<lparr>port := word_of_int v\<rparr>, or seen 8), r))
      else if key = ''RAM'' then (case json_ulong 1048576 p of Inl q \<Rightarrow> Inl q
        | Inr (v, r) \<Rightarrow> Inr ((item\<lparr>ram_gb := word_of_int v\<rparr>, seen), r))
      else if key = ''arbiter_priority'' then (case json_long 0 1000000 p of Inl q \<Rightarrow> Inl q
        | Inr (v, r) \<Rightarrow> Inr ((item\<lparr>arbiter_priority := word_of_int v\<rparr>, seen), r))
      else case json_string p COUNCIL_HOST_LENGTH of Inl q \<Rightarrow> Inl q
        | Inr (v, r) \<Rightarrow> text_field key item seen v r)"

lemma skip_space_length: "length (skip_space p) \<le> length p"
  by (simp add: skip_space_def length_dropWhile_le)

lemma json_chars_length: "json_chars used cap p = Some (v, r) \<Longrightarrow> length r < length p"
proof (induction p arbitrary: used rule: length_induct)
  case (1 p)
  show ?case
  proof (cases p)
    case Nil
    then show ?thesis using 1(2) by simp
  next
    case (Cons c q)
    show ?thesis
    proof (cases "c = CHR 0x5C")
      case True
      then obtain d q' where q: "q = d # q'" using 1(2) Cons by (cases q) auto
      have "json_chars (used @ [d]) cap q' = Some (v, r)" using 1(2) Cons True q by (auto split: if_splits)
      moreover have "length q' < length p" using Cons q by simp
      ultimately have "length r < length q'" using 1(1) by blast
      then show ?thesis using Cons q by simp
    next
      case False
      then consider "r = q" | "json_chars (used @ [c]) cap q = Some (v, r)" using 1(2) Cons by (auto split: if_splits)
      then show ?thesis
      proof cases
        case 2
        moreover have "length q < length p" using Cons by simp
        ultimately have "length r < length q" using 1(1) by blast
        then show ?thesis using Cons by simp
      qed (simp add: Cons)
    qed
  qed
qed

lemma json_string_length: "json_string p cap = Inr (v, r) \<Longrightarrow> length r < length p"
  using skip_space_length [of p]
  by (auto simp: json_string_def at_def Let_def split: if_splits option.splits dest!: json_chars_length)

lemma expect_length: "expect p c = Inr r \<Longrightarrow> length r < length p"
  using skip_space_length [of p] by (cases "skip_space p") (auto simp: expect_def at_def Let_def split: if_splits)

lemma split_sign_length: "length (snd (split_sign t)) \<le> length t"
  by (cases t) (auto simp: split_sign_def)

lemma strtol10_length: "length (fst (snd (strtol10 lo hi s))) \<le> length s"
proof -
  have "length (dropWhile isDigit (snd (split_sign (dropWhile c_isspace (c_str s))))) \<le> length (c_str s)"
    by (meson le_trans length_dropWhile_le split_sign_length)
  moreover have "length (c_str s) \<le> length s" by (simp add: c_str_def length_takeWhile_le)
  ultimately show ?thesis by (simp add: strtol10_def Let_def case_prod_unfold)
qed

lemma strtoul10_length: "length (snd (strtoul10 s)) \<le> length s"
proof -
  have "length (dropWhile isDigit (snd (split_sign (dropWhile c_isspace s)))) \<le> length s"
    by (meson le_trans length_dropWhile_le split_sign_length)
  then show ?thesis by (simp add: strtoul10_def Let_def case_prod_unfold)
qed

lemma contact_field_length: "contact_field key item seen p = Inr (x, r) \<Longrightarrow> length r \<le> length p"
proof -
  have a: "length r \<le> length p" if "json_long lo hi p = Inr (v, r)" for lo hi v
    using that strtol10_length [of INT64_MIN INT64_MAX "skip_space p"] skip_space_length [of p]
    by (auto simp: json_long_def Let_def case_prod_unfold split: if_splits)
  have b: "length r \<le> length p" if "json_ulong hi p = Inr (v, r)" for hi v
    using that strtoul10_length [of "skip_space p"] skip_space_length [of p]
    by (auto simp: json_ulong_def Let_def case_prod_unfold split: if_splits)
  have c: "length r \<le> length p" if "json_string p k = Inr (v, q)" "text_field key item seen v q = Inr (x, r)" for k v q
    using json_string_length [OF that(1)] that(2) by (auto simp: text_field_def split: if_splits)
  show "contact_field key item seen p = Inr (x, r) \<Longrightarrow> length r \<le> length p"
    by (auto simp: contact_field_def split: if_splits sum.splits dest: a b c)
qed

definition field_pair :: "contact \<Rightarrow> nat \<Rightarrow> string \<Rightarrow> (contact \<times> nat) parsed" where
  "field_pair item seen p = (case json_string p 32 of Inl q \<Rightarrow> Inl q
     | Inr (key, p) \<Rightarrow> (case expect p CHR '':'' of Inl q \<Rightarrow> Inl q
         | Inr p \<Rightarrow> contact_field key item seen p))"

lemma field_pair_length: "field_pair item seen p = Inr (x, r) \<Longrightarrow> length r < length p"
proof -
  assume "field_pair item seen p = Inr (x, r)"
  then obtain key p1 p2 where "json_string p 32 = Inr (key, p1)" "expect p1 CHR '':'' = Inr p2"
    "contact_field key item seen p2 = Inr (x, r)" by (auto simp: field_pair_def split: sum.splits)
  then show ?thesis using json_string_length expect_length contact_field_length by (meson less_trans le_less_trans)
qed

function item_loop :: "contact \<Rightarrow> nat \<Rightarrow> string \<Rightarrow> (contact \<times> nat) parsed" where
  "item_loop item seen p =
     (if at CHR ''}'' (skip_space p) then Inr ((item, seen), p)
      else case field_pair item seen p of Inl q \<Rightarrow> Inl q
        | Inr ((item, seen), p) \<Rightarrow>
            (let p = skip_space p
             in if at CHR '','' p then item_loop item seen (tl p)
                else if at CHR ''}'' p then Inr ((item, seen), p)
                else Inl p))"
  by pat_completeness auto
termination
proof (relation "measure (\<lambda>(_, _, p). length p)")
  fix item seen p x1 x i f q r
  assume "field_pair item seen p = Inr x1" "(x, q) = x1" "r = skip_space q"
  then have "length r < length p" using field_pair_length skip_space_length [of q] by (metis le_less_trans)
  then show "((i, f, tl r), item, seen, p) \<in> measure (\<lambda>(_, _, p). length p)" by simp
qed simp

declare item_loop.simps [simp del]

lemma item_loop_length: "item_loop item seen p = Inr (x, r) \<Longrightarrow> length r \<le> length p"
proof (induction item seen p rule: item_loop.induct)
  case (1 item seen p)
  show ?case
  proof (cases "at CHR ''}'' (skip_space p)")
    case True
    then show ?thesis using 1(2) by (simp add: item_loop.simps)
  next
    case False
    then obtain i f q where q: "field_pair item seen p = Inr ((i, f), q)"
      using 1(2) by (subst (asm) item_loop.simps) (auto split: sum.splits)
    have l: "length (skip_space q) < length p" using field_pair_length [OF q] skip_space_length [of q] by simp
    show ?thesis
    proof (cases "at CHR '','' (skip_space q)")
      case True
      then have "item_loop i f (tl (skip_space q)) = Inr (x, r)"
        using 1(2) False q by (subst (asm) item_loop.simps) (simp add: Let_def)
      then have "length r \<le> length (tl (skip_space q))" using 1(1) [OF False q refl refl refl True] by simp
      then show ?thesis using l by simp
    next
      case no: False
      then show ?thesis using 1(2) False q l by (subst (asm) item_loop.simps) (auto simp: Let_def split: if_splits)
    qed
  qed
qed

function book_loop :: "contact_book \<Rightarrow> string \<Rightarrow> contact_book parsed" where
  "book_loop items p =
     (if at CHR '']'' (skip_space p) then Inr (items, p)
      else if length items = COUNCIL_MAX_CONTACTS then Inl p
      else case expect p CHR ''{'' of Inl q \<Rightarrow> Inl q
        | Inr p \<Rightarrow> (case item_loop no_contact 0 p of Inl q \<Rightarrow> Inl q
            | Inr ((item, seen), p) \<Rightarrow>
                if seen \<noteq> 31 then Inl (tl p)
                else let p = skip_space (tl p)
                     in if at CHR '','' p then book_loop (items @ [item]) (tl p)
                        else if at CHR '']'' p then Inr (items @ [item], p)
                        else Inl p))"
  by pat_completeness auto
termination
proof (relation "measure (\<lambda>(_, p). length p)")
  fix items :: contact_book and p p1 x i f q r item
  assume "expect p CHR ''{'' = Inr p1" "item_loop no_contact 0 p1 = Inr x" "(i, q) = x" "r = skip_space (tl q)"
  then have "length r < length p"
    using expect_length item_loop_length skip_space_length [of "tl q"] by (metis diff_le_self le_less_trans length_tl le_trans)
  then show "((items @ [item], tl r), items, p) \<in> measure (\<lambda>(_, p). length p)" by simp
qed simp

declare book_loop.simps [simp del]

datatype FileText = NotOpened | NotRead | Content string

definition invalid_at :: "string \<Rightarrow> string \<Rightarrow> string" where
  "invalid_at text p = ''invalid contacts JSON near byte '' @ show_nat (length text - length p)"

text \<open>The error is None when the function fails without writing one.\<close>

definition contact_book_load :: "string \<Rightarrow> FileText \<Rightarrow> string option + contact_book" where
  "contact_book_load path file = (case file of
       NotOpened \<Rightarrow> Inl (Some (''cannot open '' @ path))
     | NotRead \<Rightarrow> Inl None
     | Content bytes \<Rightarrow>
         (let text = c_str bytes
          in case expect text CHR ''['' of Inl q \<Rightarrow> Inl (Some (invalid_at text q))
             | Inr p \<Rightarrow> (case book_loop [] p of Inl q \<Rightarrow> Inl (Some (invalid_at text q))
                 | Inr (book, p) \<Rightarrow>
                     if skip_space (tl p) \<noteq> [] then Inl (Some (invalid_at text (tl p))) else Inr book)))"

section \<open>Well-formed books\<close>

definition contact_wf :: "contact \<Rightarrow> bool" where
  "contact_wf c \<longleftrightarrow> length (contact_name c) < COUNCIL_NAME_LENGTH \<and> role c \<noteq> NO_ROLE \<and>
     length (host c) < COUNCIL_HOST_LENGTH \<and> port c \<noteq> 0 \<and> length (shared_key c) < COUNCIL_KEY_LENGTH \<and>
     0 \<le> sint (arbiter_priority c) \<and> sint (arbiter_priority c) \<le> 1000000 \<and> ram_gb c \<le> 1048576"

definition book_wf :: "contact_book \<Rightarrow> bool" where
  "book_wf book \<longleftrightarrow> length book \<le> COUNCIL_MAX_CONTACTS \<and> list_all contact_wf book"

definition partial_wf :: "contact \<Rightarrow> nat \<Rightarrow> bool" where
  "partial_wf c seen \<longleftrightarrow> length (contact_name c) < COUNCIL_NAME_LENGTH \<and> (bit seen 1 \<longrightarrow> role c \<noteq> NO_ROLE) \<and>
     length (host c) < COUNCIL_HOST_LENGTH \<and> (bit seen 3 \<longrightarrow> port c \<noteq> 0) \<and> length (shared_key c) < COUNCIL_KEY_LENGTH \<and>
     0 \<le> sint (arbiter_priority c) \<and> sint (arbiter_priority c) \<le> 1000000 \<and> ram_gb c \<le> 1048576"

lemma partial_wf_start: "partial_wf no_contact 0"
  by (simp add: partial_wf_def no_contact_def COUNCIL_NAME_LENGTH_def COUNCIL_HOST_LENGTH_def COUNCIL_KEY_LENGTH_def)

lemma partial_wf_done: "partial_wf c 31 \<Longrightarrow> contact_wf c"
proof -
  have "bit (31 :: nat) 1" "bit (31 :: nat) 3" by code_simp+
  then show "partial_wf c 31 \<Longrightarrow> contact_wf c" by (simp add: partial_wf_def contact_wf_def)
qed

lemma json_long_range: "json_long lo hi p = Inr (v, r) \<Longrightarrow> lo \<le> v \<and> v \<le> hi"
  by (auto simp: json_long_def Let_def case_prod_unfold split: if_splits)

lemma digits_value_nonneg: "\<forall>c \<in> set ds. isDigit c \<Longrightarrow> 0 \<le> digits_value ds"
proof (induction ds rule: rev_induct)
  case Nil
  show ?case by (simp add: digits_value_def)
next
  case (snoc c ds)
  then show ?case by (simp add: digits_value_snoc digit_value_def isDigit_def)
qed

lemma json_ulong_range: "json_ulong hi p = Inr (v, r) \<Longrightarrow> 0 \<le> v \<and> v \<le> hi"
proof -
  have "0 \<le> digits_value (takeWhile isDigit t)" for t
    by (rule digits_value_nonneg) (auto dest: set_takeWhileD)
  then have nn: "0 \<le> fst (strtoul10 q)" for q
    by (simp add: strtoul10_def Let_def case_prod_unfold)
  show "json_ulong hi p = Inr (v, r) \<Longrightarrow> 0 \<le> v \<and> v \<le> hi"
    using nn [of "skip_space p"] by (auto simp: json_ulong_def Let_def case_prod_unfold split: if_splits)
qed

lemma seen_bits:
  "bit (or n 1 :: nat) 1 = bit n 1" "bit (or n 1 :: nat) 3 = bit n 3" "bit (or n 2 :: nat) 3 = bit n 3"
  "bit (or n 4 :: nat) 1 = bit n 1" "bit (or n 4 :: nat) 3 = bit n 3" "bit (or n 8 :: nat) 1 = bit n 1"
  "bit (or n 16 :: nat) 1 = bit n 1" "bit (or n 16 :: nat) 3 = bit n 3"
proof -
  have b: "\<not> bit (1 :: nat) 1" "\<not> bit (1 :: nat) 3" "\<not> bit (2 :: nat) 3" "\<not> bit (4 :: nat) 1" "\<not> bit (4 :: nat) 3"
    "\<not> bit (8 :: nat) 1" "\<not> bit (16 :: nat) 1" "\<not> bit (16 :: nat) 3" by code_simp+
  show "bit (or n 1 :: nat) 1 = bit n 1" "bit (or n 1 :: nat) 3 = bit n 3" "bit (or n 2 :: nat) 3 = bit n 3"
    "bit (or n 4 :: nat) 1 = bit n 1" "bit (or n 4 :: nat) 3 = bit n 3" "bit (or n 8 :: nat) 1 = bit n 1"
    "bit (or n 16 :: nat) 1 = bit n 1" "bit (or n 16 :: nat) 3 = bit n 3"
    using b by (simp_all only: bit_or_iff simp_thms)
qed

lemma text_field_wf: "text_field key item seen v p = Inr ((i, f), r) \<Longrightarrow> partial_wf item seen \<Longrightarrow> partial_wf i f"
  by (auto simp: text_field_def partial_wf_def seen_bits [simplified] split: if_splits)

lemma small_words:
  "1 \<le> v \<Longrightarrow> v \<le> 65535 \<Longrightarrow> (word_of_int v :: u16) \<noteq> 0"
  "0 \<le> v \<Longrightarrow> v \<le> 1048576 \<Longrightarrow> (word_of_int v :: u32) \<le> 1048576"
  "0 \<le> v \<Longrightarrow> v \<le> 1000000 \<Longrightarrow> sint (word_of_int v :: int32) = v"
proof -
  show "1 \<le> v \<Longrightarrow> v \<le> 65535 \<Longrightarrow> (word_of_int v :: u16) \<noteq> 0"
  proof
    assume a: "1 \<le> v" "v \<le> 65535" "(word_of_int v :: u16) = 0"
    have "uint (word_of_int v :: u16) = v" using a(1,2) by (simp add: uint_word_of_int)
    then show False using a by simp
  qed
  show "0 \<le> v \<Longrightarrow> v \<le> 1048576 \<Longrightarrow> (word_of_int v :: u32) \<le> 1048576"
    by (simp add: word_le_def uint_word_of_int)
  show "0 \<le> v \<Longrightarrow> v \<le> 1000000 \<Longrightarrow> sint (word_of_int v :: int32) = v"
    by (simp add: sint_word_of_int_32)
qed

lemma contact_field_wf:
  assumes "contact_field key item seen p = Inr ((i, f), r)" "partial_wf item seen"
  shows "partial_wf i f"
proof -
  consider "key = ''port''" | "key = ''RAM''" | "key = ''arbiter_priority''"
    | "key \<notin> {''port'', ''RAM'', ''arbiter_priority''}" by blast
  then show ?thesis
  proof cases
    case 1
    then obtain v where "json_long 1 65535 p = Inr (v, r)" "i = item\<lparr>port := word_of_int v\<rparr>" "f = or seen 8"
      using assms(1) by (auto simp: contact_field_def split: sum.splits)
    then show ?thesis using assms(2) json_long_range [of 1 65535 p v r] small_words(1) [of v]
      by (simp add: partial_wf_def seen_bits [simplified])
  next
    case 2
    then obtain v where "json_ulong 1048576 p = Inr (v, r)" "i = item\<lparr>ram_gb := word_of_int v\<rparr>" "f = seen"
      using assms(1) by (auto simp: contact_field_def split: sum.splits)
    then show ?thesis using assms(2) json_ulong_range [of 1048576 p v r] small_words(2) [of v] by (simp add: partial_wf_def)
  next
    case 3
    then obtain v where "json_long 0 1000000 p = Inr (v, r)" "i = item\<lparr>arbiter_priority := word_of_int v\<rparr>" "f = seen"
      using assms(1) by (auto simp: contact_field_def split: sum.splits)
    then show ?thesis using assms(2) json_long_range [of 0 1000000 p v r] small_words(3) [of v] by (simp add: partial_wf_def)
  next
    case 4
    then show ?thesis using assms text_field_wf by (auto simp: contact_field_def split: sum.splits)
  qed
qed

lemma field_pair_wf: "field_pair item seen p = Inr ((i, f), r) \<Longrightarrow> partial_wf item seen \<Longrightarrow> partial_wf i f"
  by (auto simp: field_pair_def split: sum.splits intro: contact_field_wf)

lemma item_loop_wf: "item_loop item seen p = Inr ((i, f), r) \<Longrightarrow> partial_wf item seen \<Longrightarrow> partial_wf i f"
proof (induction item seen p rule: item_loop.induct)
  case (1 item seen p)
  show ?case
  proof (cases "at CHR ''}'' (skip_space p)")
    case True
    then show ?thesis using 1(2,3) by (simp add: item_loop.simps)
  next
    case False
    then obtain j g q where q: "field_pair item seen p = Inr ((j, g), q)"
      using 1(2) by (subst (asm) item_loop.simps) (auto split: sum.splits)
    then have wf: "partial_wf j g" using 1(3) field_pair_wf by blast
    show ?thesis
    proof (cases "at CHR '','' (skip_space q)")
      case True
      then have "item_loop j g (tl (skip_space q)) = Inr ((i, f), r)"
        using 1(2) False q by (subst (asm) item_loop.simps) (simp add: Let_def)
      then show ?thesis using 1(1) [OF False q refl refl refl True _ wf] by simp
    next
      case no: False
      then show ?thesis using 1(2) False q wf by (subst (asm) item_loop.simps) (auto simp: Let_def split: if_splits)
    qed
  qed
qed

lemma book_loop_wf: "book_loop items p = Inr (book, r) \<Longrightarrow> book_wf items \<Longrightarrow> book_wf book"
proof (induction items p rule: book_loop.induct)
  case (1 items p)
  show ?case
  proof (cases "at CHR '']'' (skip_space p)")
    case True
    then show ?thesis using 1(2,3) by (simp add: book_loop.simps)
  next
    case False
    then have n: "length items \<noteq> COUNCIL_MAX_CONTACTS" using 1(2) by (auto simp: book_loop.simps [of items p])
    obtain p1 where p1: "expect p CHR ''{'' = Inr p1"
      using 1(2) False n by (cases "expect p CHR ''{''") (auto simp: book_loop.simps [of items p])
    obtain item seen q where q: "item_loop no_contact 0 p1 = Inr ((item, seen), q)"
      using 1(2) False n p1 by (cases "item_loop no_contact 0 p1") (auto simp: book_loop.simps [of items p])
    have s: "seen = 31" using 1(2) False n p1 q by (auto simp: book_loop.simps [of items p] split: if_splits)
    have "contact_wf item" using item_loop_wf [OF q partial_wf_start] s partial_wf_done by simp
    then have wf: "book_wf (items @ [item])" using 1(3) n by (simp add: book_wf_def)
    show ?thesis
    proof (cases "at CHR '','' (skip_space (tl q))")
      case True
      then have "book_loop (items @ [item]) (tl (skip_space (tl q))) = Inr (book, r)"
        using 1(2) False n p1 q s by (simp add: book_loop.simps [of items p] Let_def)
      then show ?thesis using 1(1) [OF False n p1 q refl refl _ refl True _ wf] s by simp
    next
      case no: False
      then show ?thesis using 1(2) False n p1 q s wf by (auto simp: book_loop.simps [of items p] Let_def split: if_splits)
    qed
  qed
qed

lemma contact_book_load_wf: "contact_book_load path file = Inr book \<Longrightarrow> book_wf book"
proof -
  have "book_wf []" by (simp add: book_wf_def)
  then show "contact_book_load path file = Inr book \<Longrightarrow> book_wf book"
    using book_loop_wf by (auto simp: contact_book_load_def Let_def split: FileText.splits sum.splits if_splits)
qed

section \<open>Reading back a written book\<close>

definition json_escape :: "string \<Rightarrow> string" where
  "json_escape s = concat (map (\<lambda>c. if c = CHR 0x22 \<or> c = CHR 0x5C then [CHR 0x5C, c] else [c]) s)"

definition json_quote :: "string \<Rightarrow> string" where
  "json_quote s = CHR 0x22 # json_escape s @ [CHR 0x22]"

definition json_pair :: "string \<Rightarrow> string \<Rightarrow> string" where
  "json_pair key v = json_quote key @ '': '' @ v"

definition write_role :: "contact_role \<Rightarrow> string" where
  "write_role r = (if r = CONTACT_HUMAN then ''human'' else ''ai'')"

definition write_contact :: "contact \<Rightarrow> string" where
  "write_contact c = ''{'' @ json_pair ''name'' (json_quote (contact_name c)) @ '','' @
     json_pair ''role'' (json_quote (write_role (role c))) @ '','' @
     json_pair ''host'' (json_quote (host c)) @ '','' @
     json_pair ''port'' (show_nat (unat (port c))) @ '','' @
     json_pair ''shared_key'' (json_quote (shared_key c)) @ '','' @
     json_pair ''arbiter_priority'' (show_nat (nat (sint (arbiter_priority c)))) @ '','' @
     json_pair ''RAM'' (show_nat (unat (ram_gb c))) @ ''}''"

fun write_items :: "contact_book \<Rightarrow> string" where
  "write_items [] = '']''"
| "write_items [c] = write_contact c @ '']''"
| "write_items (c # d # book) = write_contact c @ '','' @ write_items (d # book)"

definition write_book :: "contact_book \<Rightarrow> string" where
  "write_book book = ''['' @ write_items book"

definition clean_text :: "string \<Rightarrow> bool" where
  "clean_text s \<longleftrightarrow> (\<forall>c \<in> set s. 32 \<le> (of_char c :: nat))"

lemma json_chars_escape:
  "clean_text s \<Longrightarrow> length used + length s < cap \<Longrightarrow>
   json_chars used cap (json_escape s @ CHR 0x22 # rest) = Some (used @ s, rest)"
proof (induction s arbitrary: used)
  case Nil
  show ?case by (simp add: json_escape_def)
next
  case (Cons c s)
  have e: "json_escape (c # s) = (if c = CHR 0x22 \<or> c = CHR 0x5C then [CHR 0x5C, c] else [c]) @ json_escape s"
    by (simp add: json_escape_def)
  have IH: "json_chars (used @ [c]) cap (json_escape s @ CHR 0x22 # rest) = Some ((used @ [c]) @ s, rest)"
    using Cons by (simp add: clean_text_def)
  have "\<not> (of_char c :: nat) < 32" using Cons.prems(1) by (simp add: clean_text_def)
  then show ?case unfolding e using IH Cons.prems(2) by auto
qed

lemma json_string_quote:
  assumes "clean_text s" "length s < cap"
  shows "json_string (json_quote s @ rest) cap = Inr (s, rest)" "json_string (CHR '' '' # json_quote s @ rest) cap = Inr (s, rest)"
proof -
  have "\<not> c_isspace CHR 0x22" by (simp add: c_isspace_def)
  then show "json_string (json_quote s @ rest) cap = Inr (s, rest)" "json_string (CHR '' '' # json_quote s @ rest) cap = Inr (s, rest)"
    using json_chars_escape [OF assms(1), of "[]" cap rest] assms(2)
    by (simp_all add: json_string_def json_quote_def skip_space_def at_def)
qed

definition number_end :: "string \<Rightarrow> bool" where
  "number_end rest \<longleftrightarrow> rest \<noteq> [] \<and> \<not> isDigit (hd rest) \<and> CHR 0x00 \<notin> set rest"

lemma show_nat_start:
  "dropWhile c_isspace (show_nat n @ t) = show_nat n @ t" "split_sign (show_nat n @ t) = (False, show_nat n @ t)"
proof -
  show "dropWhile c_isspace (show_nat n @ t) = show_nat n @ t"
    by (rule blank_hd) simp_all
  have "\<forall>c \<in> set (show_nat n). isDigit c" using show_nat_digits by blast
  then show "split_sign (show_nat n @ t) = (False, show_nat n @ t)"
    using show_nat_nonempty [of n] by (cases "show_nat n") (auto simp: split_sign_def isDigit_def)
qed

lemma show_nat_scan:
  assumes "number_end rest"
  shows "takeWhile isDigit (show_nat n @ rest) = show_nat n" "dropWhile isDigit (show_nat n @ rest) = rest"
    "c_str (show_nat n @ rest) = show_nat n @ rest"
proof -
  have d: "\<forall>c \<in> set (show_nat n). isDigit c" using show_nat_digits by blast
  obtain x xs where r: "rest = x # xs" "\<not> isDigit x" "CHR 0x00 \<notin> set rest" using assms by (cases rest) (auto simp: number_end_def)
  show "takeWhile isDigit (show_nat n @ rest) = show_nat n" "dropWhile isDigit (show_nat n @ rest) = rest"
    using d r by (simp_all add: takeWhile_append dropWhile_append)
  have "CHR 0x00 \<notin> set (show_nat n)" using d by (auto simp: isDigit_def)
  then show "c_str (show_nat n @ rest) = show_nat n @ rest"
    using r(3) unfolding c_str_def by (intro takeWhile_eq_all_conv [THEN iffD2]) auto
qed

lemma skip_number: "skip_space (CHR '' '' # show_nat n @ rest) = show_nat n @ rest"
  by (simp add: skip_space_def show_nat_start)

lemma json_long_number:
  assumes "number_end rest" "lo \<le> int n" "int n \<le> hi" "hi \<le> 1000000000"
  shows "json_long lo hi (CHR '' '' # show_nat n @ rest) = Inr (int n, rest)"
proof -
  have "strtol10 INT64_MIN INT64_MAX (show_nat n @ rest) = (int n, rest, False)"
    using assms by (simp add: strtol10_def show_nat_scan show_nat_start Let_def INT64_MIN_def INT64_MAX_def)
  then show ?thesis using assms(2,3) by (simp add: json_long_def skip_number)
qed

lemma json_ulong_number:
  assumes "number_end rest" "int n \<le> hi" "hi \<le> 1000000000"
  shows "json_ulong hi (CHR '' '' # show_nat n @ rest) = Inr (int n, rest)"
proof -
  have "strtoul10 (show_nat n @ rest) = (int n, rest)"
    using assms by (simp add: strtoul10_def show_nat_scan show_nat_start Let_def)
  then show ?thesis using assms(2) by (simp add: json_ulong_def skip_number)
qed

lemma field_pair_key:
  assumes "clean_text key" "length key < 32"
  shows "field_pair item seen (json_pair key v @ rest) = contact_field key item seen (CHR '' '' # v @ rest)"
proof -
  have c: "\<not> c_isspace CHR '':''" by (simp add: c_isspace_def)
  show ?thesis using json_string_quote(1) [OF assms, of "'': '' @ v @ rest"] c
    by (simp add: field_pair_def json_pair_def expect_def skip_space_def at_def)
qed

lemma item_step:
  assumes "clean_text key" "length key < 32" "contact_field key item seen (CHR '' '' # v @ rest) = Inr ((i, f), rest)"
  shows "rest = CHR '','' # others \<Longrightarrow> item_loop item seen (json_pair key v @ rest) = item_loop i f others"
    "rest = CHR ''}'' # others \<Longrightarrow> item_loop item seen (json_pair key v @ rest) = Inr ((i, f), rest)"
proof -
  have b: "\<not> c_isspace CHR 0x22" "\<not> c_isspace CHR '',''" "\<not> c_isspace CHR ''}''" by (simp_all add: c_isspace_def)
  have a: "\<not> at CHR ''}'' (skip_space (json_pair key v @ rest))"
    using b by (simp add: at_def skip_space_def json_pair_def json_quote_def)
  have p: "field_pair item seen (json_pair key v @ rest) = Inr ((i, f), rest)"
    using field_pair_key [OF assms(1,2)] assms(3) by simp
  have "item_loop item seen (json_pair key v @ rest) = (let q = skip_space rest
      in if at CHR '','' q then item_loop i f (tl q) else if at CHR ''}'' q then Inr ((i, f), q) else Inl q)"
    by (simp add: item_loop.simps [of item seen "json_pair key v @ rest"] a p)
  then show "rest = CHR '','' # others \<Longrightarrow> item_loop item seen (json_pair key v @ rest) = item_loop i f others"
    "rest = CHR ''}'' # others \<Longrightarrow> item_loop item seen (json_pair key v @ rest) = Inr ((i, f), rest)"
    using b by (simp_all add: at_def skip_space_def)
qed

lemma text_contact_field:
  assumes "clean_text v" "length v < COUNCIL_HOST_LENGTH" "key \<notin> {''port'', ''RAM'', ''arbiter_priority''}"
  shows "contact_field key item seen (CHR '' '' # json_quote v @ rest) = text_field key item seen v rest"
  using json_string_quote(2) [OF assms(1,2)] assms(3) by (simp add: contact_field_def)

lemma number_contact_field:
  assumes "number_end rest"
  shows "1 \<le> n \<Longrightarrow> n \<le> 65535 \<Longrightarrow> contact_field ''port'' item seen (CHR '' '' # show_nat n @ rest) =
      Inr ((item\<lparr>port := of_nat n\<rparr>, or seen 8), rest)"
    "n \<le> 1000000 \<Longrightarrow> contact_field ''arbiter_priority'' item seen (CHR '' '' # show_nat n @ rest) =
      Inr ((item\<lparr>arbiter_priority := of_nat n\<rparr>, seen), rest)"
    "n \<le> 1048576 \<Longrightarrow> contact_field ''RAM'' item seen (CHR '' '' # show_nat n @ rest) =
      Inr ((item\<lparr>ram_gb := of_nat n\<rparr>, seen), rest)"
  using json_long_number [OF assms, of 1 n 65535] json_long_number [OF assms, of 0 n 1000000]
    json_ulong_number [OF assms, of n 1048576]
  by (simp_all add: contact_field_def)

definition contact_clean :: "contact \<Rightarrow> bool" where
  "contact_clean c \<longleftrightarrow> clean_text (contact_name c) \<and> clean_text (host c) \<and> clean_text (shared_key c)"

lemma clean_no_zero: "clean_text s \<Longrightarrow> CHR 0x00 \<notin> set s"
  by (auto simp: clean_text_def)

lemma json_escape_clean: "clean_text s \<Longrightarrow> CHR 0x00 \<notin> set (json_escape s)"
  by (auto simp: clean_text_def json_escape_def)

lemma show_nat_no_zero: "CHR 0x00 \<notin> set (show_nat n)"
  using show_nat_digits [of "CHR 0x00" n] by (auto simp: isDigit_def)

lemma write_contact_no_zero: "contact_clean c \<Longrightarrow> CHR 0x00 \<notin> set (write_contact c)"
  using json_escape_clean [of "contact_name c"] json_escape_clean [of "host c"] json_escape_clean [of "shared_key c"]
  by (auto simp: write_contact_def json_pair_def json_quote_def contact_clean_def show_nat_no_zero write_role_def json_escape_def)

lemma seen_all: "or (or (or (or (or 0 1) 2) 4) 8) 16 = (31 :: nat)"
  by code_simp

lemma contact_numbers:
  assumes "contact_wf c"
  shows "1 \<le> unat (port c)" "unat (port c) \<le> 65535" "nat (sint (arbiter_priority c)) \<le> 1000000"
    "unat (ram_gb c) \<le> 1048576" "of_nat (nat (sint (arbiter_priority c))) = arbiter_priority c"
proof -
  have wf: "port c \<noteq> 0" "0 \<le> sint (arbiter_priority c)" "sint (arbiter_priority c) \<le> 1000000" "ram_gb c \<le> 1048576"
    using assms by (auto simp: contact_wf_def)
  show "1 \<le> unat (port c)" using wf(1) by (simp add: Suc_le_eq unat_gt_0)
  have "unat (port c) < 65536" using unsigned_less [of "port c"] by simp
  then show "unat (port c) \<le> 65535" by simp
  show "nat (sint (arbiter_priority c)) \<le> 1000000" using wf(3) by simp
  show "unat (ram_gb c) \<le> 1048576" using wf(4) by (simp add: word_le_nat_alt)
  show "of_nat (nat (sint (arbiter_priority c))) = arbiter_priority c" using wf(2) by simp
qed

lemma contact_texts:
  assumes "contact_wf c" "contact_clean c"
  shows "clean_text (contact_name c)" "clean_text (host c)" "clean_text (shared_key c)" "clean_text (write_role (role c))"
    "length (contact_name c) < COUNCIL_HOST_LENGTH" "length (shared_key c) < COUNCIL_HOST_LENGTH"
    "length (write_role (role c)) < COUNCIL_HOST_LENGTH"
  using assms by (auto simp: contact_wf_def contact_clean_def write_role_def clean_text_def COUNCIL_NAME_LENGTH_def
      COUNCIL_HOST_LENGTH_def COUNCIL_KEY_LENGTH_def)

lemma key_texts:
  "clean_text ''name''" "clean_text ''role''" "clean_text ''host''" "clean_text ''port''" "clean_text ''shared_key''"
  "clean_text ''arbiter_priority''" "clean_text ''RAM''"
  by (simp_all add: clean_text_def)

lemma number_end_pair:
  "number_end t \<Longrightarrow> CHR 0x00 \<notin> set v \<Longrightarrow> CHR 0x00 \<notin> set key \<Longrightarrow> number_end (CHR '','' # json_pair key v @ t)"
  by (auto simp: number_end_def isDigit_def json_pair_def json_quote_def json_escape_def)

lemma read_contact:
  assumes "contact_wf c" "contact_clean c" "CHR 0x00 \<notin> set rest"
  shows "item_loop no_contact 0 (tl (write_contact c) @ rest) = Inr ((c, 31), CHR ''}'' # rest)"
proof -
  have wf: "length (contact_name c) < COUNCIL_NAME_LENGTH" "length (host c) < COUNCIL_HOST_LENGTH"
    "length (shared_key c) < COUNCIL_KEY_LENGTH" "role c \<noteq> NO_ROLE" using assms(1) by (auto simp: contact_wf_def)
  note cl = contact_texts [OF assms(1,2)] and keys = key_texts and n = contact_numbers [OF assms(1)]
  have nz: "CHR 0x00 \<notin> set (json_quote (shared_key c))" using json_escape_clean [OF cl(3)] by (simp add: json_quote_def)
  define t6 where "t6 = CHR ''}'' # rest"
  define t5 where "t5 = json_pair ''RAM'' (show_nat (unat (ram_gb c))) @ t6"
  define t4 where "t4 = json_pair ''arbiter_priority'' (show_nat (nat (sint (arbiter_priority c)))) @ CHR '','' # t5"
  define t3 where "t3 = json_pair ''shared_key'' (json_quote (shared_key c)) @ CHR '','' # t4"
  define t2 where "t2 = json_pair ''port'' (show_nat (unat (port c))) @ CHR '','' # t3"
  define t1 where "t1 = json_pair ''host'' (json_quote (host c)) @ CHR '','' # t2"
  define t0 where "t0 = json_pair ''role'' (json_quote (write_role (role c))) @ CHR '','' # t1"
  have whole: "tl (write_contact c) @ rest = json_pair ''name'' (json_quote (contact_name c)) @ CHR '','' # t0"
    by (simp add: write_contact_def t0_def t1_def t2_def t3_def t4_def t5_def t6_def)
  have e6: "number_end t6" using assms(3) by (simp add: number_end_def t6_def isDigit_def)
  have e5: "number_end (CHR '','' # t5)" unfolding t5_def by (rule number_end_pair [OF e6]) (simp_all add: show_nat_no_zero)
  have "number_end (CHR '','' # t4)" unfolding t4_def by (rule number_end_pair [OF e5]) (simp_all add: show_nat_no_zero)
  then have e3: "number_end (CHR '','' # t3)" unfolding t3_def by (rule number_end_pair) (simp_all add: nz)
  let ?i1 = "no_contact\<lparr>contact_name := contact_name c\<rparr>"
  let ?i2 = "?i1\<lparr>role := role c\<rparr>" let ?i3 = "?i2\<lparr>host := host c\<rparr>" let ?i4 = "?i3\<lparr>port := port c\<rparr>"
  let ?i5 = "?i4\<lparr>shared_key := shared_key c\<rparr>" let ?i6 = "?i5\<lparr>arbiter_priority := arbiter_priority c\<rparr>"
  have "item_loop no_contact 0 (tl (write_contact c) @ rest) = item_loop ?i1 (or 0 1) t0" unfolding whole
    by (rule item_step(1) [OF keys(1) _ _ refl]) (use wf(1) text_contact_field [OF cl(1,5)] in \<open>simp_all add: text_field_def\<close>)
  also have "\<dots> = item_loop ?i2 (or (or 0 1) 2) t1" unfolding t0_def
    by (rule item_step(1) [OF keys(2) _ _ refl])
      (use wf(4) text_contact_field [OF cl(4,7)] in \<open>cases "role c"; simp_all add: text_field_def write_role_def\<close>)+
  also have "\<dots> = item_loop ?i3 (or (or (or 0 1) 2) 4) t2" unfolding t1_def
    by (rule item_step(1) [OF keys(3) _ _ refl]) (use wf(2) text_contact_field [OF cl(2) wf(2)] in \<open>simp_all add: text_field_def\<close>)
  also have "\<dots> = item_loop ?i4 (or (or (or (or 0 1) 2) 4) 8) t3" unfolding t2_def
    by (rule item_step(1) [OF keys(4) _ _ refl]) (use number_contact_field(1) [OF e3 n(1,2)] in simp_all)
  also have "\<dots> = item_loop ?i5 (or (or (or (or (or 0 1) 2) 4) 8) 16) t4" unfolding t3_def
    by (rule item_step(1) [OF keys(5) _ _ refl]) (use wf(3) text_contact_field [OF cl(3,6)] in \<open>simp_all add: text_field_def\<close>)
  also have "\<dots> = item_loop ?i6 31 t5" unfolding t4_def seen_all
    by (rule item_step(1) [OF keys(6) _ _ refl]) (use number_contact_field(2) [OF e5 n(3)] n(5) in simp_all)
  also have "\<dots> = Inr ((?i6\<lparr>ram_gb := ram_gb c\<rparr>, 31), t6)" unfolding t5_def
    by (rule item_step(2) [OF keys(7) _ _ t6_def]) (use number_contact_field(3) [OF e6 n(4)] in simp_all)
  also have "?i6\<lparr>ram_gb := ram_gb c\<rparr> = c" by (simp add: no_contact_def)
  finally show ?thesis by (simp add: t6_def)
qed

lemma write_items_no_zero: "list_all contact_clean book \<Longrightarrow> CHR 0x00 \<notin> set (write_items book)"
  by (induction book rule: write_items.induct) (auto simp: write_contact_no_zero)

lemma write_contact_Cons: "write_contact c = CHR ''{'' # tl (write_contact c)"
  by (simp add: write_contact_def)

lemma read_item:
  assumes "contact_wf c" "contact_clean c" "CHR 0x00 \<notin> set rest" "length items < COUNCIL_MAX_CONTACTS"
  shows "rest = CHR '','' # t \<Longrightarrow> book_loop items (write_contact c @ rest) = book_loop (items @ [c]) t"
    "rest = CHR '']'' # t \<Longrightarrow> book_loop items (write_contact c @ rest) = Inr (items @ [c], rest)"
proof -
  have b: "\<not> c_isspace CHR ''{''" "\<not> c_isspace CHR '',''" "\<not> c_isspace CHR '']''" by (simp_all add: c_isspace_def)
  have w: "write_contact c @ rest = CHR ''{'' # tl (write_contact c) @ rest" by (subst write_contact_Cons) simp
  have a: "\<not> at CHR '']'' (skip_space (write_contact c @ rest))" "expect (write_contact c @ rest) CHR ''{'' = Inr (tl (write_contact c) @ rest)"
    unfolding w using b by (simp_all add: at_def skip_space_def expect_def)
  have "book_loop items (write_contact c @ rest) = (let q = skip_space rest
      in if at CHR '','' q then book_loop (items @ [c]) (tl q) else if at CHR '']'' q then Inr (items @ [c], q) else Inl q)"
    using read_contact [OF assms(1-3)] assms(4) by (simp add: book_loop.simps [of items "write_contact c @ rest"] a)
  then show "rest = CHR '','' # t \<Longrightarrow> book_loop items (write_contact c @ rest) = book_loop (items @ [c]) t"
    "rest = CHR '']'' # t \<Longrightarrow> book_loop items (write_contact c @ rest) = Inr (items @ [c], rest)"
    using b by (simp_all add: at_def skip_space_def)
qed

lemma read_items:
  "list_all contact_wf book \<Longrightarrow> list_all contact_clean book \<Longrightarrow> length items + length book \<le> COUNCIL_MAX_CONTACTS \<Longrightarrow>
   book_loop items (write_items book) = Inr (items @ book, '']'')"
proof (induction book arbitrary: items rule: write_items.induct)
  case 1
  show ?case by (simp add: book_loop.simps at_def skip_space_def c_isspace_def)
next
  case (2 c)
  then show ?case using read_item(2) [of c "'']''" items "[]"] by simp
next
  case (3 c d book)
  have "CHR 0x00 \<notin> set (CHR '','' # write_items (d # book))" using write_items_no_zero [of "d # book"] 3(3) by simp
  then have "book_loop items (write_contact c @ CHR '','' # write_items (d # book)) = book_loop (items @ [c]) (write_items (d # book))"
    using 3(2-4) by (intro read_item(1)) auto
  then show ?case using 3(1) [of "items @ [c]"] 3(2-4) by simp
qed

text \<open>C38: A contact book that is written as JSON is read back exactly, whatever quotes and backslashes its texts contain;
  and whatever file is read, a book that is accepted has at most 64 contacts, each with all five required
  fields, texts that fit their arrays, a port, and a priority and memory size in range.\<close>

theorem contact_book_roundtrip:
  "(book_wf book \<longrightarrow> list_all contact_clean book \<longrightarrow> contact_book_load path (Content (write_book book)) = Inr book) \<and>
   (contact_book_load path file = Inr loaded \<longrightarrow> book_wf loaded)"
proof (intro conjI impI)
  assume a: "book_wf book" "list_all contact_clean book"
  have z: "c_str (write_book book) = write_book book"
    using write_items_no_zero [OF a(2)] by (auto simp: c_str_def write_book_def takeWhile_eq_all_conv)
  have "expect (write_book book) CHR ''['' = Inr (write_items book)"
    by (simp add: expect_def skip_space_def at_def write_book_def c_isspace_def)
  moreover have "book_loop [] (write_items book) = Inr (book, '']'')"
    using read_items [of book "[]"] a by (simp add: book_wf_def)
  ultimately show "contact_book_load path (Content (write_book book)) = Inr book"
    by (simp add: contact_book_load_def z skip_space_def)
next
  assume "contact_book_load path file = Inr loaded"
  then show "book_wf loaded" by (rule contact_book_load_wf)
qed

definition ada :: contact where
  "ada = \<lparr>contact_name = ''ada'', role = CONTACT_HUMAN, host = ''10.0.0.2'', port = 4000, shared_key = [CHR ''k'', CHR 0x22],
     arbiter_priority = 0, ram_gb = 8\<rparr>"

definition eve :: contact where
  "eve = \<lparr>contact_name = ''eve'', role = CONTACT_AI, host = ''10.0.0.3'', port = 4001, shared_key = ''s3'',
     arbiter_priority = 5, ram_gb = 64\<rparr>"

theorem contact_book_roundtrip_witness:
  "contact_book_load ''contacts.json'' (Content (write_book [ada, eve])) = Inr [ada, eve] \<and> book_wf [ada, eve]"
proof -
  have w: "book_wf [ada, eve]"
    by (simp add: book_wf_def contact_wf_def ada_def eve_def COUNCIL_NAME_LENGTH_def COUNCIL_HOST_LENGTH_def
        COUNCIL_KEY_LENGTH_def COUNCIL_MAX_CONTACTS_def)
  have "list_all contact_clean [ada, eve]"
    by (simp add: contact_clean_def clean_text_def ada_def eve_def)
  then have "contact_book_load ''contacts.json'' (Content (write_book [ada, eve])) = Inr [ada, eve]"
    using contact_book_roundtrip [of "[ada, eve]" "''contacts.json''" NotOpened "[]"] w by blast
  then show ?thesis
    using contact_book_roundtrip [of "[]" "''contacts.json''" "Content (write_book [ada, eve])" "[ada, eve]"] by blast
qed

end
