(* ===== verification/Sha256.thy ===== *)
theory Sha256
  imports Noob_Prelude
begin

text \<open>
  The hash the Council authenticates with, \<open>src/council/src/sha256.c\<close>: the compression of one block, the
  incremental context that buffers its input, and the keyed hash. The incremental functions are shown
  to compute the hash of the padded message as the standard defines it, for every way of cutting the
  message into pieces.
\<close>

unbundle bit_operations_syntax

section \<open>One block\<close>

definition R :: "u32 \<Rightarrow> nat \<Rightarrow> u32" where
  "R x n = drop_bit n x OR push_bit (32 - n) x"

text \<open>The table, one list per row of the initialiser in the source.\<close>

definition sha_k :: "u32 list" where
  "sha_k = concat [
     [0x428a2f98, 0x71374491, 0xb5c0fbcf, 0xe9b5dba5, 0x3956c25b, 0x59f111f1, 0x923f82a4, 0xab1c5ed5],
     [0xd807aa98, 0x12835b01, 0x243185be, 0x550c7dc3, 0x72be5d74, 0x80deb1fe, 0x9bdc06a7, 0xc19bf174],
     [0xe49b69c1, 0xefbe4786, 0x0fc19dc6, 0x240ca1cc, 0x2de92c6f, 0x4a7484aa, 0x5cb0a9dc, 0x76f988da],
     [0x983e5152, 0xa831c66d, 0xb00327c8, 0xbf597fc7, 0xc6e00bf3, 0xd5a79147, 0x06ca6351, 0x14292967],
     [0x27b70a85, 0x2e1b2138, 0x4d2c6dfc, 0x53380d13, 0x650a7354, 0x766a0abb, 0x81c2c92e, 0x92722c85],
     [0xa2bfe8a1, 0xa81a664b, 0xc24b8b70, 0xc76c51a3, 0xd192e819, 0xd6990624, 0xf40e3585, 0x106aa070],
     [0x19a4c116, 0x1e376c08, 0x2748774c, 0x34b0bcb5, 0x391c0cb3, 0x4ed8aa4a, 0x5b9cca4f, 0x682e6ff3],
     [0x748f82ee, 0x78a5636f, 0x84c87814, 0x8cc70208, 0x90befffa, 0xa4506ceb, 0xbef9a3f7, 0xc67178f2]]"

record sha256_ctx =
  sha_h :: "u32 list"
  sha_bits :: "64 word"
  sha_buf :: "u8 list"
  sha_used :: nat

definition load_word :: "u8 list \<Rightarrow> nat \<Rightarrow> u32" where
  "load_word p i = push_bit 24 (ucast (p ! (i * 4))) OR push_bit 16 (ucast (p ! (i * 4 + 1))) OR
     push_bit 8 (ucast (p ! (i * 4 + 2))) OR ucast (p ! (i * 4 + 3))"

definition next_word :: "nat \<Rightarrow> u32 list \<Rightarrow> u32 list" where
  "next_word i w = (let x = w ! (i - 15); y = w ! (i - 2)
     in w @ [(R x 7 XOR R x 18 XOR drop_bit 3 x) + w ! (i - 16) + (R y 17 XOR R y 19 XOR drop_bit 10 y) + w ! (i - 7)])"

definition schedule :: "u8 list \<Rightarrow> u32 list" where
  "schedule p = fold next_word [16..<64] (map (load_word p) [0..<16])"

type_synonym regs = "u32 \<times> u32 \<times> u32 \<times> u32 \<times> u32 \<times> u32 \<times> u32 \<times> u32"

definition sha_round :: "u32 \<Rightarrow> u32 \<Rightarrow> regs \<Rightarrow> regs" where
  "sha_round ki wi = (\<lambda>(a, b, cc, d, e, f, g, h).
     let t1 = h + (R e 6 XOR R e 11 XOR R e 25) + ((e AND f) XOR ((NOT e) AND g)) + ki + wi;
         t2 = (R a 2 XOR R a 13 XOR R a 22) + ((a AND b) XOR (a AND cc) XOR (b AND cc))
     in (t1 + t2, a, b, cc, d + t1, e, f, g))"

definition compress :: "u32 list \<Rightarrow> u8 list \<Rightarrow> u32 list" where
  "compress h p = (let w = schedule p;
       (a, b, cc, d, e, f, g, hh) = fold (\<lambda>i. sha_round (sha_k ! i) (w ! i)) [0..<64]
         (h ! 0, h ! 1, h ! 2, h ! 3, h ! 4, h ! 5, h ! 6, h ! 7)
     in [h ! 0 + a, h ! 1 + b, h ! 2 + cc, h ! 3 + d, h ! 4 + e, h ! 5 + f, h ! 6 + g, h ! 7 + hh])"

definition sha_block :: "sha256_ctx \<Rightarrow> u8 list \<Rightarrow> sha256_ctx" where
  "sha_block c p = c\<lparr>sha_h := compress (sha_h c) p\<rparr>"

section \<open>The context\<close>

definition sha_h0 :: "u32 list" where
  "sha_h0 = [0x6a09e667,0xbb67ae85,0x3c6ef372,0xa54ff53a,0x510e527f,0x9b05688c,0x1f83d9ab,0x5be0cd19]"

text \<open>The buffer of a fresh context is not set; its content is the parameter.\<close>

definition sha256_init :: "u8 list \<Rightarrow> sha256_ctx" where
  "sha256_init garbage = \<lparr>sha_h = sha_h0, sha_bits = 0, sha_buf = garbage, sha_used = 0\<rparr>"

definition put_at :: "nat \<Rightarrow> 'a list \<Rightarrow> 'a list \<Rightarrow> 'a list" where
  "put_at k xs buffer = take k buffer @ xs @ drop (k + length xs) buffer"

function update_loop :: "sha256_ctx \<Rightarrow> u8 list \<Rightarrow> sha256_ctx option" where
  "update_loop c p =
     (if p = [] then Some c
      else if sha_used c > 64 then None
      else let z = min (64 - sha_used c) (length p);
               c = c\<lparr>sha_buf := put_at (sha_used c) (take z p) (sha_buf c), sha_used := sha_used c + z\<rparr>;
               c = (if sha_used c = 64 then (sha_block c (sha_buf c))\<lparr>sha_used := 0\<rparr> else c)
           in update_loop c (drop z p))"
  by pat_completeness auto
termination
  by (relation "measure (\<lambda>(c, p). 2 * length p + (if sha_used c = 64 then 1 else 0))")
    (auto simp: min_def sha_block_def)

declare update_loop.simps [simp del]

definition sha256_update :: "sha256_ctx \<Rightarrow> u8 list \<Rightarrow> sha256_ctx option" where
  "sha256_update c p = update_loop (c\<lparr>sha_bits := sha_bits c + of_nat (length p) * 8\<rparr>) p"

definition pad_to :: "nat \<Rightarrow> sha256_ctx \<Rightarrow> sha256_ctx" where
  "pad_to n c = c\<lparr>sha_buf := put_at (sha_used c) (replicate (n - sha_used c) 0) (sha_buf c), sha_used := max n (sha_used c)\<rparr>"

definition length_bytes :: "64 word \<Rightarrow> u8 list" where
  "length_bytes bits = map (\<lambda>i. ucast (drop_bit ((7 - i) * 8) bits)) [0..<8]"

definition word_bytes :: "u32 \<Rightarrow> u8 list" where
  "word_bytes w = [ucast (drop_bit 24 w), ucast (drop_bit 16 w), ucast (drop_bit 8 w), ucast w]"

definition sha256_final :: "sha256_ctx \<Rightarrow> u8 list" where
  "sha256_final c =
     (let c = c\<lparr>sha_buf := (sha_buf c)[sha_used c := 0x80], sha_used := sha_used c + 1\<rparr>;
          c = (if sha_used c > 56 then let c = pad_to 64 c in (sha_block c (sha_buf c))\<lparr>sha_used := 0\<rparr> else c);
          c = pad_to 56 c;
          c = c\<lparr>sha_buf := put_at 56 (length_bytes (sha_bits c)) (sha_buf c)\<rparr>;
          c = sha_block c (sha_buf c)
      in concat (map word_bytes (take 8 (sha_h c))))"

definition xor_key :: "u8 \<Rightarrow> u8 list \<Rightarrow> u8 list" where
  "xor_key x k = map (\<lambda>b. b XOR x) k"

definition hash_parts :: "u8 list \<Rightarrow> u8 list list \<Rightarrow> u8 list option" where
  "hash_parts garbage parts = map_option sha256_final
     (fold (\<lambda>p c. Option.bind c (\<lambda>c. sha256_update c p)) parts (Some (sha256_init garbage)))"

definition hmac_sha256 :: "u8 list \<Rightarrow> u8 list \<Rightarrow> u8 list \<Rightarrow> u8 list option" where
  "hmac_sha256 garbage key data =
     (case (if length key > 64 then map_option (\<lambda>d. d @ replicate 32 0) (hash_parts garbage [key])
            else Some (key @ replicate (64 - length key) 0)) of
        None \<Rightarrow> None
      | Some kb \<Rightarrow> (case hash_parts garbage [xor_key 0x36 kb, data] of
            None \<Rightarrow> None
          | Some inner \<Rightarrow> hash_parts garbage [xor_key 0x5c kb, inner]))"

section \<open>The standard\<close>

function hash_blocks :: "u32 list \<Rightarrow> u8 list \<Rightarrow> u32 list" where
  "hash_blocks h m = (if length m < 64 then h else hash_blocks (compress h (take 64 m)) (drop 64 m))"
  by pat_completeness auto
termination by (relation "measure (\<lambda>(h, m). length m)") auto

declare hash_blocks.simps [simp del]

definition sha_pad :: "u8 list \<Rightarrow> u8 list" where
  "sha_pad m = m @ 0x80 # replicate ((119 - length m mod 64) mod 64) 0 @ length_bytes (of_nat (length m) * 8)"

definition sha256 :: "u8 list \<Rightarrow> u8 list" where
  "sha256 m = concat (map word_bytes (hash_blocks sha_h0 (sha_pad m)))"

definition hmac :: "u8 list \<Rightarrow> u8 list \<Rightarrow> u8 list" where
  "hmac key data = (let k = (if length key > 64 then sha256 key else key); kb = k @ replicate (64 - length k) 0
     in sha256 (xor_key 0x5c kb @ sha256 (xor_key 0x36 kb @ data)))"

section \<open>The context holds the message\<close>

lemma hash_blocks_short: "length m < 64 \<Longrightarrow> hash_blocks h m = h"
  by (simp add: hash_blocks.simps)

lemma hash_blocks_step: "length b = 64 \<Longrightarrow> hash_blocks h (b @ m) = hash_blocks (compress h b) m"
  by (subst hash_blocks.simps) simp

lemma hash_blocks_append:
  "64 dvd length a \<Longrightarrow> hash_blocks h (a @ m) = hash_blocks (hash_blocks h a) m"
proof (induction "length a" arbitrary: a h rule: less_induct)
  case less
  show ?case
  proof (cases "a = []")
    case True
    then show ?thesis by (simp add: hash_blocks_short)
  next
    case False
    then have l: "64 \<le> length a" using less.prems by (auto intro: dvd_imp_le)
    have d: "64 dvd length (drop 64 a)" using less.prems l by (simp add: dvd_diff_nat)
    have "hash_blocks h (a @ m) = hash_blocks h (take 64 a @ drop 64 a @ m)"
      by (metis append.assoc append_take_drop_id)
    also have "\<dots> = hash_blocks (compress h (take 64 a)) (drop 64 a @ m)" using l by (intro hash_blocks_step) simp
    also have "\<dots> = hash_blocks (hash_blocks (compress h (take 64 a)) (drop 64 a)) m"
      using l d by (intro less.hyps) auto
    also have "hash_blocks (compress h (take 64 a)) (drop 64 a) = hash_blocks h a"
      using hash_blocks_step [of "take 64 a" h "drop 64 a"] l by simp
    finally show ?thesis .
  qed
qed

lemma compress_length [simp]: "length (compress h p) = 8"
  by (simp add: compress_def Let_def case_prod_unfold)

lemma hash_blocks_length: "length h = 8 \<Longrightarrow> length (hash_blocks h m) = 8"
proof (induction h m rule: hash_blocks.induct)
  case (1 h m)
  then show ?case by (subst hash_blocks.simps) auto
qed

definition holds :: "sha256_ctx \<Rightarrow> u8 list \<Rightarrow> bool" where
  "holds c m \<longleftrightarrow> (\<exists>whole part. m = whole @ part \<and> 64 dvd length whole \<and> length part < 64 \<and>
     sha_used c = length part \<and> take (length part) (sha_buf c) = part \<and> length (sha_buf c) = 64 \<and>
     sha_h c = hash_blocks sha_h0 whole)"

lemma put_at_simps:
  "k + length xs \<le> length b \<Longrightarrow> length (put_at k xs b) = length b"
  "k + length xs \<le> length b \<Longrightarrow> take (k + length xs) (put_at k xs b) = take k b @ xs"
  by (simp_all add: put_at_def)

lemma update_loop_holds:
  "holds c m \<Longrightarrow> \<exists>c'. update_loop c p = Some c' \<and> holds c' (m @ p) \<and> sha_bits c' = sha_bits c"
proof (induction c p arbitrary: m rule: update_loop.induct)
  case (1 c p)
  show ?case
  proof (cases "p = []")
    case True
    then show ?thesis using 1(2) by (simp add: update_loop.simps)
  next
    case False
    obtain whole part where h: "m = whole @ part" "64 dvd length whole" "length part < 64"
      "sha_used c = length part" "take (length part) (sha_buf c) = part" "length (sha_buf c) = 64"
      "sha_h c = hash_blocks sha_h0 whole" using 1(2) by (auto simp: holds_def)
    define z where "z = min (64 - sha_used c) (length p)"
    define c1 where "c1 = c\<lparr>sha_buf := put_at (sha_used c) (take z p) (sha_buf c), sha_used := sha_used c + z\<rparr>"
    define c2 where "c2 = (if sha_used c1 = 64 then (sha_block c1 (sha_buf c1))\<lparr>sha_used := 0\<rparr> else c1)"
    have z: "length (take z p) = z" "length part + z \<le> 64" using h(3,4) by (auto simp: z_def)
    have b: "take (length part + z) (sha_buf c1) = part @ take z p" "length (sha_buf c1) = 64"
      using put_at_simps [of "length part" "take z p" "sha_buf c"] z h(4-6) by (simp_all add: c1_def)
    have u: "sha_used c1 = length part + z" "sha_h c1 = sha_h c" "sha_bits c1 = sha_bits c" using h(4) by (simp_all add: c1_def)
    have hold: "holds c2 (m @ take z p)"
    proof (cases "length part + z = 64")
      case True
      then have all: "sha_buf c1 = part @ take z p" using b by simp
      have "hash_blocks sha_h0 (whole @ part @ take z p) = compress (hash_blocks sha_h0 whole) (part @ take z p)"
        using hash_blocks_append [OF h(2), of sha_h0 "part @ take z p"] hash_blocks_step [of "part @ take z p" _ "[]"] True z(1)
        by (simp add: hash_blocks_short)
      moreover have "64 dvd length (whole @ part @ take z p)" using h(2) True z(1) by simp
      ultimately show ?thesis unfolding holds_def using True u all h(1,7) b(2)
        by (intro exI [of _ "whole @ part @ take z p"] exI [of _ "[]"]) (simp add: c2_def sha_block_def)
    next
      case False
      then show ?thesis unfolding holds_def using z u h(1,2,7) b
        by (intro exI [of _ whole] exI [of _ "part @ take z p"]) (simp add: c2_def)
    qed
    have bits: "sha_bits c2 = sha_bits c" using u(3) by (simp add: c2_def sha_block_def)
    have "\<not> 64 < sha_used c" using h(3,4) by simp
    then obtain c' where "update_loop c2 (drop z p) = Some c'" "holds c' ((m @ take z p) @ drop z p)" "sha_bits c' = sha_bits c2"
      using 1(1) [OF False _ z_def c1_def c2_def hold] by blast
    moreover have "update_loop c p = update_loop c2 (drop z p)"
      unfolding update_loop.simps [of c p] Let_def z_def [symmetric] c1_def [symmetric] c2_def [symmetric]
      using False \<open>\<not> 64 < sha_used c\<close> by simp
    ultimately show ?thesis using bits by simp
  qed
qed

section \<open>Finishing\<close>

lemma holds_init: "length garbage = 64 \<Longrightarrow> holds (sha256_init garbage) []"
  by (auto simp: holds_def sha256_init_def hash_blocks_short)

definition tracks :: "sha256_ctx \<Rightarrow> u8 list \<Rightarrow> bool" where
  "tracks c m \<longleftrightarrow> holds c m \<and> sha_bits c = of_nat (length m) * 8"

lemma update_tracks:
  assumes "tracks c m"
  shows "\<exists>c'. sha256_update c p = Some c' \<and> tracks c' (m @ p)"
proof -
  let ?c = "c\<lparr>sha_bits := sha_bits c + of_nat (length p) * 8\<rparr>"
  have "holds ?c m" using assms by (simp add: tracks_def holds_def)
  from update_loop_holds [OF this, of p] show ?thesis using assms
    by (auto simp: sha256_update_def tracks_def algebra_simps)
qed

lemma length_bytes_length [simp]: "length (length_bytes b) = 8"
  by (simp add: length_bytes_def)

lemma pad_to_buf:
  assumes "sha_used c \<le> n" "n \<le> 64" "length (sha_buf c) = 64"
  shows "take n (sha_buf (pad_to n c)) = take (sha_used c) (sha_buf c) @ replicate (n - sha_used c) 0"
    "length (sha_buf (pad_to n c)) = 64" "sha_used (pad_to n c) = n" "sha_h (pad_to n c) = sha_h c"
    "sha_bits (pad_to n c) = sha_bits c"
  using put_at_simps [of "sha_used c" "replicate (n - sha_used c) (0 :: u8)" "sha_buf c"] assms
  by (simp_all add: pad_to_def)

lemma pad_short: "length part \<le> 55 \<Longrightarrow> 64 dvd length whole \<Longrightarrow>
   sha_pad (whole @ part) = whole @ part @ 0x80 # replicate (55 - length part) 0 @ length_bytes (of_nat (length (whole @ part)) * 8)"
proof -
  assume a: "length part \<le> 55" "64 dvd length whole"
  have "length (whole @ part) mod 64 = length part" using a by (auto elim!: dvdE)
  moreover have "(119 - length part) mod 64 = 55 - length part" using a(1) by (simp add: le_mod_geq)
  ultimately show ?thesis unfolding sha_pad_def by simp
qed

lemma pad_long: "55 < length part \<Longrightarrow> length part < 64 \<Longrightarrow> 64 dvd length whole \<Longrightarrow>
   sha_pad (whole @ part) = whole @ (part @ 0x80 # replicate (63 - length part) 0) @ replicate 56 0 @
     length_bytes (of_nat (length (whole @ part)) * 8)"
proof -
  assume a: "55 < length part" "length part < 64" "64 dvd length whole"
  have m: "length (whole @ part) mod 64 = length part" using a by (auto elim!: dvdE)
  have k: "(119 - length part) mod 64 = 63 - length part + 56" using a(1,2) by simp
  have "replicate ((119 - length part) mod 64) (0 :: u8) = replicate (63 - length part) 0 @ replicate 56 0"
    by (simp only: k replicate_add)
  then show ?thesis unfolding sha_pad_def m by simp
qed

lemma final_block:
  assumes "take 56 (sha_buf c) = front" "length (sha_buf c) = 64"
  shows "put_at 56 (length_bytes b) (sha_buf c) = front @ length_bytes b"
  using assms by (simp add: put_at_def)

lemma final_tracks:
  assumes "tracks c m"
  shows "sha256_final c = sha256 m"
proof -
  obtain whole part where h: "m = whole @ part" "64 dvd length whole" "length part < 64"
    "sha_used c = length part" "take (length part) (sha_buf c) = part" "length (sha_buf c) = 64"
    "sha_h c = hash_blocks sha_h0 whole" using assms by (auto simp: tracks_def holds_def)
  have bits: "sha_bits c = of_nat (length m) * 8" using assms by (simp add: tracks_def)
  define c1 where "c1 = c\<lparr>sha_buf := (sha_buf c)[sha_used c := 0x80], sha_used := sha_used c + 1\<rparr>"
  have c1: "take (length part + 1) (sha_buf c1) = part @ [0x80]" "length (sha_buf c1) = 64" "sha_used c1 = length part + 1"
    "sha_h c1 = sha_h c" "sha_bits c1 = sha_bits c"
    using h(3-6) by (simp_all add: c1_def take_Suc_conv_app_nth take_update_swap)
  define c2 where "c2 = (if sha_used c1 > 56 then (sha_block (pad_to 64 c1) (sha_buf (pad_to 64 c1)))\<lparr>sha_used := 0\<rparr> else c1)"
  define c3 where "c3 = pad_to 56 c2"
  have len8: "length (hash_blocks sha_h0 x) = 8" for x by (rule hash_blocks_length) (simp add: sha_h0_def)
  have fin: "sha256_final c = concat (map word_bytes (compress (sha_h c3) (put_at 56 (length_bytes (sha_bits c3)) (sha_buf c3))))"
    unfolding sha256_final_def Let_def c1_def [symmetric] c2_def [symmetric] c3_def [symmetric] by (simp add: sha_block_def)
  show ?thesis
  proof (cases "length part \<le> 55")
    case True
    then have c2: "c2 = c1" using c1(3) by (simp add: c2_def)
    have p: "take 56 (sha_buf c3) = part @ 0x80 # replicate (55 - length part) 0" "length (sha_buf c3) = 64"
      "sha_h c3 = sha_h c" "sha_bits c3 = sha_bits c"
      using pad_to_buf [of c1 56] c1 True unfolding c3_def c2 by simp_all
    have "hash_blocks sha_h0 (sha_pad m) = compress (hash_blocks sha_h0 whole)
        (part @ 0x80 # replicate (55 - length part) 0 @ length_bytes (of_nat (length m) * 8))"
      unfolding h(1) pad_short [OF True h(2)] hash_blocks_append [OF h(2)]
      using hash_blocks_step [of "part @ 0x80 # replicate (55 - length part) 0 @ length_bytes (of_nat (length (whole @ part)) * 8)"
          "hash_blocks sha_h0 whole" "[]"] True by (simp add: hash_blocks_short)
    then show ?thesis unfolding fin final_block [OF p(1,2)] p(3,4) h(7) bits sha256_def by simp
  next
    case False
    let ?b = "part @ 0x80 # replicate (63 - length part) 0"
    let ?e = "replicate 56 0 @ length_bytes (of_nat (length m) * 8)"
    have full: "sha_buf (pad_to 64 c1) = ?b"
      using pad_to_buf(1,2) [of c1 64] c1 False h(3) by simp
    have c2: "c2 = (pad_to 64 c1)\<lparr>sha_h := compress (sha_h c) ?b, sha_used := 0\<rparr>"
      using False c1(3,4) pad_to_buf(4) [of c1 64] c1(2) h(3) by (simp add: c2_def sha_block_def full)
    have c2': "sha_used c2 = 0" "length (sha_buf c2) = 64" "sha_h c2 = compress (sha_h c) ?b" "sha_bits c2 = sha_bits c"
      using pad_to_buf(2,5) [of c1 64] c1 h(3) by (simp_all add: c2)
    have p: "take 56 (sha_buf c3) = replicate 56 0" "length (sha_buf c3) = 64"
      "sha_h c3 = compress (sha_h c) ?b" "sha_bits c3 = sha_bits c"
      using pad_to_buf [of c2 56] c2' unfolding c3_def by simp_all
    have l: "length ?b = 64" "length ?e = 64" using False h(3) by simp_all
    have "sha_pad m = whole @ ?b @ ?e @ []"
      using pad_long [OF _ h(3,2)] False unfolding h(1) by simp
    then have "hash_blocks sha_h0 (sha_pad m) = compress (compress (hash_blocks sha_h0 whole) ?b) ?e"
      by (simp only: hash_blocks_append [OF h(2)] hash_blocks_step [OF l(1)] hash_blocks_step [OF l(2)]) (simp add: hash_blocks_short)
    then show ?thesis unfolding fin final_block [OF p(1,2)] p(3,4) h(7) bits sha256_def by simp
  qed
qed

lemma updates_track:
  "tracks c m \<Longrightarrow> \<exists>c'. fold (\<lambda>p c. Option.bind c (\<lambda>c. sha256_update c p)) parts (Some c) = Some c' \<and> tracks c' (m @ concat parts)"
proof (induction parts arbitrary: c m)
  case Nil
  then show ?case by simp
next
  case (Cons p parts)
  obtain c1 where c1: "sha256_update c p = Some c1" "tracks c1 (m @ p)" using update_tracks [OF Cons.prems] by blast
  from Cons.IH [OF c1(2)] show ?case by (simp add: c1(1))
qed

lemma hash_parts_sha256: "length garbage = 64 \<Longrightarrow> hash_parts garbage parts = Some (sha256 (concat parts))"
proof -
  assume "length garbage = 64"
  then have "tracks (sha256_init garbage) []" by (simp add: tracks_def holds_init) (simp add: sha256_init_def)
  from updates_track [OF this, of parts] show ?thesis using final_tracks by (auto simp: hash_parts_def)
qed

lemma sha256_length: "length (sha256 m) = 32"
proof -
  have "length (hash_blocks sha_h0 (sha_pad m)) = 8" by (rule hash_blocks_length) (simp add: sha_h0_def)
  moreover have "length (concat (map word_bytes hs)) = 4 * length hs" for hs
    by (induction hs) (simp_all add: word_bytes_def)
  ultimately show ?thesis by (simp add: sha256_def)
qed

text \<open>C28: The incremental hash is the hash of the standard: whatever pieces a message is fed in, and whatever the buffer of
  the fresh context held, no access leaves the buffer and the result is the compression of the padded
  message; the keyed hash is the standard's construction over it.\<close>

theorem sha256_incremental:
  "length garbage = 64 \<Longrightarrow> hash_parts garbage parts = Some (sha256 (concat parts)) \<and>
     hmac_sha256 garbage key data = Some (hmac key data)"
proof
  assume g: "length garbage = 64"
  then show "hash_parts garbage parts = Some (sha256 (concat parts))" by (rule hash_parts_sha256)
  show "hmac_sha256 garbage key data = Some (hmac key data)"
    by (simp add: hmac_sha256_def hmac_def hash_parts_sha256 [OF g] sha256_length Let_def)
qed

definition text_bytes :: "string \<Rightarrow> u8 list" where
  "text_bytes s = map of_char s"

text \<open>The test vector of the standard.\<close>

lemma sha256_abc: "sha256 (text_bytes ''abc'') =
  [0xba,0x78,0x16,0xbf,0x8f,0x01,0xcf,0xea,0x41,0x41,0x40,0xde,0x5d,0xae,0x22,0x23,
   0xb0,0x03,0x61,0xa3,0x96,0x17,0x7a,0x9c,0xb4,0x10,0xff,0x61,0xf2,0x00,0x15,0xad]"
  by code_simp

theorem sha256_incremental_witness:
  "hash_parts (replicate 64 0xff) [text_bytes ''a'', text_bytes ''bc''] = Some
  [0xba,0x78,0x16,0xbf,0x8f,0x01,0xcf,0xea,0x41,0x41,0x40,0xde,0x5d,0xae,0x22,0x23,
   0xb0,0x03,0x61,0xa3,0x96,0x17,0x7a,0x9c,0xb4,0x10,0xff,0x61,0xf2,0x00,0x15,0xad]"
proof -
  have "length (replicate 64 (0xff :: u8)) = 64" by simp
  from sha256_incremental [OF this, of "[text_bytes ''a'', text_bytes ''bc'']" "[]" "[]"]
  have "hash_parts (replicate 64 0xff) [text_bytes ''a'', text_bytes ''bc''] = Some (sha256 (text_bytes ''abc''))"
    by (simp add: text_bytes_def)
  then show ?thesis by (simp only: sha256_abc)
qed

end
