(* ===== verification/Council_Auth.thy ===== *)
theory Council_Auth
  imports Council_Book Sha256
begin

text \<open>
  Identities of the Council: \<open>src/council/src/authentication.c\<close> and \<open>src/council/src/protocol.c\<close>, with the line functions of
  \<open>network.c\<close>. A connection is the bytes the peer sends before it closes, the lines sent to it, and which sends
  succeed. The random bytes of the operating system are an argument.
\<close>

section \<open>Connections\<close>

record Conn =
  incoming :: string
  outgoing :: "string list"
  send_plan :: "bool list"

definition COUNCIL_MESSAGE_LENGTH :: nat where "COUNCIL_MESSAGE_LENGTH = 8192"

definition network_send :: "string \<Rightarrow> Conn \<Rightarrow> bool \<times> Conn" where
  "network_send d c =
     (if send_plan c = [] \<or> hd (send_plan c)
      then (True, c\<lparr>outgoing := outgoing c @ [d], send_plan := tl (send_plan c)\<rparr>)
      else (False, c\<lparr>send_plan := tl (send_plan c)\<rparr>))"

fun read_line_loop :: "nat \<Rightarrow> string \<Rightarrow> string \<Rightarrow> string option \<times> string" where
  "read_line_loop n b [] = (None, [])"
| "read_line_loop n b (x # rest) =
     (if \<not> length b + 1 < n then (None, x # rest)
      else if x = CHR 0x0A then (Some b, rest)
      else read_line_loop n (if x \<noteq> CHR 0x0D then b @ [x] else b) rest)"

text \<open>A zero byte ends the text that the caller sees.\<close>

definition network_read_line :: "nat \<Rightarrow> Conn \<Rightarrow> string option \<times> Conn" where
  "network_read_line n c = (let (r, rest) = read_line_loop n [] (incoming c)
     in (map_option c_str r, c\<lparr>incoming := rest\<rparr>))"

section \<open>Digests\<close>

definition hex_of_bytes :: "u8 list \<Rightarrow> string" where
  "hex_of_bytes bs = concat (map (\<lambda>b. hex_byte (unat b)) bs)"

text \<open>Without random bytes the buffer keeps what it held, and the caller does not look at the result.\<close>

definition authentication_nonce :: "u8 list option \<Rightarrow> string \<Rightarrow> string" where
  "authentication_nonce random garbage = (case random of None \<Rightarrow> garbage | Some bytes \<Rightarrow> hex_of_bytes (take 16 bytes))"

definition authentication_digest :: "string \<Rightarrow> string \<Rightarrow> string \<Rightarrow> string" where
  "authentication_digest k n x =
     hex_of_bytes (the (hmac_sha256 (replicate 64 0) (text_bytes k) (text_bytes (take 255 (n @ ''|'' @ x)))))"

definition authentication_matches :: "string \<Rightarrow> string \<Rightarrow> bool" where
  "authentication_matches a b = (length a = length b \<and>
     fold (\<lambda>i d. or d (xor (of_char (a ! i)) (of_char (b ! i)))) [0..<length a] (0 :: u8) = 0)"

section \<open>Identities\<close>

definition parse_auth :: "string \<Rightarrow> (string \<times> string) option" where
  "parse_auth line = (case scan_literal ''AUTH'' line of None \<Rightarrow> None
     | Some rest \<Rightarrow> (case scan_s 63 rest of None \<Rightarrow> None
         | Some (name, rest) \<Rightarrow> (case scan_s 64 rest of None \<Rightarrow> None
             | Some (given, _) \<Rightarrow> Some (name, given))))"

definition protocol_accept_identity :: "string \<Rightarrow> contact_book \<Rightarrow> contact_role \<Rightarrow> Conn \<Rightarrow> nat option \<times> Conn" where
  "protocol_accept_identity nonce book expected c =
     (case network_send (''NONCE '' @ nonce @ [CHR 0x0A]) c of
        (False, c) \<Rightarrow> (None, c)
      | (True, c) \<Rightarrow> (case network_read_line COUNCIL_MESSAGE_LENGTH c of
            (None, c) \<Rightarrow> (None, c)
          | (Some line, c) \<Rightarrow> (case parse_auth line of
                None \<Rightarrow> (None, c)
              | Some (name, given) \<Rightarrow> (case contact_book_find book name of
                    None \<Rightarrow> (None, snd (network_send (''ERROR IDENTITY'' @ [CHR 0x0A]) c))
                  | Some i \<Rightarrow>
                      if role (book ! i) \<noteq> expected
                      then (None, snd (network_send (''ERROR IDENTITY'' @ [CHR 0x0A]) c))
                      else if \<not> authentication_matches given (authentication_digest (shared_key (book ! i)) name nonce)
                      then (None, snd (network_send (''ERROR AUTHENTICATION'' @ [CHR 0x0A]) c))
                      else (case network_send (''OK'' @ [CHR 0x0A]) c of
                          (False, c) \<Rightarrow> (None, c)
                        | (True, c) \<Rightarrow> (Some i, c))))))"

text \<open>The client on a connection that was made; the result says whether the connection is kept.\<close>

definition protocol_connect_identity :: "string \<Rightarrow> string \<Rightarrow> Conn \<Rightarrow> bool \<times> Conn" where
  "protocol_connect_identity key local_name c = (case network_read_line COUNCIL_MESSAGE_LENGTH c of
       (None, c) \<Rightarrow> (False, c)
     | (Some line, c) \<Rightarrow>
         if \<not> starts_with ''NONCE '' line then (False, c)
         else let digest = authentication_digest key local_name (drop 6 line)
              in case network_send (take (COUNCIL_MESSAGE_LENGTH - 1) (''AUTH '' @ local_name @ '' '' @ digest @ [CHR 0x0A])) c of
                   (False, c) \<Rightarrow> (False, c)
                 | (True, c) \<Rightarrow> (case network_read_line COUNCIL_MESSAGE_LENGTH c of
                       (None, c) \<Rightarrow> (False, c)
                     | (Some line, c) \<Rightarrow> (line = ''OK'', c)))"

definition protocol_send_command :: "string \<Rightarrow> string \<Rightarrow> string \<Rightarrow> nat \<Rightarrow> Conn option \<Rightarrow> string option \<times> Conn option" where
  "protocol_send_command key local_name command reply_size connection =
     (if CHR 0x0A \<in> set command \<or> CHR 0x0D \<in> set command then (None, connection)
      else case connection of None \<Rightarrow> (None, None)
        | Some c \<Rightarrow> (case protocol_connect_identity key local_name c of
            (False, c) \<Rightarrow> (None, Some c)
          | (True, c) \<Rightarrow> (case network_send (take (COUNCIL_MESSAGE_LENGTH - 1) (command @ [CHR 0x0A])) c of
                (False, c) \<Rightarrow> (None, Some c)
              | (True, c) \<Rightarrow> (case network_read_line reply_size c of (r, c) \<Rightarrow> (r, Some c)))))"

definition presence_check :: "string \<Rightarrow> string \<Rightarrow> Conn option \<Rightarrow> bool" where
  "presence_check key local_name connection = (fst (protocol_send_command key local_name ''PING'' 64 connection) = Some ''PONG'')"

section \<open>Comparing digests\<close>

lemma or_fold_zero: "fold (\<lambda>i d. or d (f i)) xs (d :: u8) = 0 \<longleftrightarrow> d = 0 \<and> (\<forall>i \<in> set xs. f i = 0)"
proof (induction xs arbitrary: d)
  case (Cons x xs)
  have "or d (f x) = 0 \<longleftrightarrow> d = 0 \<and> f x = 0"
    by (rule or_eq_0_iff)
  then show ?case using Cons by auto
qed simp

lemma of_char_u8_inj: "(of_char c :: u8) = of_char d \<longleftrightarrow> c = d"
proof
  assume "(of_char c :: u8) = of_char d"
  then have "unat (of_char c :: u8) = unat (of_char d :: u8)" by simp
  moreover have "unat (of_char e :: u8) = of_char e" for e
  proof -
    have "unat (of_nat (of_char e) :: u8) = of_char e" by (simp only: unat_of_nat) simp
    then show ?thesis by (simp only: of_nat_of_char)
  qed
  ultimately have "(of_char c :: nat) = of_char d" by simp
  then show "c = d" by simp
qed simp

lemma xor_zero: "xor a b = 0 \<longleftrightarrow> a = (b :: u8)"
proof
  assume a: "xor a b = 0"
  have "a = xor (xor a b) b" by (simp only: xor.assoc xor_self_eq xor.right_neutral)
  then show "a = b" by (simp only: a xor.left_neutral)
qed simp

text \<open>The loop over all bytes is equality.\<close>

lemma matches_eq: "authentication_matches a b \<longleftrightarrow> a = b"
proof -
  have "xor (of_char c :: u8) (of_char d) = 0 \<longleftrightarrow> c = d" for c d
    by (simp only: xor_zero of_char_u8_inj)
  then have "authentication_matches a b \<longleftrightarrow> length a = length b \<and> (\<forall>i < length a. a ! i = b ! i)"
    unfolding authentication_matches_def or_fold_zero by (simp add: Ball_def del: of_char_eq_iff)
  then show ?thesis unfolding list_eq_iff_nth_eq .
qed
section \<open>Texts of the handshake\<close>

definition word_text :: "string \<Rightarrow> bool" where
  "word_text s \<longleftrightarrow> (\<forall>c \<in> set s. \<not> c_isspace c \<and> c \<noteq> CHR 0x00)"

lemma word_text_blank_free: "word_text s \<Longrightarrow> blank_free s"
  by (simp add: word_text_def blank_free_def)

lemma hex_of_bytes_text: "word_text (hex_of_bytes bs)" "length (hex_of_bytes bs) = 2 * length bs"
proof -
  have n: "\<not> c_isspace (hex_digit k) \<and> hex_digit k \<noteq> CHR 0x00" if "k < 16" for k using hex_digit_clean [OF that] .
  have "unat (b :: u8) div 16 < 16" for b
  proof -
    have "unat b < 256" using unsigned_less [of b] by simp
    then show ?thesis by simp
  qed
  then show "word_text (hex_of_bytes bs)" using n by (auto simp: word_text_def hex_of_bytes_def hex_byte_def)
  show "length (hex_of_bytes bs) = 2 * length bs" by (induction bs) (simp_all add: hex_of_bytes_def hex_byte_def)
qed

lemma digest_text: "word_text (authentication_digest k n x)" "length (authentication_digest k n x) = 64"
proof -
  show "word_text (authentication_digest k n x)" by (simp add: authentication_digest_def hex_of_bytes_text)
  have "hmac_sha256 (replicate 64 0) a b = Some (hmac a b)" for a b
    by (simp add: hmac_sha256_def hmac_def hash_parts_sha256 sha256_length Let_def)
  then show "length (authentication_digest k n x) = 64"
    by (simp add: authentication_digest_def hex_of_bytes_text hmac_def Let_def sha256_length)
qed

definition line_text :: "string \<Rightarrow> bool" where
  "line_text s \<longleftrightarrow> (\<forall>c \<in> set s. c \<noteq> CHR 0x0A \<and> c \<noteq> CHR 0x0D \<and> c \<noteq> CHR 0x00)"

lemma word_line_text: "word_text s \<Longrightarrow> line_text s"
proof -
  have "c_isspace CHR 0x0A" "c_isspace CHR 0x0D" by (simp_all add: c_isspace_def)
  then show "word_text s \<Longrightarrow> line_text s" unfolding word_text_def line_text_def by blast
qed

lemma line_text_simps [simp]: "line_text []" "line_text (c # s) \<longleftrightarrow> c \<noteq> CHR 0x0A \<and> c \<noteq> CHR 0x0D \<and> c \<noteq> CHR 0x00 \<and> line_text s"
  "line_text (s @ t) \<longleftrightarrow> line_text s \<and> line_text t"
  by (auto simp: line_text_def)

lemma read_line_loop_line:
  "line_text s \<Longrightarrow> length b + length s + 1 < n \<Longrightarrow> read_line_loop n b (s @ CHR 0x0A # rest) = (Some (b @ s), rest)"
  by (induction s arbitrary: b) auto

lemma line_text_c_str: "line_text s \<Longrightarrow> c_str s = s"
  by (auto simp: line_text_def c_str_def takeWhile_eq_all_conv)

lemma read_line_line:
  "line_text s \<Longrightarrow> length s + 1 < n \<Longrightarrow> incoming c = s @ CHR 0x0A # rest \<Longrightarrow>
   network_read_line n c = (Some s, c\<lparr>incoming := rest\<rparr>)"
  using read_line_loop_line [of s "[]" n rest] by (simp add: network_read_line_def line_text_c_str)

definition auth_line :: "string \<Rightarrow> string \<Rightarrow> string \<Rightarrow> string" where
  "auth_line key name nonce = ''AUTH '' @ name @ '' '' @ authentication_digest key name nonce"

definition identity_name :: "string \<Rightarrow> bool" where
  "identity_name name \<longleftrightarrow> name \<noteq> [] \<and> length name < COUNCIL_NAME_LENGTH \<and> word_text name"

lemma auth_line_text:
  assumes "identity_name name"
  shows "line_text (auth_line key name nonce)" "length (auth_line key name nonce) < 200"
    "parse_auth (auth_line key name nonce) = Some (name, authentication_digest key name nonce)"
proof -
  note n = assms [unfolded identity_name_def COUNCIL_NAME_LENGTH_def] and d = digest_text [of key name nonce]
  show "line_text (auth_line key name nonce)" using n d by (simp add: auth_line_def word_line_text)
  show "length (auth_line key name nonce) < 200" using n d by (simp add: auth_line_def)
  have d0: "authentication_digest key name nonce \<noteq> []" using d(2) by auto
  have s1: "scan_s 63 (CHR '' '' # name @ CHR '' '' # authentication_digest key name nonce) =
      Some (name, CHR '' '' # authentication_digest key name nonce)"
    using n by (intro scan_s_word(2)) (auto simp: word_text_blank_free)
  have s2: "scan_s 64 (CHR '' '' # authentication_digest key name nonce) = Some (authentication_digest key name nonce, [])"
    using scan_s_word(2) [OF word_text_blank_free [OF d(1)] d0, of 64 "[]"] d(2) by simp
  show "parse_auth (auth_line key name nonce) = Some (name, authentication_digest key name nonce)"
    by (simp add: parse_auth_def auth_line_def scan_literal_def starts_with_def s1 s2)
qed

lemma find_contact: "contact_book_find book name = Some i \<Longrightarrow> i < length book \<and> contact_name (book ! i) = name"
  by (auto simp: contact_book_find_def find_Some_iff)

section \<open>Authentication\<close>

text \<open>The server accepts an identity only from a peer that answered its challenge: the accepted contact is in the book, has
  the role of the listener, is the one the peer named, and the peer sent the keyed hash of its name and this
  connection's nonce under that contact's key.\<close>

lemma identity_proved:
  assumes "protocol_accept_identity nonce book expected c = (Some i, c')"
  shows "\<exists>line rest. read_line_loop COUNCIL_MESSAGE_LENGTH [] (incoming c) = (Some line, rest) \<and> i < length book \<and>
    role (book ! i) = expected \<and>
    parse_auth (c_str line) = Some (contact_name (book ! i),
      authentication_digest (shared_key (book ! i)) (contact_name (book ! i)) nonce)"
proof -
  obtain c1 where c1: "network_send (''NONCE '' @ nonce @ [CHR 0x0A]) c = (True, c1)" "incoming c1 = incoming c"
    using assms by (auto simp: protocol_accept_identity_def network_send_def split: if_splits)
  obtain line rest where l: "read_line_loop COUNCIL_MESSAGE_LENGTH [] (incoming c) = (Some line, rest)"
    using assms c1 by (cases "read_line_loop COUNCIL_MESSAGE_LENGTH [] (incoming c)")
      (auto simp: protocol_accept_identity_def network_read_line_def split: option.splits)
  have r: "network_read_line COUNCIL_MESSAGE_LENGTH c1 = (Some (c_str line), c1\<lparr>incoming := rest\<rparr>)"
    using l c1(2) by (simp add: network_read_line_def)
  obtain name given where p: "parse_auth (c_str line) = Some (name, given)"
    using assms c1 r by (cases "parse_auth (c_str line)") (auto simp: protocol_accept_identity_def)
  obtain j where j: "contact_book_find book name = Some j"
    using assms c1 r p by (cases "contact_book_find book name") (auto simp: protocol_accept_identity_def)
  have "role (book ! j) = expected" "authentication_matches given (authentication_digest (shared_key (book ! j)) name nonce)" "i = j"
    using assms c1 r p j by (auto simp: protocol_accept_identity_def split: if_splits prod.splits bool.splits)
  then show ?thesis using l p find_contact [OF j] by (auto simp: matches_eq)
qed

definition nonce_line :: "string \<Rightarrow> string" where
  "nonce_line nonce = ''NONCE '' @ nonce @ [CHR 0x0A]"

definition ok_line :: string where
  "ok_line = ''OK'' @ [CHR 0x0A]"

lemma accept_answer:
  assumes "identity_name name" "contact_book_find book name = Some i" "send_plan c = []"
    and "incoming c = auth_line (shared_key (book ! i)) name nonce @ CHR 0x0A # rest"
  shows "protocol_accept_identity nonce book (role (book ! i)) c =
    (Some i, c\<lparr>incoming := rest, outgoing := outgoing c @ [nonce_line nonce, ok_line]\<rparr>)"
proof -
  let ?line = "auth_line (shared_key (book ! i)) name nonce"
  let ?c = "c\<lparr>outgoing := outgoing c @ [nonce_line nonce]\<rparr>"
  have s: "network_send (''NONCE '' @ nonce @ [CHR 0x0A]) c = (True, ?c)"
    using assms(3) by (simp add: network_send_def nonce_line_def)
  have r: "network_read_line COUNCIL_MESSAGE_LENGTH ?c = (Some ?line, ?c\<lparr>incoming := rest\<rparr>)"
    by (rule read_line_line)
      (use auth_line_text(1,2) [OF assms(1), of "shared_key (book ! i)" nonce] assms(4) in
        \<open>simp_all add: COUNCIL_MESSAGE_LENGTH_def\<close>)
  have o: "network_send (''OK'' @ [CHR 0x0A]) (?c\<lparr>incoming := rest\<rparr>) =
      (True, c\<lparr>incoming := rest, outgoing := outgoing c @ [nonce_line nonce, ok_line]\<rparr>)"
    using assms(3) by (simp add: network_send_def ok_line_def)
  show ?thesis unfolding protocol_accept_identity_def s prod.case bool.case r option.case
    using auth_line_text(3) [OF assms(1)] assms(2) o by (simp add: matches_eq)
qed

lemma connect_answer:
  assumes "identity_name name" "line_text nonce" "length nonce < 100" "send_plan c = []"
    and "incoming c = nonce_line nonce @ ok_line @ rest"
  shows "protocol_connect_identity key name c =
    (True, c\<lparr>incoming := rest, outgoing := outgoing c @ [auth_line key name nonce @ [CHR 0x0A]]\<rparr>)"
proof -
  let ?c = "c\<lparr>incoming := ok_line @ rest\<rparr>"
  have r: "network_read_line COUNCIL_MESSAGE_LENGTH c = (Some (''NONCE '' @ nonce), ?c)"
    by (rule read_line_line) (use assms(2,3,5) in \<open>simp_all add: COUNCIL_MESSAGE_LENGTH_def nonce_line_def\<close>)
  have t: "take (COUNCIL_MESSAGE_LENGTH - 1) (''AUTH '' @ name @ '' '' @ authentication_digest key name nonce @ [CHR 0x0A]) =
      auth_line key name nonce @ [CHR 0x0A]"
    using auth_line_text(2) [OF assms(1), of key nonce] by (simp add: auth_line_def COUNCIL_MESSAGE_LENGTH_def)
  have s: "network_send (auth_line key name nonce @ [CHR 0x0A]) ?c =
      (True, ?c\<lparr>outgoing := outgoing c @ [auth_line key name nonce @ [CHR 0x0A]]\<rparr>)"
    using assms(4) by (simp add: network_send_def)
  have o: "network_read_line COUNCIL_MESSAGE_LENGTH (?c\<lparr>outgoing := x\<rparr>) = (Some ''OK'', c\<lparr>incoming := rest, outgoing := x\<rparr>)" for x
    using read_line_line [of "''OK''" COUNCIL_MESSAGE_LENGTH "?c\<lparr>outgoing := x\<rparr>" rest]
    by (simp add: COUNCIL_MESSAGE_LENGTH_def ok_line_def)
  have d: "drop 6 (''NONCE '' @ nonce) = nonce" "starts_with ''NONCE '' (''NONCE '' @ nonce)" by simp_all
  show ?thesis unfolding protocol_connect_identity_def r prod.case option.case d(1) Let_def t s bool.case o using d(2) by simp
qed

lemma nonce_text: "length bytes \<ge> 16 \<Longrightarrow>
   line_text (authentication_nonce (Some bytes) g) \<and> length (authentication_nonce (Some bytes) g) = 32"
  by (simp add: authentication_nonce_def word_line_text hex_of_bytes_text)

text \<open>C39: Client and server authenticate each other's texts: with the contact's name and key on both sides, what the server sends
  is what makes the client succeed, what the client sends is what makes the server accept that contact, and
  both are left with exactly the bytes that follow the handshake.\<close>

theorem handshake_succeeds:
  assumes "length random \<ge> 16" "identity_name name" "contact_book_find book name = Some i" "send_plan s = []" "send_plan c = []"
    and "nonce = authentication_nonce (Some random) garbage" "key = shared_key (book ! i)"
    and "outgoing s = []" "outgoing c = []"
    and "incoming c = concat [nonce_line nonce, ok_line] @ replies" "incoming s = concat [auth_line key name nonce @ [CHR 0x0A]] @ commands"
  shows "\<exists>s' c'. protocol_accept_identity nonce book (role (book ! i)) s = (Some i, s') \<and>
    protocol_connect_identity key name c = (True, c') \<and>
    outgoing s' = [nonce_line nonce, ok_line] \<and> outgoing c' = [auth_line key name nonce @ [CHR 0x0A]] \<and>
    incoming s' = commands \<and> incoming c' = replies"
proof -
  have n: "line_text nonce" "length nonce < 100" using nonce_text [OF assms(1), of garbage] assms(6) by simp_all
  have "protocol_accept_identity nonce book (role (book ! i)) s =
      (Some i, s\<lparr>incoming := commands, outgoing := outgoing s @ [nonce_line nonce, ok_line]\<rparr>)"
    by (rule accept_answer [OF assms(2,3,4)]) (simp add: assms(7,11))
  moreover have "protocol_connect_identity key name c =
      (True, c\<lparr>incoming := replies, outgoing := outgoing c @ [auth_line key name nonce @ [CHR 0x0A]]\<rparr>)"
    by (rule connect_answer [OF assms(2) n assms(5)]) (simp add: assms(10))
  ultimately show ?thesis using assms(8,9) by simp
qed

definition conn :: "string \<Rightarrow> Conn" where
  "conn bytes = \<lparr>incoming = bytes, outgoing = [], send_plan = []\<rparr>"

lemma eve_found: "contact_book_find [ada, eve] ''eve'' = Some 1"
  by (simp add: contact_book_find_def ada_def eve_def upt_rec)

lemma eve_name: "identity_name ''eve''"
  by (simp add: identity_name_def COUNCIL_NAME_LENGTH_def word_text_def c_isspace_def)

theorem handshake_succeeds_witness:
  "\<exists>s'. protocol_accept_identity (authentication_nonce (Some (replicate 16 0xa5)) []) [ada, eve] CONTACT_AI
      (conn (auth_line ''s3'' ''eve'' (authentication_nonce (Some (replicate 16 0xa5)) []) @ CHR 0x0A # ''PING'')) = (Some 1, s') \<and>
    incoming s' = ''PING''"
proof -
  have e: "shared_key ([ada, eve] ! 1) = ''s3''" "role ([ada, eve] ! 1) = CONTACT_AI" by (simp_all add: eve_def)
  show ?thesis
    using handshake_succeeds [OF _ eve_name eve_found, of "replicate 16 0xa5" "conn (auth_line ''s3'' ''eve''
        (authentication_nonce (Some (replicate 16 0xa5)) []) @ CHR 0x0A # ''PING'')"
        "conn (concat [nonce_line (authentication_nonce (Some (replicate 16 0xa5)) []), ok_line] @ [])" _ "[]" _ "[]" "''PING''"]
    unfolding e by (auto simp: conn_def)
qed

end
