(* ===== verification/Council_Logs.thy ===== *)
theory Council_Logs
  imports Council_Book
begin

text \<open>
  The files of a Council service: its settings (\<open>service_config.c\<close>), the transcript and inbox (\<open>transcript.c\<close>), the
  activity lease (\<open>conversation_activity.c\<close>) and the memory written at start (\<open>conversation_memory.c\<close>). A file is
  its text with the time of its last change; the calls on it may fail as the fields of its record say.
\<close>

section \<open>Reading lines\<close>

definition tab :: char where "tab = CHR 0x09"
definition log_end :: char where "log_end = CHR 0x0A"

text \<open>\<open>fgets\<close> with a buffer of \<open>k + 2\<close> bytes: at most \<open>k + 1\<close> characters, up to and including a log_end.\<close>

definition fgets_line :: "nat \<Rightarrow> string \<Rightarrow> string" where
  "fgets_line k s = take (Suc k) (takeWhile (\<lambda>c. c \<noteq> log_end) s @ (if log_end \<in> set s then [log_end] else []))"

lemma fgets_line_length: "s \<noteq> [] \<Longrightarrow> 0 < length (fgets_line k s)"
  by (cases s) (auto simp: fgets_line_def)

function fgets_lines :: "nat \<Rightarrow> string \<Rightarrow> string list" where
  "fgets_lines k s = (if s = [] then [] else fgets_line k s # fgets_lines k (drop (length (fgets_line k s)) s))"
  by pat_completeness auto
termination
  by (relation "measure (\<lambda>(k, s). length s)") (auto intro!: diff_less fgets_line_length)

declare fgets_lines.simps [simp del]

lemma takeWhile_stop: "log_end \<notin> set s \<Longrightarrow> takeWhile (\<lambda>c. c \<noteq> log_end) (s @ log_end # t) = s"
  by (induction s) auto

lemma fgets_lines_line:
  assumes "log_end \<notin> set s" "length s \<le> k"
  shows "fgets_lines k (s @ log_end # t) = (s @ [log_end]) # fgets_lines k t"
proof -
  have "fgets_line k (s @ log_end # t) = s @ [log_end]"
    using takeWhile_stop [OF assms(1)] assms(2) by (simp add: fgets_line_def)
  then show ?thesis by (subst fgets_lines.simps) simp
qed

definition file_lines :: "string list \<Rightarrow> string" where
  "file_lines ls = concat (map (\<lambda>l. l @ [log_end]) ls)"

lemma fgets_file_lines:
  "\<forall>l \<in> set ls. log_end \<notin> set l \<and> length l \<le> k \<Longrightarrow> fgets_lines k (file_lines ls) = map (\<lambda>l. l @ [log_end]) ls"
proof (induction ls)
  case Nil
  show ?case by (simp add: file_lines_def fgets_lines.simps)
next
  case (Cons l ls)
  then show ?case using fgets_lines_line [of l k "file_lines ls"] by (simp add: file_lines_def)
qed

definition cut_eol :: "string \<Rightarrow> string" where
  "cut_eol s = takeWhile (\<lambda>c. c \<noteq> CHR 0x0D \<and> c \<noteq> CHR 0x0A) s"

section \<open>Dates\<close>

text \<open>\<open>gmtime_r\<close> and the format \<open>%Y-%m-%dT%H:%M:%SZ\<close>, for times from 1970 on.\<close>

definition leap_year :: "nat \<Rightarrow> bool" where
  "leap_year y \<longleftrightarrow> (4 dvd y \<and> \<not> 100 dvd y) \<or> 400 dvd y"

definition year_days :: "nat \<Rightarrow> nat" where
  "year_days y = (if leap_year y then 366 else 365)"

function year_of :: "nat \<Rightarrow> nat \<Rightarrow> nat \<times> nat" where
  "year_of y d = (if d < year_days y then (y, d) else year_of (y + 1) (d - year_days y))"
  by pat_completeness auto
termination by (relation "measure snd") (auto simp: year_days_def)

declare year_of.simps [simp del]

definition month_days :: "nat \<Rightarrow> nat list" where
  "month_days y = [31, if leap_year y then 29 else 28, 31, 30, 31, 30, 31, 31, 30, 31, 30, 31]"

fun month_of :: "nat \<Rightarrow> nat list \<Rightarrow> nat \<Rightarrow> nat \<times> nat" where
  "month_of m [] d = (m, d)"
| "month_of m (n # ns) d = (if d < n then (m, d) else month_of (m + 1) ns (d - n))"

definition two_digits :: "nat \<Rightarrow> string" where
  "two_digits n = (if n < 10 then ''0'' else []) @ show_nat n"

definition stamp :: "nat \<Rightarrow> string" where
  "stamp t = (let (y, yd) = year_of 1970 (t div 86400); (m, d) = month_of 1 (month_days y) yd; s = t mod 86400
     in show_nat y @ ''-'' @ two_digits m @ ''-'' @ two_digits (d + 1) @ ''T'' @ two_digits (s div 3600) @ '':'' @
        two_digits (s div 60 mod 60) @ '':'' @ two_digits (s mod 60) @ ''Z'')"

section \<open>The transcript\<close>

record LogFile =
  log_path :: bool
  log_opens :: bool
  log_exists :: bool
  log_text :: string
  log_time :: nat

definition log_line :: "nat \<Rightarrow> string \<Rightarrow> string \<Rightarrow> string \<Rightarrow> string" where
  "log_line now speaker event message = stamp now @ [tab] @ speaker @ [tab] @ event @ [tab] @ message"

definition transcript_append :: "nat \<Rightarrow> string \<Rightarrow> string \<Rightarrow> string \<Rightarrow> LogFile \<Rightarrow> LogFile" where
  "transcript_append now speaker event message f =
     (if \<not> log_path f \<or> \<not> log_opens f then f
      else f\<lparr>log_exists := True, log_text := log_text f @ log_line now speaker event message @ [log_end], log_time := now\<rparr>)"

definition log_readable :: "LogFile \<Rightarrow> bool" where
  "log_readable f \<longleftrightarrow> log_path f \<and> log_opens f \<and> log_exists f"

definition stream_since :: "int \<Rightarrow> LogFile \<Rightarrow> string list \<times> nat" where
  "stream_since offset f =
     (if \<not> log_readable f then ([], 0)
      else let start = (if offset < 0 \<or> offset > int (length (log_text f)) then 0 else nat offset)
           in (map (\<lambda>l. ''EVENT '' @ cut_eol l @ [log_end]) (fgets_lines 8190 (drop start (log_text f))), length (log_text f)))"

definition grant_mark :: string where "grant_mark = [tab] @ ''grant'' @ [tab]"
definition offline_mark :: string where "offline_mark = [tab] @ ''offline-grant'' @ [tab]"
definition end_mark :: string where "end_mark = [tab] @ ''conversation-end'' @ [tab]"

definition grant_value :: "string \<Rightarrow> string option" where
  "grant_value line = (case (strstr line grant_mark, strstr line offline_mark) of
       (None, None) \<Rightarrow> None
     | (p, q) \<Rightarrow>
         let v = (case p of Some s \<Rightarrow> drop (length grant_mark) s | None \<Rightarrow> drop (length offline_mark) (the q))
         in Some (if q \<noteq> None then (case strstr v '' -> '' of None \<Rightarrow> v | Some a \<Rightarrow> drop 4 a) else v))"

definition is_grant_for :: "string \<Rightarrow> string \<Rightarrow> bool" where
  "is_grant_for line participant = (case grant_value line of None \<Rightarrow> False
     | Some v \<Rightarrow> starts_with participant v \<and>
         (let r = drop (length participant) v in r = [] \<or> hd r = CHR 0x0A \<or> hd r = CHR 0x0D))"

fun context_start :: "string \<Rightarrow> nat \<Rightarrow> nat \<Rightarrow> nat \<Rightarrow> string list \<Rightarrow> nat" where
  "context_start who previous current position [] = previous"
| "context_start who previous current position (l # ls) =
     (if is_grant_for l who then context_start who current position (position + length l) ls
      else context_start who previous current (position + length l) ls)"

definition stream_context :: "string \<Rightarrow> LogFile \<Rightarrow> string list" where
  "stream_context who f = (if \<not> log_readable f then []
     else let start = context_start who 0 0 0 (fgets_lines 8190 (log_text f))
          in map (\<lambda>l. ''CONTEXT '' @ cut_eol l @ [log_end]) (fgets_lines 8190 (drop start (log_text f))))"

definition last_arrow :: "string \<Rightarrow> string" where
  "last_arrow v = (case strstr v '' -> '' of None \<Rightarrow> v | Some a \<Rightarrow> drop 4 a)"

definition speaker_step :: "string \<Rightarrow> string \<Rightarrow> string" where
  "speaker_step line speaker =
     (if strstr line end_mark \<noteq> None then []
      else case grant_value line of None \<Rightarrow> speaker
        | Some v \<Rightarrow> take (COUNCIL_NAME_LENGTH - 1) (last_arrow (cut_eol v)))"

definition transcript_last_speaker :: "LogFile \<Rightarrow> string" where
  "transcript_last_speaker f = (if \<not> log_readable f then [] else fold speaker_step (fgets_lines 8190 (log_text f)) [])"

section \<open>The activity lease\<close>

record Activity =
  act_path :: bool
  act_writes :: bool
  act_text :: "string option"

definition conversation_activity_mark :: "nat \<Rightarrow> Activity \<Rightarrow> Activity" where
  "conversation_activity_mark now a = (if \<not> act_path a \<or> \<not> act_writes a then a
     else a\<lparr>act_text := Some (show_nat now @ [log_end])\<rparr>)"

definition conversation_activity_clear :: "Activity \<Rightarrow> Activity" where
  "conversation_activity_clear a = (if \<not> act_path a \<or> \<not> act_writes a then a
     else a\<lparr>act_text := Some (''-1'' @ [log_end])\<rparr>)"

definition recorded_time :: "Activity \<Rightarrow> int" where
  "recorded_time a = (case act_text a of None \<Rightarrow> 0
     | Some s \<Rightarrow> if act_path a then fst (strtol10 INT64_MIN INT64_MAX s) else 0)"

definition conversation_activity_remaining :: "nat \<Rightarrow> Activity \<Rightarrow> LogFile \<Rightarrow> int \<Rightarrow> int" where
  "conversation_activity_remaining now a f lease =
     (let recorded = recorded_time a
      in if recorded < 0 then 0
         else let recorded = (if recorded = 0 \<and> log_path f \<and> log_exists f then int (log_time f) else recorded)
              in if recorded = 0 then 0
                 else if int now \<le> recorded then lease
                 else if int now - recorded \<ge> lease then 0
                 else lease - (int now - recorded))"

section \<open>The memory of a conversation\<close>

definition RECENT_LINES :: nat where "RECENT_LINES = 20"

record Memory =
  recent :: "string list"
  ring_index :: nat
  ring_count :: nat

definition remember :: "string \<Rightarrow> Memory \<Rightarrow> Memory" where
  "remember line m = m\<lparr>recent := (recent m)[ring_index m := line], ring_index := (ring_index m + 1) mod RECENT_LINES,
     ring_count := (if ring_count m < RECENT_LINES then ring_count m + 1 else ring_count m)\<rparr>"

definition is_message :: "string \<Rightarrow> bool" where
  "is_message line \<longleftrightarrow> strstr line ([tab] @ ''message'' @ [tab]) \<noteq> None \<or> strstr line ([tab] @ ''initiate'' @ [tab]) \<noteq> None"

definition is_decision :: "string \<Rightarrow> bool" where
  "is_decision line \<longleftrightarrow> strstr line grant_mark \<noteq> None \<or> strstr line ([tab] @ ''speak'' @ [tab]) \<noteq> None"

definition memory_lines :: "Memory \<Rightarrow> string list" where
  "memory_lines m = map (\<lambda>i. recent m ! ((ring_index m + RECENT_LINES - ring_count m + i) mod RECENT_LINES)) [0..<ring_count m]"

definition no_memory :: Memory where
  "no_memory = \<lparr>recent = replicate RECENT_LINES [], ring_index = 0, ring_count = 0\<rparr>"

definition conversation_summary :: "LogFile \<Rightarrow> string" where
  "conversation_summary f =
     (let lines = (if log_readable f then fgets_lines 8190 (log_text f) else []); m = fold remember lines no_memory
      in ''Council memory'' @ [log_end] @ ''Events: '' @ show_nat (length lines) @ ''; messages: '' @
         show_nat (length (filter is_message lines)) @ ''; speaking decisions: '' @
         show_nat (length (filter is_decision lines)) @ ''.'' @ [log_end] @ ''Recent context:'' @ [log_end] @
         concat (memory_lines m))"
section \<open>Settings\<close>

record service_config =
  cfg_name :: string
  cfg_role :: contact_role
  bind_address :: string
  human_port :: u16
  ai_port :: u16
  is_hub :: bool
  hub_host :: string
  hub_port :: u16
  own_key :: string
  contacts_path :: string
  transcript_path :: string
  inbox_path :: string
  summary_path :: string
  activity_path :: string
  files_directory :: string
  max_file_bytes :: "64 word"
  presence_seconds :: int32

definition COUNCIL_PATH_LENGTH :: nat where "COUNCIL_PATH_LENGTH = 512"

definition trim_text :: "string \<Rightarrow> string" where
  "trim_text s = rev (dropWhile c_isspace (rev (dropWhile c_isspace s)))"

definition copy_text :: "string \<Rightarrow> nat \<Rightarrow> string \<Rightarrow> string" where
  "copy_text old cap v = (if length v \<ge> cap then old else v)"

definition atoi :: "string \<Rightarrow> int" where
  "atoi s = fst (strtol10 INT64_MIN INT64_MAX s)"

definition default_config :: service_config where
  "default_config = \<lparr>cfg_name = [], cfg_role = NO_ROLE, bind_address = ''0.0.0.0'', human_port = 0, ai_port = 0, is_hub = False,
     hub_host = [], hub_port = 0, own_key = [], contacts_path = [], transcript_path = [], inbox_path = [], summary_path = [],
     activity_path = [], files_directory = [], max_file_bytes = 10485760, presence_seconds = 15\<rparr>"

definition consumed_elsewhere :: "string list" where
  "consumed_elsewhere = [''os_user'', ''bridge_host'', ''bridge_port'', ''bridge_key_file'', ''bridge_state_dir'',
     ''work_directory'', ''web_bind'', ''web_port'', ''web_identity'', ''web_hub_host'', ''web_hub_port'', ''web_key_file'',
     ''web_password_file'', ''desired_ip'', ''mac'']"

definition config_text :: "string \<Rightarrow> string \<Rightarrow> service_config \<Rightarrow> service_config option" where
  "config_text key v c =
     (if key = ''name'' then Some (c\<lparr>cfg_name := copy_text (cfg_name c) COUNCIL_NAME_LENGTH v\<rparr>)
      else if key = ''bind_address'' then Some (c\<lparr>bind_address := copy_text (bind_address c) COUNCIL_HOST_LENGTH v\<rparr>)
      else if key = ''hub_host'' then Some (c\<lparr>hub_host := copy_text (hub_host c) COUNCIL_HOST_LENGTH v\<rparr>)
      else if key = ''own_key'' then Some (c\<lparr>own_key := copy_text (own_key c) COUNCIL_KEY_LENGTH v\<rparr>)
      else if key = ''contacts_file'' then Some (c\<lparr>contacts_path := copy_text (contacts_path c) COUNCIL_PATH_LENGTH v\<rparr>)
      else if key = ''transcript_file'' then Some (c\<lparr>transcript_path := copy_text (transcript_path c) COUNCIL_PATH_LENGTH v\<rparr>)
      else if key = ''inbox_file'' then Some (c\<lparr>inbox_path := copy_text (inbox_path c) COUNCIL_PATH_LENGTH v\<rparr>)
      else if key = ''summary_file'' then Some (c\<lparr>summary_path := copy_text (summary_path c) COUNCIL_PATH_LENGTH v\<rparr>)
      else if key = ''activity_file'' then Some (c\<lparr>activity_path := copy_text (activity_path c) COUNCIL_PATH_LENGTH v\<rparr>)
      else if key = ''files_directory'' then Some (c\<lparr>files_directory := copy_text (files_directory c) COUNCIL_PATH_LENGTH v\<rparr>)
      else None)"

definition config_value :: "string \<Rightarrow> string \<Rightarrow> service_config \<Rightarrow> service_config option" where
  "config_value key v c =
     (if key = ''role'' then Some (c\<lparr>cfg_role := (if v = ''human'' then CONTACT_HUMAN else CONTACT_AI)\<rparr>)
      else if key = ''human_port'' then Some (c\<lparr>human_port := word_of_int (atoi v)\<rparr>)
      else if key = ''ai_port'' then Some (c\<lparr>ai_port := word_of_int (atoi v)\<rparr>)
      else if key = ''is_hub'' then Some (c\<lparr>is_hub := (v = ''true'' \<or> v = ''1'')\<rparr>)
      else if key = ''hub_port'' then Some (c\<lparr>hub_port := word_of_int (atoi v)\<rparr>)
      else if key = ''max_file_bytes'' then Some (c\<lparr>max_file_bytes := word_of_int (fst (strtoul10 v))\<rparr>)
      else if key = ''presence_seconds'' then Some (c\<lparr>presence_seconds := word_of_int (atoi v)\<rparr>)
      else if key \<in> set consumed_elsewhere then Some c
      else config_text key v c)"

definition config_line :: "string \<Rightarrow> service_config \<Rightarrow> service_config option" where
  "config_line line c = (let line = trim_text line
     in if line = [] \<or> hd line = CHR ''#'' \<or> hd line = CHR ''['' then Some c
        else case strchr line CHR ''='' of None \<Rightarrow> None
          | Some v \<Rightarrow> config_value (trim_text (takeWhile (\<lambda>c. c \<noteq> CHR ''='') line)) (trim_text (tl v)) c)"

fun config_lines :: "nat \<Rightarrow> string list \<Rightarrow> service_config \<Rightarrow> nat + service_config" where
  "config_lines n [] c = Inr c"
| "config_lines n (l # ls) c = (case config_line l c of None \<Rightarrow> Inl (n + 1) | Some c \<Rightarrow> config_lines (n + 1) ls c)"

definition service_config_load :: "string \<Rightarrow> string option \<Rightarrow> string + service_config" where
  "service_config_load path file = (case file of None \<Rightarrow> Inl (''cannot open '' @ path)
     | Some s \<Rightarrow> (case config_lines 0 (map c_str (fgets_lines 1022 s)) default_config of
           Inl n \<Rightarrow> Inl (''invalid setting at line '' @ show_nat n)
         | Inr c \<Rightarrow> if cfg_name c = [] \<or> human_port c = 0 \<or> ai_port c = 0 \<or> contacts_path c = []
             then Inl ''name, human_port, ai_port, and contacts_file are required'' else Inr c))"

definition config_wf :: "service_config \<Rightarrow> bool" where
  "config_wf c \<longleftrightarrow> length (cfg_name c) < COUNCIL_NAME_LENGTH \<and> length (bind_address c) < COUNCIL_HOST_LENGTH \<and>
     length (hub_host c) < COUNCIL_HOST_LENGTH \<and> length (own_key c) < COUNCIL_KEY_LENGTH \<and>
     list_all (\<lambda>p. length p < COUNCIL_PATH_LENGTH) [contacts_path c, transcript_path c, inbox_path c, summary_path c,
       activity_path c, files_directory c]"

lemmas council_sizes = COUNCIL_NAME_LENGTH_def COUNCIL_HOST_LENGTH_def COUNCIL_KEY_LENGTH_def COUNCIL_PATH_LENGTH_def
  COUNCIL_MAX_CONTACTS_def

lemma config_value_wf: "config_value key v c = Some d \<Longrightarrow> config_wf c \<Longrightarrow> config_wf d"
  unfolding config_value_def config_text_def
  by (simp add: copy_text_def split: if_splits) (auto simp: config_wf_def)

lemma config_line_wf: "config_line l c = Some d \<Longrightarrow> config_wf c \<Longrightarrow> config_wf d"
  by (auto simp: config_line_def Let_def intro: config_value_wf split: if_splits option.splits)

lemma config_lines_wf: "config_lines n ls c = Inr d \<Longrightarrow> config_wf c \<Longrightarrow> config_wf d"
  by (induction n ls c rule: config_lines.induct) (auto split: option.splits dest: config_line_wf)

section \<open>The memory keeps the last lines\<close>

definition memory_wf :: "Memory \<Rightarrow> bool" where
  "memory_wf m \<longleftrightarrow> length (recent m) = RECENT_LINES \<and> ring_index m < RECENT_LINES \<and> ring_count m \<le> RECENT_LINES"

lemma RECENT_LINES_pos [simp]: "0 < RECENT_LINES"
  by (simp add: RECENT_LINES_def)

lemma ring_shift:
  assumes "c < n" "0 < n"
  shows "((x + 1) mod n + n - Suc c + i) mod n = (x + n - c + i) mod (n :: nat)"
proof -
  have "(x + 1) mod n + n - Suc c + i = (x + 1) mod n + (n - Suc c + i)" using assms by simp
  moreover have "x + 1 + (n - Suc c + i) = x + n - c + i" using assms by simp
  ultimately show ?thesis by (metis mod_add_left_eq)
qed

lemma ring_slot_new:
  assumes "i < c" "c \<le> n" "x < n" "c < n \<or> 0 < i"
  shows "(x + n - c + i) mod n \<noteq> (x :: nat)"
proof
  assume a: "(x + n - c + i) mod n = x"
  show False
  proof (cases "x + n - c + i < n")
    case True
    then have "x + n - c + i = x" using a by simp
    then show ?thesis using assms by arith
  next
    case False
    then have "(x + n - c + i) mod n = x + n - c + i - n" using assms by (simp add: mod_if)
    then show ?thesis using a assms False by simp
  qed
qed

lemma remember_lines:
  assumes "memory_wf m"
  shows "memory_wf (remember l m)"
    "memory_lines (remember l m) = (if ring_count m < RECENT_LINES then memory_lines m else tl (memory_lines m)) @ [l]"
proof -
  note wf = assms [unfolded memory_wf_def]
  show "memory_wf (remember l m)" using wf by (auto simp: memory_wf_def remember_def)
  show "memory_lines (remember l m) = (if ring_count m < RECENT_LINES then memory_lines m else tl (memory_lines m)) @ [l]"
  proof (cases "ring_count m < RECENT_LINES")
    case True
    let ?x = "ring_index m" and ?c = "ring_count m"
    have s: "((?x + 1) mod RECENT_LINES + RECENT_LINES - Suc ?c + i) mod RECENT_LINES = (?x + RECENT_LINES - ?c + i) mod RECENT_LINES" for i
      by (rule ring_shift [OF True]) simp
    have "(recent m)[?x := l] ! ((?x + RECENT_LINES - ?c + i) mod RECENT_LINES) =
        (if i = ?c then l else recent m ! ((?x + RECENT_LINES - ?c + i) mod RECENT_LINES))" if "i \<le> ?c" for i
    proof (cases "i = ?c")
      case True
      then show ?thesis using wf by simp
    next
      case False
      then have "(?x + RECENT_LINES - ?c + i) mod RECENT_LINES \<noteq> ?x" using that wf by (intro ring_slot_new) (use True in auto)
      then show ?thesis using False by simp
    qed
    then have new: "map (\<lambda>i. (recent m)[?x := l] ! ((?x + RECENT_LINES - ?c + i) mod RECENT_LINES)) [0..<Suc ?c] =
        map (\<lambda>i. if i = ?c then l else recent m ! ((?x + RECENT_LINES - ?c + i) mod RECENT_LINES)) [0..<Suc ?c]"
      by (intro map_cong) (simp_all only: set_upt atLeastLessThan_iff less_Suc_eq_le)
    have m: "recent (remember l m) = (recent m)[?x := l]" "ring_index (remember l m) = (?x + 1) mod RECENT_LINES"
      "ring_count (remember l m) = Suc ?c" using True by (simp_all add: remember_def)
    have "memory_lines (remember l m) = memory_lines m @ [l]"
      unfolding memory_lines_def m s new by simp
    then show ?thesis using True by simp
  next
    case False
    then have c: "ring_count m = RECENT_LINES" using wf by simp
    let ?x = "ring_index m"
    have s: "((?x + 1) mod RECENT_LINES + i) mod RECENT_LINES = (?x + 1 + i) mod RECENT_LINES" for i by (rule mod_add_left_eq)
    have new: "(recent m)[?x := l] ! ((?x + 1 + i) mod RECENT_LINES) =
        (if i = RECENT_LINES - 1 then l else recent m ! ((?x + 1 + i) mod RECENT_LINES))" if "i < RECENT_LINES" for i
    proof (cases "i = RECENT_LINES - 1")
      case True
      then have "(?x + 1 + i) mod RECENT_LINES = ?x" using wf by simp
      then show ?thesis using True wf by (simp only: if_True nth_list_update_eq simp_thms)
    next
      case False
      then have "(?x + 1 + i) mod RECENT_LINES \<noteq> ?x"
        using ring_slot_new [of "i + 1" RECENT_LINES RECENT_LINES ?x] that wf by simp
      then have "(recent m)[?x := l] ! ((?x + 1 + i) mod RECENT_LINES) = recent m ! ((?x + 1 + i) mod RECENT_LINES)"
        by (metis nth_list_update_neq)
      then show ?thesis using False by (simp only: if_False)
    qed
    have "memory_lines (remember l m) = map (\<lambda>i. (recent m)[?x := l] ! ((?x + 1 + i) mod RECENT_LINES)) [0..<RECENT_LINES]"
      using c s by (simp add: memory_lines_def remember_def)
    also have "\<dots> = map (\<lambda>i. if i = RECENT_LINES - 1 then l else recent m ! ((?x + 1 + i) mod RECENT_LINES)) [0..<RECENT_LINES]"
      using new by simp
    also have "\<dots> = tl (memory_lines m) @ [l]"
      using c by - (rule nth_equalityI; (simp add: memory_lines_def nth_append nth_tl less_diff_conv)?; (intro impI; linarith)?)
    finally show ?thesis using c by simp
  qed
qed

lemma memory_keeps_last:
  "memory_wf (fold remember ls no_memory) \<and> memory_lines (fold remember ls no_memory) = drop (length ls - RECENT_LINES) ls"
proof (induction ls rule: rev_induct)
  case Nil
  show ?case by (simp add: no_memory_def memory_wf_def memory_lines_def)
next
  case (snoc l ls)
  have "length (memory_lines (fold remember ls no_memory)) = ring_count (fold remember ls no_memory)"
    by (simp add: memory_lines_def)
  then have "ring_count (fold remember ls no_memory) = min (length ls) RECENT_LINES" using snoc by simp
  then have c: "ring_count (fold remember ls no_memory) < RECENT_LINES \<longleftrightarrow> length ls < RECENT_LINES" by (simp add: min_def)
  have "tl (drop (length ls - RECENT_LINES) ls) = drop (Suc (length ls) - RECENT_LINES) ls" if "RECENT_LINES \<le> length ls"
    using that by (simp add: Suc_diff_le drop_Suc tl_drop)
  then show ?case using snoc remember_lines [of "fold remember ls no_memory" l] c by (simp add: RECENT_LINES_def)
qed

text \<open>The memory written at start holds the number of events, messages and speaking decisions of the log and exactly its
  last twenty lines in order.\<close>

theorem summary_of_last_lines:
  "conversation_summary f =
     (let lines = (if log_readable f then fgets_lines 8190 (log_text f) else [])
      in ''Council memory'' @ [log_end] @ ''Events: '' @ show_nat (length lines) @ ''; messages: '' @
         show_nat (length (filter is_message lines)) @ ''; speaking decisions: '' @
         show_nat (length (filter is_decision lines)) @ ''.'' @ [log_end] @ ''Recent context:'' @ [log_end] @
         concat (drop (length lines - RECENT_LINES) lines))"
  unfolding conversation_summary_def Let_def memory_keeps_last [THEN conjunct2] by (rule refl)

section \<open>Reading a transcript back\<close>

definition field_text :: "string \<Rightarrow> bool" where
  "field_text s \<longleftrightarrow> tab \<notin> set s \<and> CHR 0x0A \<notin> set s \<and> CHR 0x0D \<notin> set s \<and> CHR 0x00 \<notin> set s"

lemma starts_with_field:
  "tab \<notin> set e \<Longrightarrow> tab \<notin> set s \<Longrightarrow> starts_with (e @ [tab]) (s @ tab # r) \<longleftrightarrow> e = s"
proof (induction e arbitrary: s)
  case Nil
  then show ?case by (cases s) auto
next
  case (Cons a e)
  then show ?case by (cases s) auto
qed

lemma strstr_field:
  assumes "tab \<notin> set e" "tab \<notin> set f" "tab \<notin> set g"
  shows "strstr (f @ tab # g @ tab # r) (tab # e @ [tab]) =
    (if e = g then Some (tab # g @ tab # r) else strstr (g @ tab # r) (tab # e @ [tab]))"
proof -
  have "strstr (f @ tab # g @ tab # r) (tab # e @ [tab]) = strstr (tab # g @ tab # r) (tab # e @ [tab])"
    using assms(2) by (intro strstr_skip) simp_all
  then show ?thesis using starts_with_field [OF assms(1,3), of r] by simp
qed

lemma strstr_last_field: "tab \<notin> set f \<Longrightarrow> tab \<notin> set g \<Longrightarrow> strstr (f @ tab # g) (tab # e @ [tab]) = None"
proof -
  assume a: "tab \<notin> set f" "tab \<notin> set g"
  have n: "\<not> starts_with (e @ [tab]) g" using a(2) unfolding starts_with_def by (metis in_set_takeD in_set_conv_decomp)
  have "strstr (f @ tab # g) (tab # e @ [tab]) = strstr (tab # g) (tab # e @ [tab])"
    using a(1) by (intro strstr_skip) simp_all
  also have "\<dots> = strstr g (tab # e @ [tab])" using n by simp
  also have "\<dots> = None" using a(2) by (intro strstr_absent) simp_all
  finally show ?thesis .
qed

lemma strstr_log_line:
  assumes "tab \<notin> set e" "tab \<notin> set st" "tab \<notin> set speaker" "tab \<notin> set event" "tab \<notin> set message" "speaker \<noteq> e"
  shows "strstr (st @ [tab] @ speaker @ [tab] @ event @ [tab] @ message) (tab # e @ [tab]) =
    (if e = event then Some (tab # event @ tab # message) else None)"
  using strstr_field [OF assms(1-3), of "event @ tab # message"] strstr_field [OF assms(1,3,4), of message]
    strstr_last_field [OF assms(4,5), of e] assms(6) by simp

lemma digits_field: "field_text (show_nat n)"
proof -
  have "\<forall>c \<in> set (show_nat n). isDigit c" using show_nat_digits by blast
  then show ?thesis by (auto simp: field_text_def tab_def isDigit_def)
qed

lemma field_text_append [simp]: "field_text (s @ t) \<longleftrightarrow> field_text s \<and> field_text t"
  by (auto simp: field_text_def)

lemma field_text_Cons: "field_text (c # s) \<longleftrightarrow> c \<noteq> tab \<and> c \<noteq> CHR 0x0A \<and> c \<noteq> CHR 0x0D \<and> c \<noteq> CHR 0x00 \<and> field_text s"
  "field_text []"
  by (auto simp: field_text_def)

lemma stamp_field: "field_text (stamp t)"
  by (simp add: stamp_def two_digits_def Let_def case_prod_unfold digits_field field_text_Cons tab_def)

definition event_speaker :: "string \<Rightarrow> string \<Rightarrow> string \<Rightarrow> string" where
  "event_speaker event message speaker =
     (if event = ''conversation-end'' then []
      else if event = ''grant'' then take (COUNCIL_NAME_LENGTH - 1) (last_arrow message)
      else if event = ''offline-grant'' then take (COUNCIL_NAME_LENGTH - 1) (last_arrow (last_arrow message))
      else speaker)"

definition entry_ok :: "string \<times> string \<times> string \<Rightarrow> bool" where
  "entry_ok e = (case e of (who, event, message) \<Rightarrow> field_text who \<and> field_text event \<and> field_text message \<and>
     who \<notin> {''grant'', ''offline-grant'', ''conversation-end''})"

lemma field_no_tab: "field_text s \<Longrightarrow> tab \<notin> set s" "field_text s \<Longrightarrow> log_end \<notin> set s"
  by (simp_all add: field_text_def log_end_def)

lemma cut_eol_field: "field_text s \<Longrightarrow> cut_eol (s @ [log_end]) = s"
  by (induction s) (auto simp: cut_eol_def field_text_Cons log_end_def)

lemma strstr_suffix: "strstr s p = Some t \<Longrightarrow> \<exists>u. s = u @ t"
proof (induction s)
  case (Cons c s)
  then show ?case by (cases "starts_with p (c # s)") (auto intro: exI [of _ "[]"] exI [of _ "c # _"])
qed (simp split: if_splits)

lemma field_text_drop: "field_text s \<Longrightarrow> field_text (drop n s)"
  by (auto simp: field_text_def dest: in_set_dropD)

lemma last_arrow_field: "field_text s \<Longrightarrow> field_text (last_arrow s)"
  by (auto simp: last_arrow_def field_text_drop split: option.split dest!: strstr_suffix)

lemma starts_with_last: "c \<notin> set p \<Longrightarrow> starts_with p (s @ [c]) \<longleftrightarrow> starts_with p s"
proof (induction p arbitrary: s)
  case (Cons a p)
  then show ?case by (cases s) auto
qed simp

lemma strstr_last: "c \<notin> set p \<Longrightarrow> p \<noteq> [] \<Longrightarrow> strstr (s @ [c]) p = map_option (\<lambda>t. t @ [c]) (strstr s p)"
proof (induction s)
  case Nil
  then show ?case by (cases p) auto
next
  case (Cons d s)
  then show ?case using starts_with_last [of c p "d # s"] by simp
qed

lemma strstr_starts: "strstr s p = Some t \<Longrightarrow> starts_with p t"
  by (induction s) (auto split: if_splits)

lemma last_arrow_end: "last_arrow (s @ [log_end]) = last_arrow s @ [log_end]"
proof (cases "strstr s '' -> ''")
  case None
  then show ?thesis using strstr_last [of log_end "'' -> ''" s] by (simp add: last_arrow_def log_end_def)
next
  case (Some t)
  then have "starts_with '' -> '' t" using strstr_starts by blast
  then have "take 4 t = '' -> ''" by (simp add: starts_with_def numeral_eq_Suc)
  then have "length (take 4 t) = 4" by (simp only:) simp
  then have "4 \<le> length t" by simp
  then show ?thesis using Some strstr_last [of log_end "'' -> ''" s] by (simp add: last_arrow_def log_end_def)
qed

lemma marks_shape: "grant_mark = tab # ''grant'' @ [tab]" "offline_mark = tab # ''offline-grant'' @ [tab]"
  "end_mark = tab # ''conversation-end'' @ [tab]"
  by (simp_all add: grant_mark_def offline_mark_def end_mark_def)

lemma speaker_step_entry:
  assumes "entry_ok (who, event, message)"
  shows "speaker_step (log_line now who event message @ [log_end]) speaker = event_speaker event message speaker"
proof -
  have f: "field_text who" "field_text event" "field_text message" "who \<noteq> ''grant''" "who \<noteq> ''offline-grant''"
    "who \<noteq> ''conversation-end''" using assms by (auto simp: entry_ok_def)
  have l: "log_line now who event message @ [log_end] = stamp now @ [tab] @ who @ [tab] @ event @ [tab] @ (message @ [log_end])"
    by (simp add: log_line_def)
  have t: "tab \<notin> set (stamp now)" "tab \<notin> set who" "tab \<notin> set event" "tab \<notin> set (message @ [log_end])"
    using f stamp_field by (auto simp: field_text_def tab_def log_end_def)
  have m: "tab \<notin> set ''grant''" "tab \<notin> set ''offline-grant''" "tab \<notin> set ''conversation-end''" by (simp_all add: tab_def)
  note s = strstr_log_line [OF _ t]
  have c: "cut_eol (last_arrow message @ [log_end]) = last_arrow message" "cut_eol (message @ [log_end]) = message"
    using f(3) cut_eol_field last_arrow_field by blast+
  show ?thesis unfolding l speaker_step_def grant_value_def marks_shape s [OF m(1) f(4)] s [OF m(2) f(5)] s [OF m(3) f(6)]
    using c last_arrow_end [of message] by (auto simp: event_speaker_def last_arrow_def)
qed


definition entry_line :: "nat \<times> string \<times> string \<times> string \<Rightarrow> string" where
  "entry_line e = (case e of (now, who, event, message) \<Rightarrow> log_line now who event message)"

definition append_all :: "(nat \<times> string \<times> string \<times> string) list \<Rightarrow> LogFile \<Rightarrow> LogFile" where
  "append_all es f = fold (\<lambda>(now, who, event, message). transcript_append now who event message) es f"

lemma append_all_text:
  "log_path f \<Longrightarrow> log_opens f \<Longrightarrow>
     log_text (append_all es f) = log_text f @ file_lines (map entry_line es) \<and> log_path (append_all es f) \<and> log_opens (append_all es f) \<and>
     (log_exists (append_all es f) \<longleftrightarrow> log_exists f \<or> es \<noteq> [])"
  unfolding append_all_def
proof (induction es arbitrary: f)
  case (Cons e es)
  obtain now who event message where e: "e = (now, who, event, message)" by (cases e)
  let ?f = "transcript_append now who event message f"
  have "log_path ?f" "log_opens ?f" "log_exists ?f" "log_text ?f = log_text f @ entry_line e @ [log_end]"
    using Cons.prems by (simp_all add: transcript_append_def e entry_line_def)
  then show ?case using Cons.IH [of ?f] by (simp add: e file_lines_def)
qed (simp add: file_lines_def)

lemma restored_lines:
  "\<forall>e \<in> set es. entry_ok (snd e) \<Longrightarrow>
     fold speaker_step (map (\<lambda>l. l @ [log_end]) (map entry_line es)) s =
     fold (\<lambda>(now, who, event, message). event_speaker event message) es s"
proof (induction es arbitrary: s)
  case (Cons e es)
  obtain now who event message where "e = (now, who, event, message)" by (cases e)
  then show ?case using Cons.IH Cons.prems speaker_step_entry [of who event message now s] by (simp add: entry_line_def)
qed simp

lemma log_line_field: "entry_ok (who, event, message) \<Longrightarrow> log_end \<notin> set (log_line now who event message)"
  using field_no_tab(2) [OF stamp_field, of now] field_no_tab(2) [of who] field_no_tab(2) [of event] field_no_tab(2) [of message]
  by (simp add: log_line_def entry_ok_def) (simp add: log_end_def tab_def)

text \<open>A restart finds the speaker the log says: for entries whose speaker, event and message have no tab or
  line break, whose speaker is not named like a log event, and which fit the reader's line, appending them to an
  empty transcript and reading the last speaker back gives the last granted contact, or nobody after the
  conversation was ended.\<close>

theorem speaker_restored:
  assumes "\<forall>e \<in> set es. entry_ok (snd e) \<and> length (entry_line e) \<le> 8190"
    and "log_path f" "log_opens f" "log_text f = []"
  shows "transcript_last_speaker (append_all es f) =
    fold (\<lambda>(now, who, event, message). event_speaker event message) es []"
proof -
  note t = append_all_text [OF assms(2,3), of es]
  have l: "\<forall>l \<in> set (map entry_line es). log_end \<notin> set l \<and> length l \<le> 8190"
  proof
    fix l assume "l \<in> set (map entry_line es)"
    then obtain e where e: "e \<in> set es" "l = entry_line e" by auto
    obtain now who event message where q: "e = (now, who, event, message)" by (cases e)
    then have "entry_ok (who, event, message)" "length l \<le> 8190" using assms(1) e by auto
    then show "log_end \<notin> set l \<and> length l \<le> 8190"
      unfolding e(2) q using log_line_field by (simp add: entry_line_def)
  qed
  show ?thesis
  proof (cases "es = []")
    case True
    then show ?thesis using assms(4) by (simp add: transcript_last_speaker_def append_all_def fgets_lines.simps)
  next
    case False
    then have "log_readable (append_all es f)" using t by (simp add: log_readable_def)
    moreover have "log_text (append_all es f) = file_lines (map entry_line es)" using t assms(4) by simp
    moreover have "\<forall>e \<in> set es. entry_ok (snd e)" using assms(1) by blast
    ultimately show ?thesis unfolding transcript_last_speaker_def
      using fgets_file_lines [OF l] restored_lines [of es "[]"] by (simp only: simp_thms if_False not_True_eq_False)
  qed
qed

definition sample_entries :: "(nat \<times> string \<times> string \<times> string) list" where
  "sample_entries = [(0, ''ada'', ''message'', ''hi''), (0, ''ada'', ''grant'', ''ada -> eve''), (90061, ''eve'', ''arrival'', ''x'')]"

definition fresh_log :: LogFile where
  "fresh_log = \<lparr>log_path = True, log_opens = True, log_exists = False, log_text = [], log_time = 0\<rparr>"

lemma stamp_samples: "stamp 0 = ''1970-01-01T00:00:00Z''" "stamp 90061 = ''1970-01-02T01:01:01Z''"
  by (simp_all add: stamp_def year_of.simps year_days_def leap_year_def month_days_def two_digits_def show_nat.simps digit_char_def
      char_of_def bit_Suc_0_iff)

lemma sample_entries_ok: "\<forall>e \<in> set sample_entries. entry_ok (snd e) \<and> length (entry_line e) \<le> 8190"
  by (simp add: sample_entries_def entry_ok_def entry_line_def log_line_def stamp_samples field_text_def tab_def)

theorem speaker_restored_witness:
  "transcript_last_speaker (append_all sample_entries fresh_log) = ''eve''"
proof -
  have "log_path fresh_log" "log_opens fresh_log" "log_text fresh_log = []" by (simp_all add: fresh_log_def)
  then have "transcript_last_speaker (append_all sample_entries fresh_log) =
    fold (\<lambda>(now, who, event, message). event_speaker event message) sample_entries []"
    using speaker_restored [OF sample_entries_ok] by blast
  also have "\<dots> = ''eve''"
    by (simp add: sample_entries_def event_speaker_def last_arrow_def COUNCIL_NAME_LENGTH_def)
  finally show ?thesis .
qed





end
