(* ===== verification/Council_Files.thy ===== *)
theory Council_Files
  imports Council_Auth Council_Logs
begin

text \<open>
  Files sent through the Council: \<open>src/council/src/file_storage.c\<close> and \<open>src/council/src/file_commands.c\<close>. The disk is a map from
  paths to bytes together with the outcomes of the next file operations; the random bytes of the operating
  system are an argument.
\<close>

section \<open>The disk\<close>

record Disk =
  files :: "string \<Rightarrow> u8 list option"
  io_plan :: "bool list"

definition io_step :: "Disk \<Rightarrow> bool \<times> Disk" where
  "io_step d = (io_plan d = [] \<or> hd (io_plan d), d\<lparr>io_plan := tl (io_plan d)\<rparr>)"

definition open_new :: "string \<Rightarrow> Disk \<Rightarrow> bool \<times> Disk" where
  "open_new path d = (case io_step d of (False, d) \<Rightarrow> (False, d)
     | (True, d) \<Rightarrow> (True, d\<lparr>files := (files d)(path := Some [])\<rparr>))"

definition append_file :: "string \<Rightarrow> u8 list \<Rightarrow> Disk \<Rightarrow> bool \<times> Disk" where
  "append_file path bs d = (case io_step d of (False, d) \<Rightarrow> (False, d)
     | (True, d) \<Rightarrow> (True, d\<lparr>files := (files d)(path := map_option (\<lambda>old. old @ bs) (files d path))\<rparr>))"

definition remove_file :: "string \<Rightarrow> Disk \<Rightarrow> Disk" where
  "remove_file path d = (case io_step d of (False, d) \<Rightarrow> d | (True, d) \<Rightarrow> d\<lparr>files := (files d)(path := None)\<rparr>)"

definition rename_file :: "string \<Rightarrow> string \<Rightarrow> Disk \<Rightarrow> bool \<times> Disk" where
  "rename_file old new d = (case io_step d of (False, d) \<Rightarrow> (False, d)
     | (True, d) \<Rightarrow> (True, d\<lparr>files := (files d)(new := files d old, old := None)\<rparr>))"

section \<open>Names and digests\<close>

definition COUNCIL_FILE_NAME :: nat where "COUNCIL_FILE_NAME = 128"

definition c_isalnum :: "char \<Rightarrow> bool" where
  "c_isalnum c = (let n = (of_char c :: nat) in (48 \<le> n \<and> n \<le> 57) \<or> (65 \<le> n \<and> n \<le> 90) \<or> (97 \<le> n \<and> n \<le> 122))"

definition file_transfer_name_is_safe :: "string \<Rightarrow> bool" where
  "file_transfer_name_is_safe name = (name \<noteq> [] \<and> length name < COUNCIL_FILE_NAME \<and> name \<noteq> ''.'' \<and> name \<noteq> ''..'' \<and>
     list_all (\<lambda>c. c_isalnum c \<or> c = CHR ''.'' \<or> c = CHR ''_'' \<or> c = CHR ''-'') name)"


text \<open>Files are read and written in buffers of 16384 bytes.\<close>

function file_chunks :: "'a list \<Rightarrow> 'a list list" where
  "file_chunks xs = (if xs = [] then [] else take 16384 xs # file_chunks (drop 16384 xs))"
  by pat_completeness auto
termination by (relation "measure length") auto

declare file_chunks.simps [simp del]


section \<open>Streams\<close>

definition network_read_bytes :: "nat \<Rightarrow> Conn \<Rightarrow> string option \<times> Conn" where
  "network_read_bytes n c = (if n \<le> length (incoming c) then (Some (take n (incoming c)), c\<lparr>incoming := drop n (incoming c)\<rparr>)
     else (None, c\<lparr>incoming := []\<rparr>))"

fun send_chunks :: "u8 list list \<Rightarrow> Conn \<Rightarrow> bool \<times> Conn" where
  "send_chunks [] c = (True, c)"
| "send_chunks (b # bs) c = (case network_send (map (\<lambda>x. char_of (unat x)) b) c of
     (False, c) \<Rightarrow> (False, c) | (True, c) \<Rightarrow> send_chunks bs c)"

definition file_transfer_send_stream :: "string \<Rightarrow> Disk \<Rightarrow> Conn \<Rightarrow> bool \<times> Disk \<times> Conn" where
  "file_transfer_send_stream path d c = (case io_step d of (False, d) \<Rightarrow> (False, d, c)
     | (True, d) \<Rightarrow> (case files d path of None \<Rightarrow> (False, d, c)
         | Some content \<Rightarrow> (case send_chunks (file_chunks content) c of (False, c) \<Rightarrow> (False, d, c)
             | (True, c) \<Rightarrow> (case io_step d of (ok, d) \<Rightarrow> (ok, d, c)))))"

function receive_loop :: "nat \<Rightarrow> string \<Rightarrow> sha256_ctx \<Rightarrow> Conn \<Rightarrow> Disk \<Rightarrow> sha256_ctx option \<times> Conn \<times> Disk" where
  "receive_loop remaining path h c d =
     (if remaining = 0 then (Some h, c, d)
      else let wanted = min 16384 remaining
           in case network_read_bytes wanted c of (None, c) \<Rightarrow> (None, c, d)
              | (Some bs, c) \<Rightarrow> (case append_file path (text_bytes bs) d of (False, d) \<Rightarrow> (None, c, d)
                  | (True, d) \<Rightarrow> receive_loop (remaining - wanted) path (the (sha256_update h (text_bytes bs))) c d))"
  by pat_completeness auto
termination by (relation "measure fst") auto

declare receive_loop.simps [simp del]

definition stored_path :: "string \<Rightarrow> string \<Rightarrow> string \<Rightarrow> string" where
  "stored_path directory nonce name = take 1023 (directory @ ''/'' @ nonce @ ''-'' @ name)"

text \<open>The result is the path of the stored file, -2 when the digest differs, and -1 for every other failure.\<close>

definition file_transfer_receive_stream ::
  "u8 list \<Rightarrow> u8 list option \<Rightarrow> string \<Rightarrow> string \<Rightarrow> nat \<Rightarrow> string \<Rightarrow> nat \<Rightarrow> Conn \<Rightarrow> Disk \<Rightarrow> (int + string) \<times> Conn \<times> Disk" where
  "file_transfer_receive_stream garbage random directory name size0 digest stored_size c d =
     (if \<not> file_transfer_name_is_safe name \<or> random = None then (Inl (-1), c, d)
      else let final = stored_path directory (authentication_nonce random []) name; temporary = final @ ''.part''
           in if length final + 5 \<ge> 1024 \<or> length final \<ge> stored_size then (Inl (-1), c, d)
              else case open_new temporary d of (False, d) \<Rightarrow> (Inl (-1), c, d)
                | (True, d) \<Rightarrow> (case receive_loop size0 temporary (sha256_init garbage) c d of
                    (None, c, d) \<Rightarrow> (Inl (-1), c, remove_file temporary (snd (io_step d)))
                  | (Some h, c, d) \<Rightarrow> (case io_step d of
                        (False, d) \<Rightarrow> (Inl (-1), c, remove_file temporary d)
                      | (True, d) \<Rightarrow>
                          if hex_of_bytes (sha256_final h) \<noteq> digest then (Inl (-2), c, remove_file temporary d)
                          else (case rename_file temporary final d of
                              (False, d) \<Rightarrow> (Inl (-1), c, remove_file temporary d)
                            | (True, d) \<Rightarrow> (Inr final, c, d)))))"

text \<open>Forwarding on a connection to the destination.\<close>

definition file_transfer_forward ::
  "contact \<Rightarrow> string \<Rightarrow> string \<Rightarrow> string \<Rightarrow> string \<Rightarrow> nat \<Rightarrow> string \<Rightarrow> nat \<Rightarrow> Conn option \<Rightarrow> Disk \<Rightarrow> bool \<times> Conn option \<times> Disk" where
  "file_transfer_forward destination local_name sender path name size0 digest reply_size connection d =
     (case connection of None \<Rightarrow> (False, None, d)
      | Some c \<Rightarrow> (case protocol_connect_identity (shared_key destination) local_name c of
          (False, c) \<Rightarrow> (False, Some c, d)
        | (True, c) \<Rightarrow> (case network_send (take 511 (''STORE '' @ sender @ '' '' @ name @ '' '' @ show_nat size0 @ '' '' @ digest @ [CHR 0x0A])) c of
            (False, c) \<Rightarrow> (False, Some c, d)
          | (True, c) \<Rightarrow> (case network_read_line reply_size c of
              (None, c) \<Rightarrow> (False, Some c, d)
            | (Some reply, c) \<Rightarrow> if reply \<noteq> ''READY'' then (False, Some c, d)
                else (case file_transfer_send_stream path d c of
                    (False, d, c) \<Rightarrow> (False, Some c, d)
                  | (True, d, c) \<Rightarrow> (case network_read_line reply_size c of
                      (None, c) \<Rightarrow> (False, Some c, d)
                    | (Some reply, c) \<Rightarrow> (reply = ''STORED'', Some c, d)))))))"

section \<open>What is stored\<close>

lemma io_step_files: "files (snd (io_step d)) = files d"
  by (simp add: io_step_def)

lemma append_file_ok:
  "append_file path bs d = (True, d') \<Longrightarrow> files d path = Some old \<Longrightarrow>
     files d' = (files d)(path := Some (old @ bs))"
  "append_file path bs d = (False, d') \<Longrightarrow> files d' = files d"
  by (auto simp: append_file_def io_step_def split: if_splits bool.splits)

lemma remove_file_other: "p \<noteq> path \<Longrightarrow> files (remove_file path d) p = files d p"
  by (auto simp: remove_file_def io_step_def split: bool.splits)

text \<open>A loop that ends has read the announced number of bytes, written them and hashed them.\<close>

lemma receive_loop_reads:
  assumes "receive_loop n path h c d = (Some h', c', d')" "tracks h old" "files d path = Some old"
  shows "n \<le> length (incoming c) \<and> tracks h' (old @ text_bytes (take n (incoming c))) \<and>
    files d' = (files d)(path := Some (old @ text_bytes (take n (incoming c)))) \<and> c' = c\<lparr>incoming := drop n (incoming c)\<rparr>"
  using assms
proof (induction n path h c d arbitrary: old rule: receive_loop.induct)
  case (1 n path h c d)
  show ?case
  proof (cases "n = 0")
    case True
    then show ?thesis using 1(2-4) by (auto simp: receive_loop.simps [of 0] text_bytes_def fun_upd_idem)
  next
    case False
    define w where "w = min 16384 n"
    have w: "0 < w" "w \<le> n" using False by (simp_all add: w_def)
    let ?bs = "text_bytes (take w (incoming c))"
    let ?c = "c\<lparr>incoming := drop w (incoming c)\<rparr>"
    have fits: "w \<le> length (incoming c)"
      using 1(2) False by (auto simp: receive_loop.simps [of n] Let_def w_def network_read_bytes_def split: if_splits)
    have read: "network_read_bytes w c = (Some (take w (incoming c)), ?c)" using fits by (simp add: network_read_bytes_def)
    obtain ok d1 where ap: "append_file path ?bs d = (ok, d1)" by fastforce
    have ok: ok using 1(2) False read ap by (cases ok) (simp_all add: receive_loop.simps [of n] Let_def w_def [symmetric])
    have f1: "files d1 = (files d)(path := Some (old @ ?bs))" using append_file_ok(1) ap ok 1(4) by simp
    obtain h1 where h1: "sha256_update h ?bs = Some h1" "tracks h1 (old @ ?bs)" using update_tracks [OF 1(3)] by blast
    have loop: "receive_loop (n - w) path h1 ?c d1 = (Some h', c', d')"
      using 1(2) False read ap ok h1(1) by (simp add: receive_loop.simps [of n] Let_def w_def [symmetric])
    have all: "take w (incoming c) @ take (n - w) (drop w (incoming c)) = take n (incoming c)"
      using w(2) by (metis le_add_diff_inverse take_add)
    have "n - w \<le> length (incoming ?c) \<and> tracks h' ((old @ ?bs) @ text_bytes (take (n - w) (incoming ?c))) \<and>
      files d' = (files d1)(path := Some ((old @ ?bs) @ text_bytes (take (n - w) (incoming ?c)))) \<and>
      c' = ?c\<lparr>incoming := drop (n - w) (incoming ?c)\<rparr>"
      by (rule 1(1) [OF False w_def read [symmetric] refl ap [symmetric]]) (use ok loop h1 f1 in simp_all)
    moreover have "?bs @ text_bytes (take (n - w) (drop w (incoming c))) = text_bytes (take n (incoming c))"
      using all by (simp add: text_bytes_def flip: map_append)
    ultimately show ?thesis using fits w(2) f1 by auto
  qed
qed

lemma receive_loop_other: "p \<noteq> path \<Longrightarrow> receive_loop n path h c d = (r, c', d') \<Longrightarrow> files d' p = files d p"
proof (induction n path h c d rule: receive_loop.induct)
  case (1 n path h c d)
  show ?case
  proof (cases "n = 0")
    case True
    then show ?thesis using 1(3) by (simp add: receive_loop.simps [of 0])
  next
    case False
    obtain bs c1 where r: "network_read_bytes (min 16384 n) c = (bs, c1)" by fastforce
    show ?thesis
    proof (cases bs)
      case None
      then show ?thesis using 1(3) False r by (simp add: receive_loop.simps [of n] Let_def)
    next
      case (Some b)
      obtain ok d1 where ap: "append_file path (text_bytes b) d = (ok, d1)" by fastforce
      have f1: "files d1 p = files d p" using ap 1(2) by (auto simp: append_file_def io_step_def split: if_splits bool.splits)
      show ?thesis
      proof (cases ok)
        case True
        then have "receive_loop (n - min 16384 n) path (the (sha256_update h (text_bytes b))) c1 d1 = (r, c', d')"
          using 1(3) False r Some ap by (simp add: receive_loop.simps [of n] Let_def)
        then show ?thesis using 1(1) [OF False refl r [symmetric] Some ap [symmetric] _ 1(2)] True f1 by simp
      next
        case F: False
        then show ?thesis using 1(3) False r Some ap f1 by (simp add: receive_loop.simps [of n] Let_def)
      qed
    qed
  qed
qed

lemma open_new_files:
  "open_new path d = (True, d') \<Longrightarrow> files d' = (files d)(path := Some [])"
  "open_new path d = (False, d') \<Longrightarrow> files d' = files d"
  by (auto simp: open_new_def io_step_def split: if_splits bool.splits)

lemma rename_file_files:
  "rename_file old new d = (True, d') \<Longrightarrow> files d' = (files d)(new := files d old, old := None)"
  "rename_file old new d = (False, d') \<Longrightarrow> files d' = files d"
  by (auto simp: rename_file_def io_step_def split: if_splits bool.splits)

text \<open>The branches of a reception that got as far as its temporary file.\<close>

lemma receive_cases:
  assumes "file_transfer_receive_stream garbage random directory name n digest stored_size c d = (r, c', d')"
  obtains "\<exists>e. r = Inl e" "files d' = files d"
  | final where "final = stored_path directory (authentication_nonce random []) name" "length final < 1019"
      "\<exists>e. r = Inl e" "\<forall>p. p \<noteq> final @ ''.part'' \<longrightarrow> files d' p = files d p"
  | final d1 h c1 d2 d3 d4 where "final = stored_path directory (authentication_nonce random []) name" "length final < 1019"
      "file_transfer_name_is_safe name" "open_new (final @ ''.part'') d = (True, d1)"
      "receive_loop n (final @ ''.part'') (sha256_init garbage) c d1 = (Some h, c1, d2)" "files d3 = files d2"
      "hex_of_bytes (sha256_final h) = digest" "rename_file (final @ ''.part'') final d3 = (True, d4)"
      "r = Inr final" "c' = c1" "d' = d4" "random \<noteq> None"
proof -
  define final where "final = stored_path directory (authentication_nonce random []) name"
  define temp where "temp = final @ ''.part''"
  show thesis
  proof (cases "\<not> file_transfer_name_is_safe name \<or> random = None \<or> length final + 5 \<ge> 1024 \<or> length final \<ge> stored_size")
    case True
    then show thesis using assms that(1) unfolding file_transfer_receive_stream_def Let_def final_def [symmetric]
      by (auto split: if_splits)
  next
    case False
    obtain ok d1 where op: "open_new temp d = (ok, d1)" by fastforce
    obtain ho c1 d2 where lp: "receive_loop n temp (sha256_init garbage) c d1 = (ho, c1, d2)" by (metis prod_cases3)
    obtain ok3 d3 where cl: "io_step d2 = (ok3, d3)" by fastforce
    obtain ok4 d4 where rn: "rename_file temp final d3 = (ok4, d4)" by fastforce
    have f: "length final < 1019" using False by simp
    note A = assms [unfolded file_transfer_receive_stream_def Let_def, folded final_def, folded temp_def]
    have o1: "p \<noteq> temp \<Longrightarrow> files d1 p = files d p" for p using open_new_files op by (cases ok) auto
    have o2: "p \<noteq> temp \<Longrightarrow> files d2 p = files d p" for p using receive_loop_other [OF _ lp] o1 by simp
    have d3: "files d3 = files d2" using io_step_files [of d2] cl by simp
    have rm: "p \<noteq> temp \<Longrightarrow> files e = files d2 \<Longrightarrow> files (remove_file temp e) p = files d p" for p e
      using remove_file_other o2 by simp
    consider "\<not> ok" | "ok" "ho = None" | h where "ok" "ho = Some h" "\<not> ok3 \<or> hex_of_bytes (sha256_final h) \<noteq> digest \<or> \<not> ok4"
      | h where "ok" "ho = Some h" "ok3" "hex_of_bytes (sha256_final h) = digest" "ok4" by (cases ho) auto
    then show thesis
    proof cases
      case 1
      then have "r = Inl (-1)" "d' = d1" using A False op by (auto split: if_splits)
      then show thesis using that(1) open_new_files(2) op 1 by simp
    next
      case 2
      then have "r = Inl (-1)" "d' = remove_file temp (snd (io_step d2))" using A False op lp by (auto split: if_splits)
      then show thesis using that(2) [OF final_def f] rm io_step_files unfolding temp_def [symmetric] by blast
    next
      case 3
      then have "(\<exists>e. r = Inl e) \<and> (d' = remove_file temp d3 \<or> d' = remove_file temp d4 \<and> \<not> ok4)"
        using A False op lp cl rn by (cases ok3; cases ok4) (auto split: if_splits)
      moreover have "\<not> ok4 \<Longrightarrow> files d4 = files d2" using rename_file_files(2) rn d3 by simp
      ultimately show thesis using that(2) [OF final_def f] rm d3 unfolding temp_def [symmetric] by blast
    next
      case 4
      then have "r = Inr final" "c' = c1" "d' = d4" using A False op lp cl rn by (auto split: if_splits)
      then show thesis using that(3) [of final d1 h c1 d2 d3 d4] final_def f False op lp d3 4 rn temp_def by simp
    qed
  qed
qed


lemma stored_path_whole: "length (stored_path directory nonce name) < 1019 \<Longrightarrow>
  stored_path directory nonce name = directory @ ''/'' @ nonce @ ''-'' @ name"
  by (simp add: stored_path_def)

lemma hex_digit_no_slash: "n < 16 \<Longrightarrow> hex_digit n \<noteq> CHR ''/''"
proof -
  have "\<forall>n \<in> set [0..<16]. hex_digit n \<noteq> CHR ''/''" by code_simp
  then show "n < 16 \<Longrightarrow> hex_digit n \<noteq> CHR ''/''" by simp
qed

lemma hex_no_slash: "CHR ''/'' \<notin> set (hex_of_bytes bs)"
proof -
  have "unat (b :: u8) div 16 < 16" for b
  proof -
    have "unat b < 256" using unsigned_less [of b] by simp
    then show ?thesis by simp
  qed
  then show ?thesis using hex_digit_no_slash [THEN not_sym] by (auto simp: hex_of_bytes_def hex_byte_def)
qed

lemma safe_no_slash: "file_transfer_name_is_safe name \<Longrightarrow> CHR ''/'' \<notin> set name"
  by (auto simp: file_transfer_name_is_safe_def list_all_iff c_isalnum_def)

text \<open>C36: What a reception leaves on the disk. When it reports a stored path, the file there holds exactly the announced
  number of bytes of the connection and has the announced digest, its path is the configured directory followed by
  a name without a slash, the temporary file is gone and no other file has changed. When it reports a failure, no
  file but a temporary one has changed.\<close>

theorem stored_file_verified:
  assumes "file_transfer_receive_stream garbage random directory name n digest stored_size c d = (r, c', d')"
    and "length garbage = 64"
  shows "case r of
      Inl e \<Rightarrow> (\<exists>base. \<forall>p. p \<noteq> base @ ''.part'' \<longrightarrow> files d' p = files d p)
    | Inr path \<Rightarrow> (\<exists>local. path = directory @ ''/'' @ local \<and> CHR ''/'' \<notin> set local \<and>
        n \<le> length (incoming c) \<and> incoming c' = drop n (incoming c) \<and>
        files d' = (files d)(path := Some (text_bytes (take n (incoming c))), path @ ''.part'' := None) \<and>
        hex_of_bytes (sha256 (text_bytes (take n (incoming c)))) = digest)"
proof (rule receive_cases [OF assms(1)])
  assume "\<exists>e. r = Inl e" "files d' = files d"
  then show ?thesis by auto
next
  fix final
  assume "\<exists>e. r = Inl e" "\<forall>p. p \<noteq> final @ ''.part'' \<longrightarrow> files d' p = files d p"
  then show ?thesis by (auto intro: exI [of _ final])
next
  fix final d1 h c1 d2 d3 d4
  assume final: "final = stored_path directory (authentication_nonce random []) name" "length final < 1019"
    and safe: "file_transfer_name_is_safe name" and op: "open_new (final @ ''.part'') d = (True, d1)"
    and lp: "receive_loop n (final @ ''.part'') (sha256_init garbage) c d1 = (Some h, c1, d2)"
    and d3: "files d3 = files d2" and hex: "hex_of_bytes (sha256_final h) = digest"
    and rn: "rename_file (final @ ''.part'') final d3 = (True, d4)"
    and res: "r = Inr final" "c' = c1" "d' = d4" and rnd: "random \<noteq> None"
  let ?data = "text_bytes (take n (incoming c))"
  have t: "tracks (sha256_init garbage) []" using holds_init [OF assms(2)] by (simp add: tracks_def sha256_init_def)
  have f1: "files d1 = (files d)(final @ ''.part'' := Some [])" using open_new_files(1) [OF op] .
  have l: "n \<le> length (incoming c)" "tracks h ?data" "files d2 = (files d1)(final @ ''.part'' := Some ?data)"
    "incoming c1 = drop n (incoming c)"
    using receive_loop_reads [OF lp t] f1 by simp_all
  have "files d4 = (files d)(final := Some ?data, final @ ''.part'' := None)"
    using rename_file_files(1) [OF rn] l(3) d3 f1 by (auto simp: fun_eq_iff)
  moreover have "final = directory @ ''/'' @ authentication_nonce random [] @ ''-'' @ name"
    using stored_path_whole final by blast
  moreover have "CHR ''/'' \<notin> set (authentication_nonce random [] @ ''-'' @ name)"
    using safe_no_slash [OF safe] hex_no_slash rnd by (auto simp: authentication_nonce_def)
  ultimately show ?thesis using l final_tracks [OF l(2)] hex res by auto
qed


section \<open>A file sent is received\<close>

lemma io_step_free: "io_plan d = [] \<Longrightarrow> io_step d = (True, d)"
  by (simp add: io_step_def)

lemma receive_loop_succeeds:
  "io_plan d = [] \<Longrightarrow> n \<le> length (incoming c) \<Longrightarrow> \<exists>h' c' d'. receive_loop n path h c d = (Some h', c', d') \<and> io_plan d' = []"
proof (induction n path h c d rule: receive_loop.induct)
  case (1 n path h c d)
  show ?case
  proof (cases "n = 0")
    case True
    then show ?thesis using 1(2) by (simp add: receive_loop.simps [of 0])
  next
    case False
    define w where "w = min 16384 n"
    let ?bs = "take w (incoming c)"
    let ?c = "c\<lparr>incoming := drop w (incoming c)\<rparr>"
    let ?d = "d\<lparr>files := (files d)(path := map_option (\<lambda>old. old @ text_bytes ?bs) (files d path))\<rparr>"
    have read: "network_read_bytes w c = (Some ?bs, ?c)" using 1(3) by (simp add: network_read_bytes_def w_def)
    have ap: "append_file path (text_bytes ?bs) d = (True, ?d)" using io_step_free [OF 1(2)] by (simp add: append_file_def)
    have "\<exists>h' c' d'. receive_loop (n - w) path (the (sha256_update h (text_bytes ?bs))) ?c ?d = (Some h', c', d') \<and> io_plan d' = []"
      by (rule 1(1) [OF False w_def read [symmetric] refl ap [symmetric]]) (use 1(2,3) in \<open>auto simp: w_def\<close>)
    then show ?thesis using False read ap by (simp add: receive_loop.simps [of n] Let_def w_def [symmetric])
  qed
qed

lemma receive_succeeds:
  assumes "io_plan d = []" "n \<le> length (incoming c)" "length garbage = 64" "file_transfer_name_is_safe name"
    and "length directory \<le> 800"
    and "hex_of_bytes (sha256 (text_bytes (take n (incoming c)))) = digest"
  shows "\<exists>c' d'. file_transfer_receive_stream garbage (Some bytes) directory name n digest 1024 c d =
    (Inr (directory @ ''/'' @ authentication_nonce (Some bytes) [] @ ''-'' @ name), c', d')"
proof -
  let ?nonce = "authentication_nonce (Some bytes) []"
  define final where "final = stored_path directory ?nonce name"
  have nl: "length ?nonce \<le> 32" by (simp add: authentication_nonce_def hex_of_bytes_text)
  have "length name < 128" using assms(4) by (simp add: file_transfer_name_is_safe_def COUNCIL_FILE_NAME_def)
  then have fl: "length final < 1019" using nl assms(5) by (simp add: final_def stored_path_def)
  let ?d = "d\<lparr>files := (files d)(final @ ''.part'' := Some [])\<rparr>"
  have op: "open_new (final @ ''.part'') d = (True, ?d)" using io_step_free [OF assms(1)] by (simp add: open_new_def)
  have p: "io_plan ?d = []" using assms(1) by simp
  obtain h c1 d1 where lp: "receive_loop n (final @ ''.part'') (sha256_init garbage) c ?d = (Some h, c1, d1)" "io_plan d1 = []"
    using receive_loop_succeeds [OF p assms(2)] by blast
  have t: "tracks (sha256_init garbage) []" using holds_init [OF assms(3)] by (simp add: tracks_def sha256_init_def)
  have "tracks h (text_bytes (take n (incoming c)))" using receive_loop_reads [OF lp(1) t] by simp
  then have hx: "hex_of_bytes (sha256_final h) = digest" using final_tracks assms(6) by simp
  obtain d2 where "rename_file (final @ ''.part'') final d1 = (True, d2)" using io_step_free [OF lp(2)] by (simp add: rename_file_def)
  then have "file_transfer_receive_stream garbage (Some bytes) directory name n digest 1024 c d = (Inr final, c1, d2)"
    unfolding file_transfer_receive_stream_def Let_def final_def [symmetric]
    using fl op lp(1) io_step_free [OF lp(2)] hx assms(4) by simp
  then show ?thesis using stored_path_whole fl final_def by metis
qed







definition empty_disk :: Disk where "empty_disk = \<lparr>files = (\<lambda>p. None), io_plan = []\<rparr>"

definition sample_stream :: Conn where "sample_stream = \<lparr>incoming = ''abcOK'', outgoing = [], send_plan = []\<rparr>"



theorem stored_file_verified_witness:
  "\<exists>c' d'. file_transfer_receive_stream (replicate 64 0) (Some []) ''/var/council'' ''note.txt'' 3
     (hex_of_bytes (sha256 (text_bytes ''abc''))) 1024 sample_stream empty_disk = (Inr ''/var/council/-note.txt'', c', d') \<and>
   (\<forall>p. p \<noteq> ''/var/council/-note.txt'' \<longrightarrow> files d' p = None) \<and> incoming c' = ''OK''"
proof -
  have g: "length (replicate 64 0) = 64" by simp
  have "file_transfer_name_is_safe ''note.txt''"
    by (simp add: file_transfer_name_is_safe_def COUNCIL_FILE_NAME_def c_isalnum_def)
  then obtain c' d' where r: "file_transfer_receive_stream (replicate 64 0) (Some []) ''/var/council'' ''note.txt'' 3
     (hex_of_bytes (sha256 (text_bytes ''abc''))) 1024 sample_stream empty_disk = (Inr ''/var/council/-note.txt'', c', d')"
    using receive_succeeds [of empty_disk 3 sample_stream "replicate 64 0" "''note.txt''" "''/var/council''" _ "[]"]
    by (auto simp: empty_disk_def sample_stream_def authentication_nonce_def hex_of_bytes_def)
  show ?thesis using stored_file_verified [OF r g] r by (auto simp: sample_stream_def empty_disk_def)
qed

end
