(* ===== verification/Council_Service.thy ===== *)
theory Council_Service
  imports Council_Files "HOL-Library.Sublist"
begin

text \<open>
  The Council service: \<open>src/council/src/council_service.c\<close>, \<open>src/council/src/arbitration.c\<close> and
  \<open>src/council/src/file_commands.c\<close>. A contact is its position in the contact book. Each reading of the clock
  first lets some seconds pass; each attempt to reach a contact takes the next connection planned for it, and
  the connections that were used are kept with what was sent on them. A connection is handled as one step.
\<close>

section \<open>State\<close>

record Council =
  config :: service_config
  contacts :: contact_book
  next_index :: nat
  current_speaker :: string
  online :: "bool list"
  last_seen :: "nat list"
  activity_until :: nat
  closure_id :: nat
  closure_active :: bool
  closure_expected :: "bool list"
  closure_votes :: "int list"
  closure_proposer :: string
  transcript :: LogFile
  inbox :: LogFile
  activity :: Activity
  disk :: Disk
  memory :: string
  wall :: nat
  ticks :: "nat list"
  peers :: "nat \<Rightarrow> Conn option list"
  calls :: "(nat \<times> Conn option) list"

definition CONVERSATION_LEASE_SECONDS :: nat where "CONVERSATION_LEASE_SECONDS = 300"

definition wall_now :: "Council \<Rightarrow> nat \<times> Council" where
  "wall_now s = (let t = wall s + (case ticks s of [] \<Rightarrow> 0 | d # _ \<Rightarrow> d) in (t, s\<lparr>wall := t, ticks := tl (ticks s)\<rparr>))"

definition log_transcript :: "string \<Rightarrow> string \<Rightarrow> string \<Rightarrow> Council \<Rightarrow> Council" where
  "log_transcript who event message s = (case wall_now s of (t, s) \<Rightarrow>
     s\<lparr>transcript := transcript_append t who event message (transcript s)\<rparr>)"

definition log_inbox :: "string \<Rightarrow> string \<Rightarrow> string \<Rightarrow> Council \<Rightarrow> Council" where
  "log_inbox who event message s = (case wall_now s of (t, s) \<Rightarrow>
     s\<lparr>inbox := transcript_append t who event message (inbox s)\<rparr>)"

definition activity_mark :: "Council \<Rightarrow> Council" where
  "activity_mark s = (case wall_now s of (t, s) \<Rightarrow> s\<lparr>activity := conversation_activity_mark t (activity s)\<rparr>)"

definition name_of :: "Council \<Rightarrow> nat \<Rightarrow> string" where
  "name_of s i = contact_name (contacts s ! i)"

section \<open>Turns\<close>

definition arbitration_grant :: "string \<Rightarrow> Council \<Rightarrow> Council" where
  "arbitration_grant n s = s\<lparr>current_speaker := take (COUNCIL_NAME_LENGTH - 1) n\<rparr>"

definition arbitration_init :: "Council \<Rightarrow> Council" where
  "arbitration_init s = s\<lparr>next_index := 0, current_speaker := []\<rparr>"

definition arbitration_can_speak :: "Council \<Rightarrow> string \<Rightarrow> bool" where
  "arbitration_can_speak s n \<longleftrightarrow> current_speaker s = [] \<or> current_speaker s = n"

definition turn_index :: "Council \<Rightarrow> nat \<Rightarrow> nat" where
  "turn_index s checked = (next_index s + checked) mod length (contacts s)"

definition may_take_turn :: "Council \<Rightarrow> string \<Rightarrow> nat \<Rightarrow> bool" where
  "may_take_turn s previous i \<longleftrightarrow> online s ! i \<and> name_of s i \<noteq> previous"

definition arbitration_next :: "string \<Rightarrow> Council \<Rightarrow> nat option \<times> Council" where
  "arbitration_next previous s =
     (case List.find (\<lambda>checked. may_take_turn s previous (turn_index s checked)) [0..<length (contacts s)] of
        None \<Rightarrow> (None, s\<lparr>current_speaker := []\<rparr>)
      | Some checked \<Rightarrow> let i = turn_index s checked
          in (Some i, arbitration_grant (name_of s i) (s\<lparr>next_index := (i + 1) mod length (contacts s)\<rparr>)))"

section \<open>Presence and the lease\<close>

definition mark_seen :: "nat \<Rightarrow> Council \<Rightarrow> Council" where
  "mark_seen i s = (case wall_now s of (t, s) \<Rightarrow> s\<lparr>online := (online s)[i := True], last_seen := (last_seen s)[i := t]\<rparr>)"

definition activity_log :: "Council \<Rightarrow> LogFile" where
  "activity_log s = (if is_hub (config s) then transcript s else inbox s)"

definition mark_activity :: "Council \<Rightarrow> Council" where
  "mark_activity s = (case wall_now s of (t, s) \<Rightarrow> activity_mark (s\<lparr>activity_until := t + CONVERSATION_LEASE_SECONDS\<rparr>))"

definition lease_remaining :: "nat \<Rightarrow> int \<Rightarrow> Council \<Rightarrow> int" where
  "lease_remaining t remaining s = (if activity_until s > t \<and> int (activity_until s) - int t > remaining
     then int (activity_until s) - int t else remaining)"

definition busy_remaining :: "Council \<Rightarrow> int \<times> Council" where
  "busy_remaining s = (case wall_now s of (t, s) \<Rightarrow>
     let remaining = conversation_activity_remaining t (activity s) (activity_log s) (int CONVERSATION_LEASE_SECONDS)
     in case wall_now s of (now, s) \<Rightarrow> (lease_remaining now remaining s, s))"

definition reserve_initiation :: "Council \<Rightarrow> int \<times> Council" where
  "reserve_initiation s = (case wall_now s of (now, s) \<Rightarrow> (case wall_now s of (t, s) \<Rightarrow>
     let remaining = lease_remaining now
           (conversation_activity_remaining t (activity s) (activity_log s) (int CONVERSATION_LEASE_SECONDS)) s
     in if remaining = 0 then (0, activity_mark (s\<lparr>activity_until := now + CONVERSATION_LEASE_SECONDS\<rparr>))
        else (remaining, s)))"

definition release_initiation :: "Council \<Rightarrow> Council" where
  "release_initiation s = s\<lparr>activity_until := 0, activity := conversation_activity_clear (activity s)\<rparr>"

section \<open>Reaching contacts\<close>

definition outbound_contact :: "Council \<Rightarrow> nat \<Rightarrow> contact option" where
  "outbound_contact s i = (case contact_book_find (contacts s) (cfg_name (config s)) of None \<Rightarrow> None
     | Some me \<Rightarrow> Some ((contacts s ! i)\<lparr>shared_key := take (COUNCIL_KEY_LENGTH - 1) (shared_key (contacts s ! me))\<rparr>))"

definition take_peer :: "nat \<Rightarrow> Council \<Rightarrow> Conn option \<times> Council" where
  "take_peer i s = (case peers s i of [] \<Rightarrow> (None, s) | p # ps \<Rightarrow> (p, s\<lparr>peers := (peers s)(i := ps)\<rparr>))"

definition record_call :: "nat \<Rightarrow> Conn option \<Rightarrow> Council \<Rightarrow> Council" where
  "record_call i p s = s\<lparr>calls := calls s @ [(i, p)]\<rparr>"

definition deliver :: "nat \<Rightarrow> string \<Rightarrow> Council \<Rightarrow> bool \<times> Council" where
  "deliver i command s = (case outbound_contact s i of
       None \<Rightarrow> (False, s\<lparr>online := (online s)[i := False]\<rparr>)
     | Some to \<Rightarrow> (case take_peer i s of (p, s) \<Rightarrow>
         (case protocol_send_command (shared_key to) (cfg_name (config s)) command 128 p of (r, p) \<Rightarrow>
            (r \<noteq> None, record_call i p (s\<lparr>online := (online s)[i := (r \<noteq> None)]\<rparr>)))))"

definition message_target :: "Council \<Rightarrow> string \<Rightarrow> nat option \<times> bool" where
  "message_target s message =
     (let prefix = takeWhile (\<lambda>c. c \<noteq> CHR '','' \<and> c \<noteq> CHR '':'') message
      in if length prefix = length message \<or> CHR '' '' \<in> set prefix then (None, False)
         else case List.find (\<lambda>i. name_of s i = prefix) [0..<length (contacts s)] of
           None \<Rightarrow> (None, False) | Some i \<Rightarrow> (Some i, True))"

section \<open>Relaying a message\<close>

text \<open>The state of the loop over the contacts: who speaks next, and the service.\<close>

definition relay_step :: "nat \<Rightarrow> nat option \<Rightarrow> string \<Rightarrow> nat \<Rightarrow> nat option \<times> Council \<Rightarrow> nat option \<times> Council" where
  "relay_step from target message i st = (case st of (next, s) \<Rightarrow>
     if role (contacts s ! i) \<noteq> CONTACT_AI \<or> i = from \<or> (target \<noteq> None \<and> target \<noteq> Some i) then (next, s)
     else let limit = COUNCIL_MESSAGE_LENGTH - length (name_of s from) - 10;
              command = take (COUNCIL_MESSAGE_LENGTH - 1) (''DELIVER '' @ name_of s from @ '' '' @ take limit message)
          in case deliver i command s of (ok, s) \<Rightarrow> (if ok \<and> target \<noteq> None then target else next, s))"

text \<open>Before the loop a human target that is here is the next speaker.\<close>

definition relay_start :: "nat option \<Rightarrow> Council \<Rightarrow> nat option" where
  "relay_start target s = (case target of None \<Rightarrow> None
     | Some i \<Rightarrow> if role (contacts s ! i) = CONTACT_HUMAN \<and> online s ! i then Some i else None)"

definition relay_choose :: "nat \<Rightarrow> nat option \<Rightarrow> nat option \<times> Council \<Rightarrow> nat option \<times> Council" where
  "relay_choose from target st = (case st of (next, s) \<Rightarrow>
     if target = None then arbitration_next (name_of s from) s
     else (next, case next of None \<Rightarrow> s | Some i \<Rightarrow> arbitration_grant (name_of s i) s))"

definition relay_finish :: "nat \<Rightarrow> nat option \<times> Council \<Rightarrow> int \<times> Council" where
  "relay_finish from st = (case st of (None, s) \<Rightarrow> (-1, s)
     | (Some i, s) \<Rightarrow>
         let s = (if role (contacts s ! i) = CONTACT_AI
                  then snd (deliver i (take (COUNCIL_MESSAGE_LENGTH - 1) (''SPEAK '' @ name_of s from)) s) else s)
         in (0, log_transcript (cfg_name (config s)) ''grant'' (name_of s i) s))"

definition relay_message :: "nat \<Rightarrow> string \<Rightarrow> Council \<Rightarrow> int \<times> Council" where
  "relay_message from message s = (case message_target s message of (target, addressed) \<Rightarrow>
     if addressed \<and> target = None then (-2, s)
     else if target = Some from then (-3, s)
     else relay_finish from (relay_choose from target
       (fold (relay_step from target message) [0..<length (contacts s)] (relay_start target s, s))))"

definition send_line :: "string \<Rightarrow> Conn \<Rightarrow> Conn" where
  "send_line l c = snd (network_send (l @ [log_end]) c)"

definition accept_message :: "nat \<Rightarrow> string \<Rightarrow> string \<Rightarrow> bool \<Rightarrow> Conn \<times> Council \<Rightarrow> Conn \<times> Council" where
  "accept_message person message event reserved st = (case st of (c, s) \<Rightarrow> (case relay_message person message s of (routed, s) \<Rightarrow>
     let refused = (if reserved then release_initiation s else s)
     in if routed = -2 then (send_line ''ERROR TARGET_UNKNOWN'' c, refused)
        else if routed = -3 then (send_line ''ERROR TARGET_SELF'' c, refused)
        else if routed \<noteq> 0 then (send_line ''ERROR TARGET_OFFLINE'' c, refused)
        else (send_line ''ACCEPTED'' c, mark_activity (log_transcript (name_of s person) event message s))))"

section \<open>Reports\<close>

definition seen_recently :: "nat \<Rightarrow> Council \<Rightarrow> nat \<Rightarrow> bool" where
  "seen_recently t s i \<longleftrightarrow> last_seen s ! i \<noteq> 0 \<and> int t - int (last_seen s ! i) \<le> sint (presence_seconds (config s))"

definition status_step :: "nat \<Rightarrow> nat \<Rightarrow> Conn \<times> Council \<Rightarrow> Conn \<times> Council" where
  "status_step t i st = (case st of (c, s) \<Rightarrow>
     (case (if role (contacts s ! i) = CONTACT_AI
            then (case outbound_contact s i of None \<Rightarrow> (False, s)
                  | Some to \<Rightarrow> (case take_peer i s of (p, s) \<Rightarrow>
                      (presence_check (shared_key to) (cfg_name (config s)) p,
                       record_call i (snd (protocol_send_command (shared_key to) (cfg_name (config s)) ''PING'' 64 p)) s)))
            else (seen_recently t s i, s)) of (here, s) \<Rightarrow>
        (send_line (''PRESENCE '' @ name_of s i @ '' '' @ (if here then ''online'' else ''offline'')) c,
         s\<lparr>online := (online s)[i := here]\<rparr>)))"

definition offline_grant :: "string \<Rightarrow> Council \<Rightarrow> Council" where
  "offline_grant current s = (case arbitration_next current s of
       (None, s) \<Rightarrow> s
     | (Some i, s) \<Rightarrow>
         let s = (if role (contacts s ! i) = CONTACT_AI then snd (deliver i (''SPEAK offline:'' @ current) s) else s)
         in log_transcript (cfg_name (config s)) ''offline-grant'' (current @ '' -> '' @ name_of s i) s)"

definition send_status :: "Conn \<times> Council \<Rightarrow> Conn \<times> Council" where
  "send_status st = (case st of (c, s) \<Rightarrow> (case wall_now s of (t, s) \<Rightarrow>
     (case fold (status_step t) [0..<length (contacts s)] (c, s) of (c, s) \<Rightarrow>
        let c = send_line ''END'' c; current = current_speaker s
        in if current = [] then (c, s)
           else case contact_book_find (contacts s) current of
               Some holder \<Rightarrow> if online s ! holder then (c, s) else (c, offline_grant current s)
             | None \<Rightarrow> (c, offline_grant current s))))"


fun send_all :: "string list \<Rightarrow> Conn \<Rightarrow> bool \<times> Conn" where
  "send_all [] c = (True, c)"
| "send_all (l # ls) c = (case network_send l c of (False, c) \<Rightarrow> (False, c) | (True, c) \<Rightarrow> send_all ls c)"

definition send_events :: "int \<Rightarrow> Council \<Rightarrow> Conn \<Rightarrow> Conn" where
  "send_events offset s c =
     (if \<not> is_hub (config s) then send_line ''ERROR NOT_ARBITER'' c
      else case stream_since offset (transcript s) of (lines, position) \<Rightarrow>
        (case send_all lines c of
           (False, c) \<Rightarrow> send_line ''ERROR TRANSCRIPT'' c
         | (True, c) \<Rightarrow>
             send_line ''END'' (send_line (''CLOSURE '' @ (if closure_active s then ''open'' else ''none'') @ '' '' @
               show_nat (closure_id s) @ '' '' @ (if closure_active s then closure_proposer s else ''none''))
               (send_line (''TURN '' @ (if current_speaker s \<noteq> [] then current_speaker s else ''none''))
               (send_line (''CURSOR '' @ show_nat position) c)))))"

definition send_context :: "nat \<Rightarrow> Council \<Rightarrow> Conn \<Rightarrow> Conn" where
  "send_context person s c =
     (if \<not> is_hub (config s) then send_line ''ERROR NOT_ARBITER'' c
      else case send_all (stream_context (name_of s person) (transcript s)) (send_line ''CONTEXT_BEGIN'' c) of
          (False, c) \<Rightarrow> send_line ''ERROR TRANSCRIPT'' c
        | (True, c) \<Rightarrow> send_line ''CONTEXT_END'' c)"

section \<open>Closing a conversation\<close>

definition closure_complete :: "Council \<Rightarrow> bool" where
  "closure_complete s = list_all (\<lambda>i. closure_expected s ! i \<longrightarrow> closure_votes s ! i = 1) [0..<length (contacts s)]"

definition closure_finish :: "Council \<Rightarrow> Council" where
  "closure_finish s = release_initiation (arbitration_grant []
     ((log_transcript (cfg_name (config s)) ''conversation-end'' (''proposal='' @ show_nat (closure_id s) @ '' unanimous'') s)
      \<lparr>closure_active := False\<rparr>))"

definition closure_propose :: "nat \<Rightarrow> string \<Rightarrow> bool \<Rightarrow> Conn \<times> Council \<Rightarrow> Conn \<times> Council" where
  "closure_propose person reason has_turn st = (case st of (c, s) \<Rightarrow> (case wall_now s of (t, s) \<Rightarrow>
     if \<not> is_hub (config s) \<or> sint (arbiter_priority (contacts s ! person)) \<le> 0 then (send_line ''ERROR ARBITER_ONLY'' c, s)
     else if \<not> has_turn then (send_line ''ERROR NOT_YOUR_TURN'' c, s)
     else if closure_active s then (send_line ''ERROR CLOSURE_ACTIVE'' c, s)
     else
       let here = (\<lambda>i. i < length (contacts s) \<and>
             (if role (contacts s ! i) = CONTACT_AI then online s ! i else seen_recently t s i));
           s = s\<lparr>closure_active := True, closure_id := t, closure_proposer := take (COUNCIL_NAME_LENGTH - 1) (name_of s person),
                 closure_expected := map here [0..<COUNCIL_MAX_CONTACTS],
                 closure_votes := map (\<lambda>i. if here i \<and> i = person then 1 else 0) [0..<COUNCIL_MAX_CONTACTS]\<rparr>;
           detail = take (COUNCIL_MESSAGE_LENGTH - 1) (''proposal='' @ show_nat (closure_id s) @ '' reason='' @
             take (COUNCIL_MESSAGE_LENGTH - 48) (if reason \<noteq> [] then reason else ''conversation appears complete''));
           s = log_transcript (name_of s person) ''end-proposal'' detail s
       in (send_line ''ACCEPTED'' c, if closure_complete s then closure_finish s else s)))"

definition close_vote :: "string \<Rightarrow> bool" where
  "close_vote vote \<longleftrightarrow> starts_with ''close'' vote \<and> (length vote = 5 \<or> vote ! 5 = CHR '' '')"

definition continue_vote :: "string \<Rightarrow> bool" where
  "continue_vote vote \<longleftrightarrow> starts_with ''continue '' vote \<and> length vote > 9"

definition vote_detail :: "nat \<Rightarrow> string \<Rightarrow> string" where
  "vote_detail proposal vote = take (COUNCIL_MESSAGE_LENGTH - 1) (''proposal='' @ show_nat proposal @ '' vote='' @
     (if close_vote vote then ''close'' else ''continue'') @ '' reason='' @ take (COUNCIL_MESSAGE_LENGTH - 80)
       (case strchr vote CHR '' '' of Some r \<Rightarrow> drop 1 r | None \<Rightarrow> if close_vote vote then ''no further matters'' else []))"

text \<open>The end of a vote that was recorded.\<close>

definition vote_outcome :: "nat \<Rightarrow> string \<Rightarrow> Council \<Rightarrow> Council" where
  "vote_outcome person vote s =
     (if continue_vote vote
      then mark_activity (log_transcript (cfg_name (config s)) ''grant'' (name_of s person)
             (log_transcript (cfg_name (config s)) ''end-cancelled'' (name_of s person)
               (arbitration_grant (name_of s person) (s\<lparr>closure_active := False\<rparr>))))
      else if closure_complete s then closure_finish s else s)"

definition closure_vote :: "nat \<Rightarrow> string \<Rightarrow> Conn \<times> Council \<Rightarrow> Conn \<times> Council" where
  "closure_vote person vote st = (case st of (c, s) \<Rightarrow>
     if \<not> close_vote vote \<and> \<not> continue_vote vote then (send_line ''ERROR VOTE_USE_CLOSE_OR_CONTINUE_WITH_REASON'' c, s)
     else if \<not> closure_active s \<or> \<not> closure_expected s ! person then (send_line ''ERROR NO_CLOSURE_VOTE'' c, s)
     else (send_line ''ACCEPTED'' c,
       vote_outcome person vote (log_transcript (name_of s person) ''end-vote'' (vote_detail (closure_id s) vote)
         (s\<lparr>closure_votes := (closure_votes s)[person := (if close_vote vote then 1 else -1)]\<rparr>))))"

section \<open>File commands\<close>

definition ULLONG_MAX :: int where "ULLONG_MAX = 2 ^ 64 - 1"

text \<open>The directive \<open>%llu\<close>: too large a number gives the largest one, and a minus sign negates modulo \<open>2 ^ 64\<close>.\<close>

definition scan_llu :: "string \<Rightarrow> (64 word \<times> string) option" where
  "scan_llu t =
     (let (neg, u) = split_sign (dropWhile c_isspace t); ds = takeWhile isDigit u; v = digits_value ds
      in if ds = [] then None
         else Some (if v > ULLONG_MAX then word_of_int ULLONG_MAX else if neg then - word_of_int v else word_of_int v,
                    dropWhile isDigit u))"

definition parse_file :: "string \<Rightarrow> (string \<times> string \<times> 64 word \<times> string) option" where
  "parse_file t = (case scan_s 63 t of None \<Rightarrow> None
     | Some (who, t) \<Rightarrow> (case scan_s 127 t of None \<Rightarrow> None
       | Some (name, t) \<Rightarrow> (case scan_llu t of None \<Rightarrow> None
         | Some (n, t) \<Rightarrow> (case scan_s 64 t of None \<Rightarrow> None
           | Some (digest, _) \<Rightarrow> Some (who, name, n, digest)))))"

definition find_ai :: "contact_book \<Rightarrow> string \<Rightarrow> nat option" where
  "find_ai book name = (case contact_book_find book name of None \<Rightarrow> None
     | Some i \<Rightarrow> if role (book ! i) = CONTACT_AI then Some i else None)"

definition receive_file :: "u8 list \<Rightarrow> u8 list option \<Rightarrow> string \<Rightarrow> 64 word \<Rightarrow> string \<Rightarrow> Conn \<times> Council \<Rightarrow> (int + string) \<times> Conn \<times> Council" where
  "receive_file garbage random name n digest st = (case st of (c, s) \<Rightarrow>
     (case file_transfer_receive_stream garbage random (files_directory (config s)) name (unat n) digest 1024 c (disk s) of
        (r, c, d) \<Rightarrow> (r, c, s\<lparr>disk := d\<rparr>)))"

definition forward_file :: "nat \<Rightarrow> string \<Rightarrow> string \<Rightarrow> string \<Rightarrow> 64 word \<Rightarrow> string \<Rightarrow> Council \<Rightarrow> bool \<times> Council" where
  "forward_file i sender path name n digest s = (case take_peer i s of (p, s) \<Rightarrow>
     (case file_transfer_forward (contacts s ! i) (cfg_name (config s)) sender path name (unat n) digest 128 p (disk s) of
        (ok, p, d) \<Rightarrow> (ok, record_call i p (s\<lparr>disk := d\<rparr>))))"

definition offer_command :: "u8 list \<Rightarrow> u8 list option \<Rightarrow> string \<Rightarrow> nat \<Rightarrow> bool \<Rightarrow> Conn \<times> Council \<Rightarrow> Conn \<times> Council" where
  "offer_command garbage random line sender has_turn st = (case st of (c, s) \<Rightarrow>
     if role (contacts s ! sender) \<noteq> CONTACT_HUMAN then (send_line ''ERROR HUMAN_FILES_ONLY'' c, s)
     else if \<not> has_turn then (send_line ''ERROR NOT_YOUR_TURN'' c, s)
     else case parse_file (drop 5 line) of None \<Rightarrow> (send_line ''ERROR FILE_HEADER'' c, s)
       | Some (target_name, name, n, digest) \<Rightarrow>
           if n > max_file_bytes (config s) then (send_line ''ERROR FILE_TOO_LARGE'' c, s)
           else case find_ai (contacts s) target_name of None \<Rightarrow> (send_line ''ERROR TARGET_UNKNOWN'' c, s)
             | Some target \<Rightarrow> (case network_send (''READY'' @ [log_end]) c of (False, c) \<Rightarrow> (c, s)
                 | (True, c) \<Rightarrow> (case receive_file garbage random name n digest (c, s) of
                     (Inl e, c, s) \<Rightarrow> (send_line (if e = -2 then ''ERROR FILE_DIGEST'' else ''ERROR FILE_STORE'') c, s)
                   | (Inr stored, c, s) \<Rightarrow> (case forward_file target (name_of s sender) stored name n digest s of
                       (False, s) \<Rightarrow> (send_line ''ERROR TARGET_OFFLINE'' c, log_transcript (name_of s sender) ''file-pending''
                          (take 1399 (target_name @ '' '' @ name @ '' retained:'' @ stored)) s)
                     | (True, s) \<Rightarrow> (send_line ''STORED'' c, activity_mark (log_transcript (name_of s sender) ''file''
                          (take 1399 (target_name @ '' '' @ name @ '' stored:'' @ stored)) s))))))"

definition store_command :: "u8 list \<Rightarrow> u8 list option \<Rightarrow> string \<Rightarrow> nat \<Rightarrow> Conn \<times> Council \<Rightarrow> Conn \<times> Council" where
  "store_command garbage random line sender st = (case st of (c, s) \<Rightarrow>
     if role (contacts s ! sender) \<noteq> CONTACT_AI then (send_line ''ERROR AI_STORE_ONLY'' c, s)
     else case parse_file (drop 6 line) of None \<Rightarrow> (send_line ''ERROR FILE_HEADER'' c, s)
       | Some (sender_name, name, n, digest) \<Rightarrow>
           if n > max_file_bytes (config s) then (send_line ''ERROR FILE_TOO_LARGE'' c, s)
           else (case network_send (''READY'' @ [log_end]) c of (False, c) \<Rightarrow> (c, s)
             | (True, c) \<Rightarrow> (case receive_file garbage random name n digest (c, s) of
                 (Inl e, c, s) \<Rightarrow> (send_line (if e = -2 then ''ERROR FILE_DIGEST'' else ''ERROR FILE_STORE'') c, s)
               | (Inr stored, c, s) \<Rightarrow> (send_line ''STORED'' c, activity_mark (log_inbox (name_of s sender) ''file''
                    (take 1399 (sender_name @ '' '' @ name @ '' stored:'' @ stored)) s)))))"

definition file_command_handle :: "u8 list \<Rightarrow> u8 list option \<Rightarrow> string \<Rightarrow> nat \<Rightarrow> bool \<Rightarrow> Conn \<times> Council \<Rightarrow> bool \<times> Conn \<times> Council" where
  "file_command_handle garbage random line sender has_turn st =
     (if starts_with ''FILE '' line then (True, offer_command garbage random line sender has_turn st)
      else if starts_with ''STORE '' line then (True, store_command garbage random line sender st)
      else (False, st))"

section \<open>Connections\<close>

definition handle_command :: "string \<Rightarrow> nat \<Rightarrow> bool \<Rightarrow> Conn \<times> Council \<Rightarrow> Conn \<times> Council" where
  "handle_command line person has_turn st = (case st of (c, s) \<Rightarrow>
     if line = ''PING'' then (send_line ''PONG'' c, s)
     else if line = ''BUSY'' then (case busy_remaining s of (remaining, s) \<Rightarrow>
       (send_line (if remaining \<noteq> 0 then ''BUSY '' @ show_int remaining else ''IDLE'') c, s))
     else if line = ''STATUS'' then send_status (c, s)
     else if starts_with ''EVENTS '' line then (send_events (fst (strtol10 INT64_MIN INT64_MAX (drop 7 line))) s c, s)
     else if line = ''CONTEXT'' then (send_context person s c, s)
     else if starts_with ''END_PROPOSE '' line then closure_propose person (drop 12 line) has_turn (c, s)
     else if starts_with ''END_VOTE '' line then closure_vote person (drop 9 line) (c, s)
     else if starts_with ''INITIATE '' line then (case reserve_initiation s of (remaining, s) \<Rightarrow>
       if remaining \<noteq> 0 then (send_line (''BUSY '' @ show_int remaining) c, s)
       else accept_message person (drop 9 line) ''initiate'' True (c, s))
     else if starts_with ''SAY '' line then
       (if \<not> has_turn then (send_line ''ERROR NOT_YOUR_TURN'' c, s)
        else accept_message person (drop 4 line) ''message'' False (c, s))
     else if starts_with ''DELIVER '' line then
       (send_line ''ACCEPTED'' c, mark_activity (log_inbox (name_of s person) ''message'' (drop 8 line) s))
     else if starts_with ''SPEAK '' line then
       (send_line ''ACCEPTED'' c, log_inbox (name_of s person) ''speak'' (drop 6 line) s)
     else if starts_with ''GRANT '' line \<and> is_hub (config s) then
       (send_line ''ACCEPTED'' c, log_transcript (name_of s person) ''grant'' (drop 6 line) (arbitration_grant (drop 6 line) s))
     else (send_line ''ERROR COMMAND'' c, s))"

definition handle_connection ::
  "string \<Rightarrow> u8 list \<Rightarrow> u8 list option \<Rightarrow> contact_role \<Rightarrow> Conn \<Rightarrow> Council \<Rightarrow> Conn \<times> Council" where
  "handle_connection nonce garbage random listener_role c s =
     (case protocol_accept_identity nonce (contacts s) listener_role c of
        (None, c) \<Rightarrow> (c, s)
      | (Some person, c) \<Rightarrow> let s = mark_seen person s in
          (case network_read_line COUNCIL_MESSAGE_LENGTH c of
             (None, c) \<Rightarrow> (c, s)
           | (Some line, c) \<Rightarrow>
               let has_turn = arbitration_can_speak s (name_of s person)
               in case file_command_handle garbage random line person has_turn (c, s) of
                    (True, st) \<Rightarrow> st
                  | (False, st) \<Rightarrow> handle_command line person has_turn st))"

text \<open>The part of \<open>main\<close> between the loading of the configuration and the listeners: the memory is rebuilt, and the hub
  restores the speaker.\<close>

definition council_boot :: "Council \<Rightarrow> Council" where
  "council_boot s =
     (let s = (if summary_path (config s) = [] then s else s\<lparr>memory := conversation_summary (activity_log s)\<rparr>);
          s = arbitration_init s
      in if is_hub (config s)
         then (if transcript_last_speaker (transcript s) \<noteq> [] then arbitration_grant (transcript_last_speaker (transcript s)) s
               else s\<lparr>activity := conversation_activity_clear (activity s)\<rparr>)
         else s)"

end
