(* ===== verification/Council_Runs.thy ===== *)
theory Council_Runs
  imports Council_Service
begin

text \<open>
  The Council service in operation: what every handled connection keeps, how the turn moves, how a
  conversation is opened and closed, and what a restart restores.
\<close>

section \<open>What every operation keeps\<close>

definition council_wf :: "Council \<Rightarrow> bool" where
  "council_wf s \<longleftrightarrow> length (online s) = COUNCIL_MAX_CONTACTS \<and> length (last_seen s) = COUNCIL_MAX_CONTACTS \<and>
     length (closure_expected s) = COUNCIL_MAX_CONTACTS \<and> length (closure_votes s) = COUNCIL_MAX_CONTACTS \<and>
     length (contacts s) \<le> COUNCIL_MAX_CONTACTS \<and> (next_index s < length (contacts s) \<or> next_index s = 0) \<and>
     length (current_speaker s) < COUNCIL_NAME_LENGTH \<and> length (closure_proposer s) < COUNCIL_NAME_LENGTH"

text \<open>A relation between states that the single updates of the service keep holds for every operation built from
  them. It is used for what every connection keeps, and for what only the closure commands change.\<close>

locale service_frame =
  fixes R :: "Council \<Rightarrow> Council \<Rightarrow> bool"
  assumes stays: "R s s"
    and chain: "R s t \<Longrightarrow> R t u \<Longrightarrow> R s u"
    and clock: "R s (s\<lparr>wall := wall s + n, ticks := time\<rparr>)"
    and upd_online: "R s (s\<lparr>online := (online s)[i := b]\<rparr>)"
    and upd_seen: "R s (s\<lparr>last_seen := (last_seen s)[i := t']\<rparr>)"
    and upd_until: "R s (s\<lparr>activity_until := t'\<rparr>)"
    and upd_activity: "R s (s\<lparr>activity := a\<rparr>)"
    and upd_disk: "R s (s\<lparr>disk := d\<rparr>)"
    and upd_peers: "R s (s\<lparr>peers := ps\<rparr>)"
    and upd_calls: "R s (s\<lparr>calls := cs\<rparr>)"
    and upd_transcript: "R s (s\<lparr>transcript := transcript_append t' who event message (transcript s)\<rparr>)"
    and upd_inbox: "R s (s\<lparr>inbox := transcript_append t' who event message (inbox s)\<rparr>)"
    and upd_speaker: "R s (s\<lparr>current_speaker := take (COUNCIL_NAME_LENGTH - 1) name\<rparr>)"
    and upd_next: "contacts s \<noteq> [] \<Longrightarrow> R s (s\<lparr>next_index := i mod length (contacts s)\<rparr>)"
begin

lemma time_R: "R s (snd (wall_now s))"
  unfolding wall_now_def Let_def snd_conv by (rule clock)

lemma log_R: "R s (log_transcript who event message s)" "R s (log_inbox who event message s)"
  unfolding log_transcript_def log_inbox_def case_prod_unfold using chain [OF time_R] upd_transcript upd_inbox by blast+

lemma activity_mark_R: "R s (activity_mark s)"
  unfolding activity_mark_def case_prod_unfold using chain [OF time_R upd_activity] .

lemma grant_R: "R s (arbitration_grant n s)"
  unfolding arbitration_grant_def by (rule upd_speaker)

lemma release_R: "R s (release_initiation s)"
  unfolding release_initiation_def by (rule chain [OF upd_until upd_activity])

lemma mark_seen_R: "R s (mark_seen i s)"
proof -
  let ?s = "snd (wall_now s)"
  have "R ?s (?s\<lparr>online := (online ?s)[i := True], last_seen := (last_seen ?s)[i := fst (wall_now s)]\<rparr>)"
    using chain [OF upd_online [of ?s i True] upd_seen] by simp
  then show ?thesis unfolding mark_seen_def case_prod_unfold using chain [OF time_R] by blast
qed

lemma mark_activity_R: "R s (mark_activity s)"
  unfolding mark_activity_def case_prod_unfold using chain [OF chain [OF time_R upd_until] activity_mark_R] .

lemma next_R: "R s (snd (arbitration_next previous s))"
proof (cases "List.find (\<lambda>k. may_take_turn s previous (turn_index s k)) [0..<length (contacts s)]")
  case None
  then show ?thesis using upd_speaker [of s "[]"] by (simp add: arbitration_next_def)
next
  case (Some k)
  then have "contacts s \<noteq> []" by (cases "contacts s") auto
  then show ?thesis using Some chain [OF upd_next grant_R] by (simp add: arbitration_next_def Let_def)
qed

lemma take_peer_R: "R s (snd (take_peer i s))"
  using stays upd_peers by (auto simp: take_peer_def split: list.split)

lemma record_call_R: "R s (record_call i p s)"
  unfolding record_call_def by (rule upd_calls)

lemma deliver_R: "R s (snd (deliver i command s))"
proof (cases "outbound_contact s i")
  case None
  then show ?thesis using upd_online by (simp add: deliver_def)
next
  case (Some to)
  show ?thesis using chain [OF chain [OF take_peer_R upd_online] record_call_R] by (simp add: deliver_def Some case_prod_unfold)
qed

lemma fold_R: "(\<And>x st. R (snd st) (snd (f x st))) \<Longrightarrow> R (snd st) (snd (fold f xs st))"
proof (induction xs arbitrary: st)
  case (Cons x xs)
  then show ?case using chain [of "snd st" "snd (f x st)"] by simp
qed (simp add: stays)

lemma relay_step_R: "R (snd st) (snd (relay_step from target message i st))"
  using deliver_R by (cases st) (auto simp: relay_step_def stays Let_def case_prod_unfold)

lemma relay_choose_R: "R (snd st) (snd (relay_choose from target st))"
  using next_R grant_R stays by (cases st) (auto simp: relay_choose_def split: option.split)

lemma relay_finish_R: "R (snd st) (snd (relay_finish from st))"
  using chain [OF deliver_R log_R(1)] log_R(1) stays
  by (cases st) (auto simp: relay_finish_def Let_def split: option.split)

lemma relay_loop_R: "R s (snd (fold (relay_step from target message) is (next, s)))"
  using fold_R [of "relay_step from target message" "(next, s)"] relay_step_R by (metis snd_conv)

lemma relay_R: "R s (snd (relay_message from message s))"
  using chain [OF chain [OF relay_loop_R relay_choose_R] relay_finish_R] stays
  by (simp add: relay_message_def case_prod_unfold)

lemma accept_R: "R (snd st) (snd (accept_message person message event reserved st))"
proof -
  obtain c s where st: "st = (c, s)" by (cases st)
  obtain routed s1 where r: "relay_message person message s = (routed, s1)" by fastforce
  then have e: "R s s1" using relay_R [of s person message] by simp
  have "R s (if reserved then release_initiation s1 else s1)" using e chain [OF e release_R] by simp
  moreover have "R s (mark_activity (log_transcript (name_of s1 person) event message s1))"
    using chain [OF chain [OF e log_R(1)] mark_activity_R] .
  ultimately show ?thesis by (simp add: st r accept_message_def Let_def)
qed

lemma reserve_R: "R s (snd (reserve_initiation s))" "R s (snd (busy_remaining s))"
  using chain [OF time_R time_R, of s] chain [OF chain [OF chain [OF time_R time_R] upd_until] activity_mark_R, of s]
  by (simp_all add: reserve_initiation_def busy_remaining_def Let_def case_prod_unfold)

lemma status_step_R: "R (snd st) (snd (status_step t i st))"
proof -
  obtain c s where st: "st = (c, s)" by (cases st)
  have "R s ((record_call i p (snd (take_peer i s)))\<lparr>online := (online (record_call i p (snd (take_peer i s))))[i := b]\<rparr>)" for p b
    using chain [OF chain [OF take_peer_R record_call_R] upd_online] .
  then show ?thesis using upd_online by (simp add: st status_step_def case_prod_unfold split: option.split)
qed

lemma offline_grant_R: "R s (offline_grant current s)"
proof -
  obtain n s1 where n: "arbitration_next current s = (n, s1)" by fastforce
  then have e: "R s s1" using next_R [of s current] by simp
  show ?thesis using e chain [OF e log_R(1)] chain [OF e chain [OF deliver_R log_R(1)]]
    by (simp add: offline_grant_def n Let_def split: option.split)
qed

lemma status_R: "R (snd st) (snd (send_status st))"
proof -
  obtain c s where st: "st = (c, s)" by (cases st)
  obtain t s1 where t: "wall_now s = (t, s1)" by fastforce
  obtain c2 s2 where f: "fold (status_step t) [0..<length (contacts s1)] (c, s1) = (c2, s2)" by fastforce
  have "R s1 s2" using fold_R [of "status_step t" "(c, s1)"] status_step_R f by (metis snd_conv)
  then have e: "R s s2" using chain time_R t by (metis snd_conv)
  show ?thesis using e chain [OF e offline_grant_R] by (simp add: st t f send_status_def Let_def split: option.split)
qed

lemma receive_file_R: "R (snd st) (snd (snd (receive_file garbage random name n digest st)))"
  by (cases st) (simp add: receive_file_def case_prod_unfold upd_disk)

lemma forward_R: "R s (snd (forward_file i sender path name n digest s))"
  unfolding forward_file_def case_prod_unfold snd_conv
  using chain [OF chain [OF take_peer_R upd_disk] record_call_R] by blast

lemma file_command_R: "R (snd st) (snd (offer_command garbage random line sender has_turn st))"
proof -
  obtain c s where st: "st = (c, s)" by (cases st)
  note r = receive_file_R [of "(c', s)" for c', unfolded snd_conv]
  have a: "R s (log_transcript who event m (snd (forward_file i sn p name n digest (snd (snd (receive_file garbage random name n digest (c', s)))))))"
    for c' who event m i sn p name n digest
    using chain [OF chain [OF r forward_R] log_R(1)] .
  note b = chain [OF a activity_mark_R]
  show ?thesis using stays r a b unfolding st offer_command_def prod.case
    by (simp add: case_prod_unfold split: option.split sum.split bool.split)
qed

lemma store_command_R: "R (snd st) (snd (store_command garbage random line sender st))"
proof -
  obtain c s where st: "st = (c, s)" by (cases st)
  note r = receive_file_R [of "(c', s)" for c', unfolded snd_conv]
  note a = chain [OF chain [OF r log_R(2)] activity_mark_R]
  show ?thesis using stays r a unfolding st store_command_def prod.case
    by (simp add: case_prod_unfold split: option.split sum.split bool.split)
qed

lemma file_handle_R: "R (snd st) (snd (snd (file_command_handle garbage random line sender has_turn st)))"
  by (simp add: file_command_handle_def stays file_command_R store_command_R)

lemma handle_command_R:
  assumes "starts_with ''END_PROPOSE '' line \<Longrightarrow> R s (snd (closure_propose person (drop 12 line) has_turn (c, s)))"
    and "starts_with ''END_VOTE '' line \<Longrightarrow> R s (snd (closure_vote person (drop 9 line) (c, s)))"
  shows "R s (snd (handle_command line person has_turn (c, s)))"
proof -
  have i: "R s (snd (accept_message person m e b (c, snd (reserve_initiation s))))" for m e b
    using chain [OF reserve_R(1) accept_R [of "(c, snd (reserve_initiation s))", unfolded snd_conv]] .
  show ?thesis
    using stays reserve_R status_R [of "(c, s)"] assms i
      accept_R [of "(c, s)"] chain [OF log_R(2) mark_activity_R] log_R(2) chain [OF grant_R log_R(1)]
    unfolding handle_command_def prod.case by (simp add: case_prod_unfold)
qed

end

text \<open>Well-formedness is kept, contacts and configuration stay, the logs are only appended to, and time does not go back.\<close>

definition council_ext :: "Council \<Rightarrow> Council \<Rightarrow> bool" where
  "council_ext s s' \<longleftrightarrow> (council_wf s \<longrightarrow> council_wf s') \<and> contacts s' = contacts s \<and> config s' = config s \<and>
     prefix (log_text (transcript s)) (log_text (transcript s')) \<and> prefix (log_text (inbox s)) (log_text (inbox s')) \<and>
     wall s \<le> wall s'"

lemma take_name: "length (take (COUNCIL_NAME_LENGTH - 1) n) < COUNCIL_NAME_LENGTH"
  by (simp add: COUNCIL_NAME_LENGTH_def)

lemma transcript_append_prefix: "prefix (log_text f) (log_text (transcript_append t who event message f))"
  by (simp add: transcript_append_def)

lemmas council_frame = council_ext_def council_wf_def

interpretation ext: service_frame council_ext
proof
  fix s t u :: Council
  assume "council_ext s t" "council_ext t u"
  then show "council_ext s u" by (auto simp: council_ext_def intro: prefix_order.trans)
next
  fix s :: Council and name
  show "council_ext s (s\<lparr>current_speaker := take (COUNCIL_NAME_LENGTH - 1) name\<rparr>)"
    using take_name [of name] by (simp add: council_frame del: length_take)
qed (simp_all add: council_frame transcript_append_prefix)

lemma closure_finish_ext: "council_ext s (closure_finish s)"
proof -
  have "council_ext u (u\<lparr>closure_active := False\<rparr>)" for u by (simp add: council_frame)
  then show ?thesis unfolding closure_finish_def
    using ext.chain [OF ext.chain [OF ext.chain [OF ext.log_R(1)] ext.grant_R] ext.release_R] by blast
qed

lemma propose_ext: "council_ext (snd st) (snd (closure_propose person reason has_turn st))"
proof -
  obtain c s where st: "st = (c, s)" by (cases st)
  obtain t s1 where t: "wall_now s = (t, s1)" by fastforce
  then have e: "council_ext s s1" using ext.time_R [of s] by simp
  have "council_ext s1 (s1\<lparr>closure_active := True, closure_id := t, closure_proposer := take (COUNCIL_NAME_LENGTH - 1) n,
      closure_expected := map f [0..<COUNCIL_MAX_CONTACTS], closure_votes := map g [0..<COUNCIL_MAX_CONTACTS]\<rparr>)" for n f g
    using take_name [of n] by (simp add: council_frame del: length_take)
  note l = ext.chain [OF ext.chain [OF e this] ext.log_R(1)]
  show ?thesis using e l ext.chain [OF l closure_finish_ext] unfolding st closure_propose_def prod.case t by (simp add: Let_def)
qed

lemma vote_ext: "council_ext (snd st) (snd (closure_vote person vote st))"
proof -
  obtain c s where st: "st = (c, s)" by (cases st)
  have v: "council_ext s (s\<lparr>closure_votes := (closure_votes s)[person := x]\<rparr>)" for x by (simp add: council_frame)
  note l = ext.chain [OF v ext.log_R(1)]
  have a: "council_ext u (u\<lparr>closure_active := False\<rparr>)" for u by (simp add: council_frame)
  have o: "council_ext u (vote_outcome person vote u)" for u unfolding vote_outcome_def
    using ext.chain [OF ext.chain [OF ext.chain [OF ext.chain [OF a ext.grant_R] ext.log_R(1)] ext.log_R(1)] ext.mark_activity_R]
      closure_finish_ext ext.stays by simp
  show ?thesis using ext.chain [OF l o] ext.stays unfolding st closure_vote_def prod.case by simp
qed

lemma handle_connection_ext: "council_ext s (snd (handle_connection nonce garbage random listener_role c s))"
proof (cases "protocol_accept_identity nonce (contacts s) listener_role c")
  case (Pair person c1)
  show ?thesis
  proof (cases person)
    case None
    then show ?thesis by (simp add: handle_connection_def Pair ext.stays)
  next
    case (Some i)
    have f: "council_ext s (snd (snd (file_command_handle g r l j h (d, mark_seen i s))))" for g r l j h d
      using ext.chain [OF ext.mark_seen_R ext.file_handle_R [of "(d, mark_seen i s)", unfolded snd_conv]] .
    have h: "council_ext u (snd (handle_command l j b (d, u)))" for l j b d u
      by (rule ext.handle_command_R) (use propose_ext [of "(d, u)"] vote_ext [of "(d, u)"] in simp_all)
    have "council_ext s (snd (handle_command l j b st'))" if "file_command_handle g r l' j' h' (d, mark_seen i s) = (x, st')"
      for g r l j b st' l' j' h' d x
      using ext.chain [OF f h] that by (metis prod.collapse snd_conv)
    then show ?thesis using ext.mark_seen_R f
      by (simp add: handle_connection_def Pair Some Let_def split: prod.split option.split bool.split) (metis snd_conv)
  qed
qed

section \<open>Runs\<close>

text \<open>A connection is handled with any peers and any passing of time.\<close>

definition surrounded :: "nat list \<Rightarrow> (nat \<Rightarrow> Conn option list) \<Rightarrow> Council \<Rightarrow> Council" where
  "surrounded time reach s = s\<lparr>ticks := time, peers := reach\<rparr>"

inductive council_run :: "Council \<Rightarrow> Council \<Rightarrow> bool" where
  run_start: "council_run s s"
| run_connection: "council_run s t \<Longrightarrow>
    council_run s (snd (handle_connection nonce garbage random listener_role c (surrounded time reach t)))"

lemma surrounded_ext: "council_ext s (surrounded time reach s)"
  by (simp add: surrounded_def council_ext_def council_wf_def)

lemma run_ext: "council_run s t \<Longrightarrow> council_ext s t"
proof (induction rule: council_run.induct)
  case (run_connection s t)
  then show ?case using ext.chain [OF ext.chain [OF _ surrounded_ext] handle_connection_ext] by blast
qed (rule ext.stays)

lemma boot_wf: "council_wf s \<Longrightarrow> council_wf (council_boot s)"
proof -
  assume w: "council_wf s"
  have "council_wf (arbitration_init (s\<lparr>memory := m\<rparr>))" "council_wf (arbitration_init s)" for m
    using w by (auto simp: council_wf_def arbitration_init_def)
  moreover have "council_wf u \<Longrightarrow> council_wf (arbitration_grant n u)" "council_wf u \<Longrightarrow> council_wf (u\<lparr>activity := a\<rparr>)" for u n a
    using ext.grant_R [of u n] by (simp add: council_ext_def) (simp add: council_wf_def)
  ultimately show "council_wf (council_boot s)" by (simp add: council_boot_def Let_def)
qed

text \<open>C29: Whatever connections a started service handles, with whatever peers and passing of time, its tables keep
  their sizes, the turn index stays inside the contact book and every stored name fits its buffer; the contacts and
  the configuration never change, and the transcript and the inbox are only appended to.\<close>

theorem council_runs_safely:
  assumes "council_wf s" "council_run (council_boot s) t"
  shows "council_wf t \<and> contacts t = contacts s \<and> config t = config s \<and>
    prefix (log_text (transcript s)) (log_text (transcript t)) \<and> prefix (log_text (inbox s)) (log_text (inbox t))"
proof -
  have "council_wf (council_boot s)" using boot_wf [OF assms(1)] .
  moreover have "contacts (council_boot s) = contacts s" "config (council_boot s) = config s"
    "transcript (council_boot s) = transcript s" "inbox (council_boot s) = inbox s"
    by (simp_all add: council_boot_def arbitration_init_def arbitration_grant_def Let_def)
  ultimately show ?thesis using run_ext [OF assms(2)] by (simp add: council_ext_def)
qed

section \<open>Turns\<close>

lemma find_index: "List.find P [0..<n] = Some k \<Longrightarrow> k < n \<and> P k \<and> (\<forall>j < k. \<not> P j)"
  by (auto simp: find_Some_iff)

lemma turn_index_less: "contacts s \<noteq> [] \<Longrightarrow> turn_index s k < length (contacts s)"
  by (simp add: turn_index_def)

lemma next_turn:
  assumes "arbitration_next previous s = (Some i, s')"
  shows "i < length (contacts s) \<and> may_take_turn s previous i \<and> current_speaker s' = take (COUNCIL_NAME_LENGTH - 1) (name_of s i) \<and>
    next_index s' = (i + 1) mod length (contacts s)"
proof -
  obtain k where k: "List.find (\<lambda>k. may_take_turn s previous (turn_index s k)) [0..<length (contacts s)] = Some k"
    using assms by (cases "List.find (\<lambda>k. may_take_turn s previous (turn_index s k)) [0..<length (contacts s)]")
      (simp_all add: arbitration_next_def)
  have i: "i = turn_index s k" "s' = arbitration_grant (name_of s i) (s\<lparr>next_index := (i + 1) mod length (contacts s)\<rparr>)"
    using assms by (auto simp: arbitration_next_def k Let_def)
  have f: "k < length (contacts s)" "may_take_turn s previous (turn_index s k)" using find_index [OF k] by simp_all
  then have "i < length (contacts s)" using turn_index_less [of s k] i(1) by (cases "contacts s") simp_all
  then show ?thesis using f(2) i by (simp add: arbitration_grant_def)
qed

text \<open>How many contacts stand before one in the cyclic order of turns.\<close>

definition turns_before :: "Council \<Rightarrow> nat \<Rightarrow> nat" where
  "turns_before s j = (j + length (contacts s) - next_index s) mod length (contacts s)"

lemma turns_before_index:
  assumes "j < length (contacts s)" "next_index s < length (contacts s)"
  shows "turn_index s (turns_before s j) = j" "turns_before s j < length (contacts s)"
proof -
  have "next_index s + (j + length (contacts s) - next_index s) = j + length (contacts s)" using assms by simp
  then show "turn_index s (turns_before s j) = j" using assms(1)
    unfolding turn_index_def turns_before_def mod_add_right_eq by simp
  have "0 < length (contacts s)" using assms(1) by linarith
  then show "turns_before s j < length (contacts s)" unfolding turns_before_def by (rule mod_less_divisor)
qed

text \<open>A contact that may speak either gets the turn or comes closer to it.\<close>

lemma next_comes_closer:
  assumes "council_wf s" "j < length (contacts s)" "may_take_turn s previous j" "arbitration_next previous s = (r, s')"
  shows "r = Some j \<or> (r \<noteq> None \<and> turns_before s' j < turns_before s j)"
proof -
  let ?n = "length (contacts s)"
  have nx: "next_index s < ?n" using assms(1,2) by (auto simp: council_wf_def)
  define d where "d = turns_before s j"
  have d: "turn_index s d = j" "d < ?n" using turns_before_index [OF assms(2) nx] by (simp_all add: d_def)
  obtain k where k: "List.find (\<lambda>k. may_take_turn s previous (turn_index s k)) [0..<?n] = Some k"
    using assms(3) d by (cases "List.find (\<lambda>k. may_take_turn s previous (turn_index s k)) [0..<?n]") (auto simp: find_None_iff)
  have kd: "k \<le> d" using find_index [OF k] assms(3) d(1) by (metis not_le)
  have r: "r = Some (turn_index s k)" "s' = arbitration_grant (name_of s (turn_index s k)) (s\<lparr>next_index := (turn_index s k + 1) mod ?n\<rparr>)"
    using assms(4) k by (simp_all add: arbitration_next_def Let_def)
  show ?thesis
  proof (cases "k = d")
    case True
    then show ?thesis using r(1) d(1) by simp
  next
    case False
    then have lt: "k + 1 \<le> d" using kd by simp
    let ?m = "(next_index s + k + 1) mod ?n"
    have m: "next_index s' = ?m" using r(2) by (simp add: arbitration_grant_def turn_index_def mod_simps)
    have c: "length (contacts s') = ?n" using r(2) by (simp add: arbitration_grant_def)
    have ml: "?m < ?n" by (rule mod_less_divisor) (use nx in linarith)
    have "(?m + (d - (k + 1))) mod ?n = (next_index s + k + 1 + (d - (k + 1))) mod ?n" by (rule mod_add_left_eq)
    moreover have "next_index s + k + 1 + (d - (k + 1)) = next_index s + d" using lt by linarith
    ultimately have e: "(?m + (d - (k + 1))) mod ?n = j" using d(1) by (simp only: turn_index_def)
    have "turns_before s' j = d - (k + 1)"
    proof (cases "?m + (d - (k + 1)) < ?n")
      case True
      then have "?m + (d - (k + 1)) = j" using e by (simp only: mod_less)
      then have "j + ?n - ?m = ?n + (d - (k + 1))" by linarith
      then show ?thesis using d(2) unfolding turns_before_def m c by (simp only: mod_add_self1) (simp add: less_imp_diff_less)
    next
      case F: False
      have "?m + (d - (k + 1)) - ?n < ?n" using ml d(2) by linarith
      moreover have "(?m + (d - (k + 1))) mod ?n = (?m + (d - (k + 1)) - ?n) mod ?n" by (rule le_mod_geq) (use F in linarith)
      ultimately have "?m + (d - (k + 1)) - ?n = j" using e by (simp only: mod_less)
      then have "j + ?n - ?m = d - (k + 1)" using F by linarith
      then show ?thesis using d(2) unfolding turns_before_def m c by (simp only:) (simp add: less_imp_diff_less)
    qed
    then show ?thesis using r(1) lt d_def by simp
  qed
qed


text \<open>A sequence of grants, each with the previous speaker and the contacts then present.\<close>

fun grants :: "(string \<times> bool list) list \<Rightarrow> Council \<Rightarrow> nat option list" where
  "grants [] s = []"
| "grants ((previous, here) # rs) s = (case arbitration_next previous (s\<lparr>online := here\<rparr>) of (r, s) \<Rightarrow> r # grants rs s)"

lemma fair_grants:
  "council_wf s \<Longrightarrow> j < length (contacts s) \<Longrightarrow>
   \<forall>(previous, here) \<in> set rs. length here = COUNCIL_MAX_CONTACTS \<and> here ! j \<and> previous \<noteq> name_of s j \<Longrightarrow>
   turns_before s j < length rs \<Longrightarrow> Some j \<in> set (grants rs s)"
proof (induction rs arbitrary: s)
  case (Cons x rs)
  obtain previous here where x: "x = (previous, here)" by (cases x)
  let ?s = "s\<lparr>online := here\<rparr>"
  obtain r s' where r: "arbitration_next previous ?s = (r, s')" by fastforce
  have w: "council_wf ?s" "j < length (contacts ?s)" "may_take_turn ?s previous j"
    using Cons.prems x by (auto simp: council_wf_def may_take_turn_def name_of_def)
  have e: "council_ext ?s s'" using ext.next_R [of ?s previous] r by simp
  have k: "council_wf s'" "contacts s' = contacts s" using e w(1) by (simp_all add: council_ext_def)
  have n: "name_of s' j = name_of s j" using k(2) by (simp add: name_of_def)
  have t: "turns_before ?s j = turns_before s j" by (simp add: turns_before_def)
  show ?case
  proof (cases "r = Some j")
    case True
    then show ?thesis by (simp add: x r)
  next
    case False
    then have "turns_before s' j < turns_before s j" using next_comes_closer [OF w r] t by simp
    then have "Some j \<in> set (grants rs s')" using Cons.IH [of s'] Cons.prems k n by simp
    then show ?thesis by (simp add: x r)
  qed
qed simp

text \<open>C31: The turn goes round: when the arbiter hands on the turn as often as there are contacts, every contact that
  is present each time and is not itself the one who just spoke gets it at least once, whoever else comes and goes.\<close>

theorem round_robin_fair:
  assumes "council_wf s" "j < length (contacts s)" "length (contacts s) \<le> length rs"
    and "\<forall>(previous, here) \<in> set rs. length here = COUNCIL_MAX_CONTACTS \<and> here ! j \<and> previous \<noteq> name_of s j"
  shows "Some j \<in> set (grants rs s)"
proof -
  have "next_index s < length (contacts s)" using assms(1,2) by (auto simp: council_wf_def)
  then have "turns_before s j < length rs" using turns_before_index(2) [OF assms(2)] assms(3) by fastforce
  then show ?thesis using fair_grants assms(1,2,4) by blast
qed

text \<open>C35: Only the speaker may speak: while another contact has the turn, a \<open>SAY\<close> is answered with an error and changes
  nothing but the note that its sender was seen.\<close>

theorem say_needs_turn:
  assumes "protocol_accept_identity nonce (contacts s) listener_role c = (Some person, c1)"
    and "network_read_line COUNCIL_MESSAGE_LENGTH c1 = (Some (''SAY '' @ message), c2)"
    and "current_speaker s \<noteq> []" "current_speaker s \<noteq> name_of s person"
  shows "handle_connection nonce garbage random listener_role c s = (send_line ''ERROR NOT_YOUR_TURN'' c2, mark_seen person s)"
proof -
  have "current_speaker (mark_seen person s) = current_speaker s" "name_of (mark_seen person s) person = name_of s person"
    by (simp_all add: mark_seen_def wall_now_def Let_def name_of_def)
  then show ?thesis using assms
    by (simp add: handle_connection_def file_command_handle_def handle_command_def arbitration_can_speak_def)
qed

section \<open>Messages\<close>

lemma relay_loop_next:
  "fst (fold (relay_step from target message) is (next, s)) = next \<or> fst (fold (relay_step from target message) is (next, s)) = target"
proof (induction "is" arbitrary: "next" s)
  case (Cons i "is")
  obtain n s' where r: "relay_step from target message i (next, s) = (n, s')" by fastforce
  then have "n = next \<or> n = target"
    by (auto simp: relay_step_def Let_def case_prod_unfold split: if_splits)
  then show ?case using Cons.IH [of n s'] r by auto
qed simp

lemma target_contact: "message_target s message = (Some i, addressed) \<Longrightarrow> i < length (contacts s)"
  by (auto simp: message_target_def Let_def find_Some_iff split: if_splits option.splits)

text \<open>Who is chosen after the loop.\<close>

lemma relay_chosen:
  assumes "relay_choose from target st = (Some i, s')" "fst st = None \<or> fst st = target" "target \<noteq> Some from"
    and "\<And>j. target = Some j \<Longrightarrow> j < length (contacts (snd st))"
  shows "i < length (contacts (snd st)) \<and> i \<noteq> from \<and> current_speaker s' = take (COUNCIL_NAME_LENGTH - 1) (name_of (snd st) i) \<and>
    (target = None \<longrightarrow> online (snd st) ! i \<and> name_of (snd st) i \<noteq> name_of (snd st) from) \<and> (target \<noteq> None \<longrightarrow> target = Some i)"
proof (cases target)
  case None
  then have "arbitration_next (name_of (snd st) from) (snd st) = (Some i, s')"
    using assms(1) by (simp add: relay_choose_def case_prod_unfold)
  from next_turn [OF this] show ?thesis using None by (auto simp: may_take_turn_def)
next
  case (Some j)
  then have "fst st = Some i" "s' = arbitration_grant (name_of (snd st) i) (snd st)"
    using assms(1) by (auto simp: relay_choose_def case_prod_unfold)
  then show ?thesis using Some assms(2-4) by (auto simp: arbitration_grant_def)
qed


lemma deliver_keeps:
  "transcript (snd (deliver i command s)) = transcript s" "current_speaker (snd (deliver i command s)) = current_speaker s"
  by (auto simp: deliver_def take_peer_def record_call_def case_prod_unfold split: option.split list.split)

lemma relay_loop_keeps:
  "transcript (snd (fold (relay_step from target message) is st)) = transcript (snd st)"
proof (induction "is" arbitrary: st)
  case (Cons i "is")
  have "transcript (snd (relay_step from target message i st)) = transcript (snd st)"
    using deliver_keeps(1) by (cases st) (auto simp: relay_step_def Let_def case_prod_unfold)
  then show ?case using Cons.IH by simp
qed simp

lemma choose_keeps: "transcript (snd (relay_choose from target st)) = transcript (snd st)"
  by (cases st) (auto simp: relay_choose_def arbitration_next_def arbitration_grant_def Let_def split: option.split)

lemma ext_keeps: "council_ext s t \<Longrightarrow> contacts t = contacts s" "council_ext s t \<Longrightarrow> config t = config s"
  "council_ext s t \<Longrightarrow> name_of t = name_of s"
  by (auto simp: council_ext_def name_of_def fun_eq_iff)

lemma relay_accepted:
  assumes "relay_message from message s = (0, s')"
  shows "\<exists>i t. i < length (contacts s) \<and> i \<noteq> from \<and> current_speaker s' = take (COUNCIL_NAME_LENGTH - 1) (name_of s i) \<and>
    transcript s' = transcript_append t (cfg_name (config s)) ''grant'' (name_of s i) (transcript s) \<and> t \<le> wall s' \<and>
    (\<forall>j. fst (message_target s message) = Some j \<longrightarrow> i = j)"
proof -
  obtain target addressed where m: "message_target s message = (target, addressed)" by fastforce
  let ?st = "fold (relay_step from target message) [0..<length (contacts s)] (relay_start target s, s)"
  obtain r s1 where c: "relay_choose from target ?st = (r, s1)" by fastforce
  have f: "target \<noteq> Some from" "relay_finish from (r, s1) = (0, s')"
    using assms by (auto simp: relay_message_def m c split: if_splits)
  then obtain i where r: "r = Some i" by (cases r) (auto simp: relay_finish_def)
  have e: "council_ext s (snd ?st)" by (rule ext.relay_loop_R)
  have e1: "council_ext s s1" using ext.chain [OF e ext.relay_choose_R [of ?st "from" target]] c by simp
  note n = ext_keeps [OF e] ext_keeps [OF e1]
  have "fst ?st = None \<or> fst ?st = target" using relay_loop_next [of "from" target message "[0..<length (contacts s)]" "relay_start target s" s]
    by (auto simp: relay_start_def split: option.splits if_splits)
  moreover have "j < length (contacts (snd ?st))" if "target = Some j" for j
    using target_contact [of s message j addressed] m that n(1) by simp
  ultimately have i: "i < length (contacts s)" "i \<noteq> from" "current_speaker s1 = take (COUNCIL_NAME_LENGTH - 1) (name_of s i)"
    "target \<noteq> None \<longrightarrow> target = Some i"
    using relay_chosen [OF c [unfolded r] _ f(1)] n by auto
  have t: "transcript s1 = transcript s" using choose_keeps [of "from" target ?st] relay_loop_keeps c by simp
  define s2 where "s2 = (if role (contacts s1 ! i) = CONTACT_AI
      then snd (deliver i (take (COUNCIL_MESSAGE_LENGTH - 1) (''SPEAK '' @ name_of s1 from)) s1) else s1)"
  have e2: "council_ext s1 s2" using ext.deliver_R ext.stays by (simp add: s2_def)
  have s': "s' = log_transcript (cfg_name (config s2)) ''grant'' (name_of s2 i) s2"
    using f(2) r by (simp add: relay_finish_def Let_def s2_def)
  have "transcript s2 = transcript s" "current_speaker s2 = current_speaker s1" using t deliver_keeps by (simp_all add: s2_def)
  then show ?thesis using s' i n ext_keeps [OF e2] m
    by (auto simp: log_transcript_def wall_now_def Let_def)
qed

text \<open>An addressed message is never refused because its target is unknown: a text that begins with a name that is not
  in the contact book is broadcast like one without an address.\<close>

lemma unknown_target_broadcast:
  "fst (relay_message from message s) \<noteq> -2"
  "contact_book_find (contacts s) (takeWhile (\<lambda>c. c \<noteq> CHR '','' \<and> c \<noteq> CHR '':'') message) = None \<Longrightarrow>
   relay_message from message s = relay_finish from (relay_choose from None
     (fold (relay_step from None message) [0..<length (contacts s)] (None, s)))"
proof -
  have "fst (relay_finish from st) \<noteq> -2" for st by (auto simp: relay_finish_def Let_def split: prod.split option.split)
  then show "fst (relay_message from message s) \<noteq> -2"
    by (auto simp: relay_message_def message_target_def Let_def split: option.split)
next
  assume "contact_book_find (contacts s) (takeWhile (\<lambda>c. c \<noteq> CHR '','' \<and> c \<noteq> CHR '':'') message) = None"
  then have "message_target s message = (None, False)"
    by (auto simp: message_target_def Let_def contact_book_find_def name_of_def)
  then show "relay_message from message s = relay_finish from (relay_choose from None
     (fold (relay_step from None message) [0..<length (contacts s)] (None, s)))"
    by (simp add: relay_message_def relay_start_def)
qed


section \<open>Restarts\<close>

lemma show_nat_steps: "n < 10 \<Longrightarrow> length (show_nat n) = 1" "10 \<le> n \<Longrightarrow> length (show_nat n) = Suc (length (show_nat (n div 10)))"
  by (simp_all add: show_nat.simps [of n])

lemma two_digits_length: "n < 100 \<Longrightarrow> length (two_digits n) = 2"
  by (cases "n < 10") (simp_all add: two_digits_def show_nat_steps div_less_iff_less_mult)

lemma year_bound: "fst (year_of y d) \<le> y + d div 365 \<and> y \<le> fst (year_of y d) \<and> snd (year_of y d) < year_days (fst (year_of y d))"
proof (induction y d rule: year_of.induct)
  case (1 y d)
  show ?case
  proof (cases "d < year_days y")
    case True
    then show ?thesis by (simp add: year_of.simps [of y d])
  next
    case False
    have "y + 1 + (d - year_days y) div 365 \<le> y + d div 365"
    proof -
      have g: "365 \<le> d" "d - year_days y \<le> d - 365" using False by (auto simp: year_days_def split: if_splits)
      have "(d - year_days y) div 365 \<le> (d - 365) div 365" using g(2) by (rule div_le_mono)
      also have "\<dots> = d div 365 - 1" using g(1) by (simp add: le_div_geq)
      finally show ?thesis using g(1) by (simp add: le_div_geq)
    qed
    then show ?thesis using 1 [OF False] False by (simp add: year_of.simps [of y d])
  qed
qed

lemma month_of_bound: "d < sum_list ns \<Longrightarrow> \<forall>n \<in> set ns. n \<le> 31 \<Longrightarrow> fst (month_of m ns d) < m + length ns \<and> snd (month_of m ns d) < 31"
  by (induction m ns d rule: month_of.induct) auto

text \<open>Until the year 4800 a time stamp has twenty characters.\<close>

lemma stamp_length: "t < 90000000000 \<Longrightarrow> length (stamp t) = 20"
proof -
  assume t: "t < 90000000000"
  obtain y yd where y: "year_of 1970 (t div 86400) = (y, yd)" by fastforce
  obtain m d where m: "month_of 1 (month_days y) yd = (m, d)" by fastforce
  have "t div 86400 \<le> 1041666" using t by linarith
  then have "t div 86400 div 365 \<le> 1041666 div 365" by (rule div_le_mono)
  then have yb: "1970 \<le> y" "y < 10000" "yd < year_days y" using year_bound [of 1970 "t div 86400"] y by simp_all
  have q: "10 \<le> y" "10 \<le> y div 10" "10 \<le> y div 10 div 10" "y div 10 div 10 div 10 < 10" using yb(1,2) by linarith+
  have yl: "length (show_nat y) = 4" using show_nat_steps(2) [OF q(1)] show_nat_steps(2) [OF q(2)] show_nat_steps(2) [OF q(3)]
      show_nat_steps(1) [OF q(4)] by simp
  have "sum_list (month_days y) = year_days y" by (simp add: month_days_def year_days_def)
  moreover have "\<forall>n \<in> set (month_days y). n \<le> 31" "length (month_days y) = 12" by (simp_all add: month_days_def)
  ultimately have "m < 13" "d < 31" using month_of_bound [of yd "month_days y" 1] yb(3) m by simp_all
  moreover have "t mod 86400 div 3600 < 100" "t mod 86400 div 60 mod 60 < 100" "t mod 86400 mod 60 < 100" by linarith+
  ultimately show "length (stamp t) = 20" unfolding stamp_def y Let_def prod.case m by (simp add: yl two_digits_length)
qed


definition whole_lines :: "LogFile \<Rightarrow> bool" where
  "whole_lines f \<longleftrightarrow> (\<exists>ls. log_text f = file_lines ls \<and> (\<forall>l \<in> set ls. log_end \<notin> set l \<and> length l \<le> 8190))"

lemma last_speaker_grows:
  assumes "whole_lines f" "log_path f" "log_opens f" "entry_ok (who, event, message)" "length (log_line t who event message) \<le> 8190"
  shows "\<exists>before. transcript_last_speaker (transcript_append t who event message f) = event_speaker event message before \<and>
      (log_readable f \<longrightarrow> before = transcript_last_speaker f)"
    "whole_lines (transcript_append t who event message f)" "log_readable (transcript_append t who event message f)"
    "log_path (transcript_append t who event message f)" "log_opens (transcript_append t who event message f)"
proof -
  obtain ls where ls: "log_text f = file_lines ls" "\<forall>l \<in> set ls. log_end \<notin> set l \<and> length l \<le> 8190"
    using assms(1) by (auto simp: whole_lines_def)
  let ?l = "log_line t who event message" and ?f = "transcript_append t who event message f"
  have content: "log_text ?f = file_lines (ls @ [?l])" using assms(2,3) ls(1) by (simp add: transcript_append_def file_lines_def)
  have ok: "\<forall>l \<in> set (ls @ [?l]). log_end \<notin> set l \<and> length l \<le> 8190" using ls(2) assms(5) log_line_field [OF assms(4)] by auto
  show "whole_lines ?f" using content ok unfolding whole_lines_def by blast
  show rd: "log_readable ?f" "log_path ?f" "log_opens ?f" using assms(2,3) by (simp_all add: transcript_append_def log_readable_def)
  have "transcript_last_speaker ?f = speaker_step (?l @ [log_end]) (fold speaker_step (map (\<lambda>l. l @ [log_end]) ls) [])"
    unfolding transcript_last_speaker_def content fgets_file_lines [OF ok] using rd(1) by simp
  moreover have "log_readable f \<Longrightarrow> transcript_last_speaker f = fold speaker_step (map (\<lambda>l. l @ [log_end]) ls) []"
    unfolding transcript_last_speaker_def ls(1) fgets_file_lines [OF ls(2)] by simp
  ultimately show "\<exists>before. transcript_last_speaker ?f = event_speaker event message before \<and>
      (log_readable f \<longrightarrow> before = transcript_last_speaker f)" using speaker_step_entry [OF assms(4)] by metis
qed

lemma word_field: "word_text s \<Longrightarrow> field_text s"
proof -
  have "c_isspace tab" "c_isspace CHR 0x0A" "c_isspace CHR 0x0D" by (simp_all add: c_isspace_def tab_def)
  then show "word_text s \<Longrightarrow> field_text s" unfolding word_text_def field_text_def by blast
qed

lemma word_no_arrow: "word_text s \<Longrightarrow> last_arrow s = s"
proof -
  assume "word_text s"
  then have "CHR '' '' \<notin> set s" unfolding word_text_def using blank_space by blast
  then show "last_arrow s = s" using strstr_absent [of "'' -> ''" s] by (simp add: last_arrow_def)
qed

definition log_name :: "string \<Rightarrow> bool" where
  "log_name n \<longleftrightarrow> identity_name n \<and> n \<notin> {''grant'', ''offline-grant'', ''conversation-end''}"

lemma log_name_entry: "log_name n \<Longrightarrow> field_text event \<Longrightarrow> field_text message \<Longrightarrow> entry_ok (n, event, message)"
  by (simp add: log_name_def identity_name_def entry_ok_def word_field)

lemma log_line_length: "t < 90000000000 \<Longrightarrow> log_name n \<Longrightarrow> length event \<le> 8 \<Longrightarrow> length message \<le> 8096 \<Longrightarrow>
  length (log_line t n event message) \<le> 8190"
  by (simp add: log_line_def stamp_length log_name_def identity_name_def COUNCIL_NAME_LENGTH_def)


lemma accepted_log:
  assumes "relay_message person message s = (0, s1)" "accept_message person message event reserved (c, s) = (c', s')"
  shows "current_speaker s' = current_speaker s1 \<and> config s' = config s \<and>
    (\<exists>t. t \<le> wall s' \<and> wall s1 \<le> wall s' \<and> transcript s' = transcript_append t (name_of s person) event message (transcript s1))"
proof -
  have e: "council_ext s s1" using ext.relay_R [of s person message] assms(1) by simp
  have "s' = mark_activity (log_transcript (name_of s1 person) event message s1)"
    using assms by (simp add: accept_message_def Let_def)
  then show ?thesis using ext_keeps [OF e]
    by (auto simp: mark_activity_def activity_mark_def log_transcript_def wall_now_def Let_def
        intro!: exI [of _ "wall s1 + (case ticks s1 of [] \<Rightarrow> 0 | d # x \<Rightarrow> d)"])
qed

text \<open>C32: A restart keeps the turn: on a hub whose log is writable and consists of whole lines, when a message or an
  opening of a conversation is accepted, a service started from the log gives the turn to the very contact that was
  granted it. Names are words not used for log events, and the message has no tab or line break and leaves room for
  the rest of its log line.\<close>

theorem turn_survives_restart:
  assumes "fst (relay_message person message s) = 0" "accept_message person message event reserved (c, s) = (c', s')"
    and "is_hub (config s)" "whole_lines (transcript s)" "log_path (transcript s)" "log_opens (transcript s)"
    and "\<forall>i < length (contacts s). log_name (name_of s i)" "log_name (cfg_name (config s))" "person < length (contacts s)"
    and "field_text message" "length message \<le> 8096" "event \<in> {''message'', ''initiate''}" "wall s' < 90000000000"
  shows "current_speaker s' \<noteq> [] \<and> current_speaker (council_boot s') = current_speaker s'"
proof -
  obtain s1 where r: "relay_message person message s = (0, s1)" using assms(1) by (metis prod.collapse)
  obtain i t where i: "i < length (contacts s)" "current_speaker s1 = take (COUNCIL_NAME_LENGTH - 1) (name_of s i)" "t \<le> wall s1"
    "transcript s1 = transcript_append t (cfg_name (config s)) ''grant'' (name_of s i) (transcript s)"
    using relay_accepted [OF r] by blast
  obtain t' where a: "current_speaker s' = current_speaker s1" "config s' = config s" "t' \<le> wall s'" "wall s1 \<le> wall s'"
    "transcript s' = transcript_append t' (name_of s person) event message (transcript s1)"
    using accepted_log [OF r assms(2)] by blast
  have ni: "log_name (name_of s i)" "log_name (name_of s person)" using assms(7,9) i(1) by auto
  then have w: "word_text (name_of s i)" "name_of s i \<noteq> []" "length (name_of s i) < 64"
    by (simp_all add: log_name_def identity_name_def COUNCIL_NAME_LENGTH_def)
  have ev: "field_text ''grant''" "field_text event" "length event \<le> 8" using assms(12) by (auto simp: field_text_Cons tab_def)
  have e1: "entry_ok (cfg_name (config s), ''grant'', name_of s i)" using log_name_entry assms(8) ev(1) word_field [OF w(1)] by blast
  have e2: "entry_ok (name_of s person, event, message)" using log_name_entry ni(2) ev(2) assms(10) by blast
  have l1: "length (log_line t (cfg_name (config s)) ''grant'' (name_of s i)) \<le> 8190"
    by (rule log_line_length) (use i(3) a(4) assms(8,13) w(3) in simp_all)
  have l2: "length (log_line t' (name_of s person) event message) \<le> 8190"
    by (rule log_line_length) (use a(3) assms(11,13) ni(2) ev(3) in simp_all)
  note g1 = last_speaker_grows [OF assms(4-6) e1 l1, folded i(4)]
  note g2 = last_speaker_grows [OF g1(2,4,5) e2 l2, folded a(5)]
  have "transcript_last_speaker (transcript s1) = name_of s i"
    using g1(1) word_no_arrow [OF w(1)] w(3) by (auto simp: event_speaker_def COUNCIL_NAME_LENGTH_def)
  then have "transcript_last_speaker (transcript s') = name_of s i" using g2(1) g1(3) assms(12) by (auto simp: event_speaker_def)
  then show ?thesis using a(1,2) i(2) w(2,3) assms(3)
    by (simp add: council_boot_def Let_def arbitration_init_def arbitration_grant_def COUNCIL_NAME_LENGTH_def)
qed


section \<open>The lease on a conversation\<close>






section \<open>Closing a conversation\<close>

definition same_closure :: "Council \<Rightarrow> Council \<Rightarrow> bool" where
  "same_closure s s' \<longleftrightarrow> closure_active s' = closure_active s \<and> closure_expected s' = closure_expected s \<and>
     closure_votes s' = closure_votes s \<and> closure_id s' = closure_id s \<and> closure_proposer s' = closure_proposer s"

interpretation closure: service_frame same_closure
  by unfold_locales (simp_all add: same_closure_def)

lemma log_keeps [simp]:
  "closure_active (log_transcript who event m s) = closure_active s" "closure_votes (log_transcript who event m s) = closure_votes s"
  "closure_expected (log_transcript who event m s) = closure_expected s" "contacts (log_transcript who event m s) = contacts s"
  "current_speaker (log_transcript who event m s) = current_speaker s" "activity_until (log_transcript who event m s) = activity_until s"
  by (simp_all add: log_transcript_def wall_now_def Let_def)

lemma finish_effect: "\<not> closure_active (closure_finish s)" "current_speaker (closure_finish s) = []" "activity_until (closure_finish s) = 0"
  "closure_votes (closure_finish s) = closure_votes s"
  by (simp_all add: closure_finish_def release_initiation_def arbitration_grant_def)

lemma continue_effect:
  "continue_vote vote \<Longrightarrow> \<not> closure_active (vote_outcome person vote s) \<and>
     current_speaker (vote_outcome person vote s) = take (COUNCIL_NAME_LENGTH - 1) (name_of s person)"
  by (simp add: vote_outcome_def mark_activity_def activity_mark_def wall_now_def arbitration_grant_def Let_def)

text \<open>The effect of a vote on a proposal that waits for it.\<close>

lemma vote_effect:
  assumes "closure_active s" "closure_expected s ! person" "council_wf s" "person < length (contacts s)"
    and "closure_vote person vote (c, s) = (c', s')"
  shows "continue_vote vote \<Longrightarrow> \<not> closure_active s' \<and> current_speaker s' = take (COUNCIL_NAME_LENGTH - 1) (name_of s person)"
    "close_vote vote \<Longrightarrow> \<not> continue_vote vote \<Longrightarrow> closure_votes s' = (closure_votes s)[person := 1] \<and>
       (if \<forall>i < length (contacts s). closure_expected s ! i \<longrightarrow> i = person \<or> closure_votes s ! i = 1
        then \<not> closure_active s' \<and> current_speaker s' = [] \<and> activity_until s' = 0
        else closure_active s' \<and> current_speaker s' = current_speaker s)"
    "\<not> close_vote vote \<Longrightarrow> \<not> continue_vote vote \<Longrightarrow> s' = s"
proof -
  have p: "person < length (closure_votes s)" using assms(3,4) by (simp add: council_wf_def)
  define u where "u = log_transcript (name_of s person) ''end-vote'' (vote_detail (closure_id s) vote)
    (s\<lparr>closure_votes := (closure_votes s)[person := (if close_vote vote then 1 else -1)]\<rparr>)"
  have u: "closure_votes u = (closure_votes s)[person := (if close_vote vote then 1 else -1)]" "closure_expected u = closure_expected s"
    "contacts u = contacts s" "closure_active u = closure_active s" "current_speaker u = current_speaker s"
    by (simp_all add: u_def)
  have s': "s' = vote_outcome person vote u" if "close_vote vote \<or> continue_vote vote"
    using assms(1,2,5) that unfolding closure_vote_def u_def by auto
  show "continue_vote vote \<Longrightarrow> \<not> closure_active s' \<and> current_speaker s' = take (COUNCIL_NAME_LENGTH - 1) (name_of s person)"
    using s' continue_effect [of vote person u] u(3) by (simp add: name_of_def)
  show "\<not> close_vote vote \<Longrightarrow> \<not> continue_vote vote \<Longrightarrow> s' = s" using assms(5) by (simp add: closure_vote_def)
  assume v: "close_vote vote" "\<not> continue_vote vote"
  have "s' = (if closure_complete u then closure_finish u else u)" using s' v by (simp add: vote_outcome_def)
  moreover have "closure_complete u \<longleftrightarrow> (\<forall>i < length (contacts s). closure_expected s ! i \<longrightarrow> i = person \<or> closure_votes s ! i = 1)"
    using p v(1) by (auto simp: closure_complete_def u list_all_iff nth_list_update)
  ultimately show "closure_votes s' = (closure_votes s)[person := 1] \<and>
       (if \<forall>i < length (contacts s). closure_expected s ! i \<longrightarrow> i = person \<or> closure_votes s ! i = 1
        then \<not> closure_active s' \<and> current_speaker s' = [] \<and> activity_until s' = 0
        else closure_active s' \<and> current_speaker s' = current_speaker s)"
    using u assms(1) v(1) finish_effect by simp
qed


lemma propose_keeps_active: "closure_active s \<Longrightarrow> closure_active (snd (closure_propose person reason has_turn (c, s)))"
  by (simp add: closure_propose_def wall_now_def Let_def)

text \<open>The shape of a connection that changes something beyond the note that its sender was seen.\<close>

lemma connection_shape:
  assumes "handle_connection nonce garbage random listener_role c s = (c', s')"
  obtains "s' = s"
  | person c1 where "protocol_accept_identity nonce (contacts s) listener_role c = (Some person, c1)" "s' = mark_seen person s"
  | person c1 line c2 where "protocol_accept_identity nonce (contacts s) listener_role c = (Some person, c1)"
      "network_read_line COUNCIL_MESSAGE_LENGTH c1 = (Some line, c2)"
      "s' = snd (snd (file_command_handle garbage random line person
         (arbitration_can_speak (mark_seen person s) (name_of (mark_seen person s) person)) (c2, mark_seen person s)))"
  | person c1 line c2 where "protocol_accept_identity nonce (contacts s) listener_role c = (Some person, c1)"
      "network_read_line COUNCIL_MESSAGE_LENGTH c1 = (Some line, c2)"
      "(c', s') = handle_command line person
         (arbitration_can_speak (mark_seen person s) (name_of (mark_seen person s) person)) (c2, mark_seen person s)"
proof (cases "protocol_accept_identity nonce (contacts s) listener_role c")
  case (Pair p c1)
  show thesis
  proof (cases p)
    case None
    then show thesis using that(1) assms Pair by (simp add: handle_connection_def)
  next
    case (Some person)
    obtain l c2 where l: "network_read_line COUNCIL_MESSAGE_LENGTH c1 = (l, c2)" by fastforce
    show thesis
    proof (cases l)
      case None
      then show thesis using that(2) [of person c1] assms Pair Some l by (simp add: handle_connection_def Let_def)
    next
      case L: (Some line)
      let ?h = "arbitration_can_speak (mark_seen person s) (name_of (mark_seen person s) person)"
      obtain b st where f: "file_command_handle garbage random line person ?h (c2, mark_seen person s) = (b, st)" by (metis prod.collapse)
      show thesis
      proof (cases b)
        case True
        then have "s' = snd st" using assms Pair Some l L f by (simp add: handle_connection_def Let_def)
        then show thesis using that(3) [of person c1 line c2] Pair Some l L f by simp
      next
        case False
        then have "st = (c2, mark_seen person s)" using f by (auto simp: file_command_handle_def split: if_splits)
        then show thesis using that(4) [of person c1 line c2] assms Pair Some l L f False by (simp add: handle_connection_def Let_def)
      qed
    qed
  qed
qed

lemma accepted_contact: "protocol_accept_identity nonce book expected c = (Some i, c') \<Longrightarrow> i < length book"
  using identity_proved by blast

lemma starts_with_split: "starts_with p s \<Longrightarrow> \<exists>r. s = p @ r"
  unfolding starts_with_def by (metis append_take_drop_id)

text \<open>Only two commands change a proposal.\<close>

lemma command_closure:
  "same_closure s (snd (handle_command line person has_turn (c, s))) \<or>
   starts_with ''END_PROPOSE '' line \<and> snd (handle_command line person has_turn (c, s)) = snd (closure_propose person (drop 12 line) has_turn (c, s)) \<or>
   starts_with ''END_VOTE '' line \<and> snd (handle_command line person has_turn (c, s)) = snd (closure_vote person (drop 9 line) (c, s))"
proof -
  consider r where "line = ''END_PROPOSE '' @ r" | r where "line = ''END_VOTE '' @ r"
    | "\<not> starts_with ''END_PROPOSE '' line" "\<not> starts_with ''END_VOTE '' line" using starts_with_split by blast
  then show ?thesis
  proof cases
    case 1
    then show ?thesis by (simp add: handle_command_def)
  next
    case 2
    then show ?thesis by (simp add: handle_command_def)
  next
    case 3
    then show ?thesis using closure.handle_command_R [of line s person has_turn c] by blast
  qed
qed

lemma mark_seen_closure: "same_closure s (mark_seen i s)"
  by (rule closure.mark_seen_R)

text \<open>C34: A conversation is closed only by its members together: when the handling of a connection ends a running closure
  proposal, the connection is an \<open>END_VOTE\<close> of an authenticated contact whose vote was expected, and either it votes to
  continue and gets the turn, or it votes to close and every other contact whose vote was expected had voted to close;
  in that case nobody has the turn and the lease is given back.\<close>

theorem closure_needs_everyone:
  assumes "handle_connection nonce garbage random listener_role c s = (c', s')" "council_wf s" "closure_active s" "\<not> closure_active s'"
  shows "\<exists>person c1 vote c2. protocol_accept_identity nonce (contacts s) listener_role c = (Some person, c1) \<and>
    network_read_line COUNCIL_MESSAGE_LENGTH c1 = (Some (''END_VOTE '' @ vote), c2) \<and> closure_expected s ! person \<and>
    (continue_vote vote \<and> current_speaker s' = take (COUNCIL_NAME_LENGTH - 1) (name_of s person) \<or>
     close_vote vote \<and> (\<forall>i < length (contacts s). closure_expected s ! i \<longrightarrow> i = person \<or> closure_votes s ! i = 1) \<and>
       current_speaker s' = [] \<and> activity_until s' = 0)"
proof (rule connection_shape [OF assms(1)])
  assume "s' = s"
  then show ?thesis using assms(3,4) by simp
next
  fix person c1
  assume "s' = mark_seen person s"
  then show ?thesis using assms(3,4) mark_seen_closure [of s person] by (simp add: same_closure_def)
next
  fix person line c2
  assume "s' = snd (snd (file_command_handle garbage random line person
         (arbitration_can_speak (mark_seen person s) (name_of (mark_seen person s) person)) (c2, mark_seen person s)))"
  then have "same_closure (mark_seen person s) s'" using closure.file_handle_R [of "(c2, mark_seen person s)"] by (metis snd_conv)
  then show ?thesis using assms(3,4) mark_seen_closure [of s person] by (simp add: same_closure_def)
next
  fix person c1 line c2
  let ?m = "mark_seen person s" and ?h = "arbitration_can_speak (mark_seen person s) (name_of (mark_seen person s) person)"
  assume a: "protocol_accept_identity nonce (contacts s) listener_role c = (Some person, c1)"
    and l: "network_read_line COUNCIL_MESSAGE_LENGTH c1 = (Some line, c2)" and h: "(c', s') = handle_command line person ?h (c2, ?m)"
  have m: "same_closure s ?m" "council_ext s ?m" using mark_seen_closure ext.mark_seen_R by blast+
  then have act: "closure_active ?m" "council_wf ?m" "closure_expected ?m = closure_expected s" "closure_votes ?m = closure_votes s"
    "contacts ?m = contacts s" using assms(2,3) by (simp_all add: same_closure_def council_ext_def)
  have "\<not> same_closure ?m s'" using act(1) assms(4) by (simp add: same_closure_def)
  then consider "starts_with ''END_PROPOSE '' line" "s' = snd (closure_propose person (drop 12 line) ?h (c2, ?m))"
    | "starts_with ''END_VOTE '' line" "s' = snd (closure_vote person (drop 9 line) (c2, ?m))"
    using command_closure [of ?m line person ?h c2] h by (metis snd_conv)
  then show ?thesis
  proof cases
    case 1
    then show ?thesis using propose_keeps_active [OF act(1)] assms(4) by simp
  next
    case 2
    have line: "line = ''END_VOTE '' @ drop 9 line" using starts_with_split [OF 2(1)] by auto
    obtain c3 where v: "closure_vote person (drop 9 line) (c2, ?m) = (c3, s')" using 2(2) by (metis prod.collapse)
    have p: "person < length (contacts s)" using accepted_contact [OF a] .
    have ex: "closure_expected s ! person" "close_vote (drop 9 line) \<or> continue_vote (drop 9 line)"
      using v act(1,3) assms(4) by (auto simp: closure_vote_def split: if_splits)
    note e = vote_effect [OF act(1) _ act(2) _ v, unfolded act(3-5), OF ex(1) p]
    have "name_of ?m = name_of s" using m(2) ext_keeps(3) by blast
    then show ?thesis using a l line ex e assms(4) by (metis (no_types, lifting))
  qed
qed


section \<open>Authentication\<close>

text \<open>C30: Only authenticated contacts change the service: when a connection leaves any trace in the state of the service,
  its first line named a contact of the book that has the role of the listener and carried the keyed hash of that name
  and this connection's nonce under the contact's own key.\<close>

theorem state_change_authenticated:
  assumes "handle_connection nonce garbage random listener_role c s = (c', s')" "s' \<noteq> s"
  shows "\<exists>person line rest. read_line_loop COUNCIL_MESSAGE_LENGTH [] (incoming c) = (Some line, rest) \<and>
    person < length (contacts s) \<and> role (contacts s ! person) = listener_role \<and>
    parse_auth (c_str line) = Some (name_of s person, authentication_digest (shared_key (contacts s ! person)) (name_of s person) nonce)"
proof -
  have "\<exists>person c1. protocol_accept_identity nonce (contacts s) listener_role c = (Some person, c1)"
    by (rule connection_shape [OF assms(1)]) (use assms(2) in auto)
  then show ?thesis using identity_proved unfolding name_of_def by blast
qed

section \<open>An example\<close>

definition sample_council :: Council where
  "sample_council = \<lparr>config = default_config\<lparr>cfg_name := ''eve'', is_hub := True\<rparr>, contacts = [ada, eve], next_index = 0,
     current_speaker = [], online = True # replicate 63 False, last_seen = replicate 64 0, activity_until = 0, closure_id = 0,
     closure_active = False, closure_expected = replicate 64 False, closure_votes = replicate 64 0, closure_proposer = [],
     transcript = fresh_log, inbox = fresh_log, activity = \<lparr>act_path = True, act_writes = True, act_text = None\<rparr>,
     disk = empty_disk, memory = [], wall = 1, ticks = [], peers = (\<lambda>_. []), calls = []\<rparr>"

definition eve_says :: "string \<Rightarrow> Conn" where
  "eve_says line = conn (auth_line ''s3'' ''eve'' ''00'' @ CHR 0x0A # line @ [CHR 0x0A])"

lemma eve_speaks:
  assumes "line_text line" "length line < 8191"
  shows "\<exists>c1 c2. protocol_accept_identity ''00'' [ada, eve] CONTACT_AI (eve_says line) = (Some 1, c1) \<and>
    network_read_line COUNCIL_MESSAGE_LENGTH c1 = (Some line, c2)"
proof -
  have e: "shared_key ([ada, eve] ! 1) = ''s3''" "role ([ada, eve] ! 1) = CONTACT_AI" by (simp_all add: eve_def)
  obtain c1 where a: "protocol_accept_identity ''00'' [ada, eve] CONTACT_AI (eve_says line) = (Some 1, c1)"
    "incoming c1 = line @ CHR 0x0A # []"
    using accept_answer [OF eve_name eve_found, of "eve_says line" "''00''" "line @ [CHR 0x0A]"]
    unfolding e by (auto simp: conn_def eve_says_def)
  have "network_read_line COUNCIL_MESSAGE_LENGTH c1 = (Some line, c1\<lparr>incoming := []\<rparr>)"
    by (rule read_line_line [OF assms(1) _ a(2)]) (use assms(2) in \<open>simp add: COUNCIL_MESSAGE_LENGTH_def\<close>)
  then show ?thesis using a(1) by blast
qed

lemma sample_wf: "council_wf sample_council"
  by (simp add: council_wf_def sample_council_def COUNCIL_MAX_CONTACTS_def COUNCIL_NAME_LENGTH_def)

theorem state_change_authenticated_witness:
  "\<exists>line rest. read_line_loop COUNCIL_MESSAGE_LENGTH [] (incoming (eve_says ''PING'')) = (Some line, rest) \<and>
    (\<exists>person < 2. parse_auth (c_str line) = Some (name_of sample_council person,
      authentication_digest (shared_key ([ada, eve] ! person)) (name_of sample_council person) ''00''))"
proof -
  obtain c1 c2 where e: "protocol_accept_identity ''00'' [ada, eve] CONTACT_AI (eve_says ''PING'') = (Some 1, c1)"
    "network_read_line COUNCIL_MESSAGE_LENGTH c1 = (Some ''PING'', c2)" using eve_speaks [of "''PING''"] by auto
  have k: "contacts sample_council = [ada, eve]" by (simp add: sample_council_def)
  have h: "handle_connection ''00'' [] None CONTACT_AI (eve_says ''PING'') sample_council = (send_line ''PONG'' c2, mark_seen 1 sample_council)"
    using e k by (simp add: handle_connection_def file_command_handle_def handle_command_def)
  have "last_seen (mark_seen 1 sample_council) ! 1 = 1" "last_seen sample_council ! 1 = 0"
    by (simp_all add: mark_seen_def wall_now_def sample_council_def)
  then have "mark_seen 1 sample_council \<noteq> sample_council" by (metis zero_neq_one)
  from state_change_authenticated [OF h this] show ?thesis unfolding k by (auto simp: numeral_2_eq_2)
qed

theorem council_runs_safely_witness:
  "\<exists>t. council_run (council_boot sample_council) t \<and> council_wf t \<and> contacts t = [ada, eve] \<and> last_seen t ! 1 = 1"
proof -
  obtain c1 c2 where e: "protocol_accept_identity ''00'' [ada, eve] CONTACT_AI (eve_says ''PING'') = (Some 1, c1)"
    "network_read_line COUNCIL_MESSAGE_LENGTH c1 = (Some ''PING'', c2)" using eve_speaks [of "''PING''"] by auto
  let ?s = "surrounded [] (\<lambda>_. []) (council_boot sample_council)"
  let ?t = "snd (handle_connection ''00'' [] None CONTACT_AI (eve_says ''PING'') ?s)"
  have k: "contacts sample_council = [ada, eve]" "contacts ?s = [ada, eve]" "wall ?s = 1" "last_seen ?s = replicate 64 0"
    by (simp_all add: sample_council_def surrounded_def council_boot_def arbitration_init_def arbitration_grant_def Let_def)
  have h: "?t = mark_seen 1 ?s" using e k(2) by (simp add: handle_connection_def file_command_handle_def handle_command_def)
  have "last_seen ?t ! 1 = 1" unfolding h using k(3,4) by (simp add: mark_seen_def wall_now_def surrounded_def)
  moreover have r: "council_run (council_boot sample_council) ?t" using run_connection [OF run_start] .
  ultimately show ?thesis using council_runs_safely [OF sample_wf r] k(1) by metis
qed


lemma ada_eve: "name_of s 0 = ''ada''" "name_of s (Suc 0) = ''eve''" if "contacts s = [ada, eve]"
  using that by (simp_all add: name_of_def ada_def eve_def)

lemma sample_names: "contacts sample_council = [ada, eve]" "name_of sample_council 0 = ''ada''" "name_of sample_council 1 = ''eve''"
  using ada_eve [of sample_council] by (simp_all add: sample_council_def)

theorem round_robin_fair_witness:
  "Some 0 \<in> set (grants [(''eve'', True # replicate 63 False), (''eve'', replicate 64 True)] sample_council)"
  using round_robin_fair [of sample_council 0 "[(''eve'', True # replicate 63 False), (''eve'', replicate 64 True)]"] sample_wf
  by (simp add: sample_names COUNCIL_MAX_CONTACTS_def)

theorem say_needs_turn_witness:
  "\<exists>c2. handle_connection ''00'' [] None CONTACT_AI (eve_says ''SAY hi'') (sample_council\<lparr>current_speaker := ''ada''\<rparr>) =
     (send_line ''ERROR NOT_YOUR_TURN'' c2, mark_seen 1 (sample_council\<lparr>current_speaker := ''ada''\<rparr>))"
proof -
  let ?s = "sample_council\<lparr>current_speaker := ''ada''\<rparr>"
  obtain c1 c2 where e: "protocol_accept_identity ''00'' [ada, eve] CONTACT_AI (eve_says ''SAY hi'') = (Some 1, c1)"
    "network_read_line COUNCIL_MESSAGE_LENGTH c1 = (Some (''SAY '' @ ''hi''), c2)" using eve_speaks [of "''SAY hi''"] by auto
  have k: "contacts ?s = [ada, eve]" "name_of ?s 1 = ''eve''" using sample_names by (simp_all add: name_of_def)
  have "current_speaker ?s \<noteq> []" "current_speaker ?s \<noteq> name_of ?s 1" using k(2) by simp_all
  from say_needs_turn [OF e(1) [folded k(1)] e(2) this, of "[]" None] show ?thesis by blast
qed

text \<open>A message of the second contact is broadcast and gives the turn to the first.\<close>

lemma sample_relay: "relay_message 1 ''hi'' sample_council =
  (0, log_transcript ''eve'' ''grant'' ''ada'' (sample_council\<lparr>next_index := 1, current_speaker := ''ada''\<rparr>))"
proof -
  have r: "role ada = CONTACT_HUMAN" "role eve = CONTACT_AI" by (simp_all add: ada_def eve_def)
  have m: "message_target sample_council ''hi'' = (None, False)" by (simp add: message_target_def)
  have f: "fold (relay_step 1 None ''hi'') [0..<length (contacts sample_council)] (None, sample_council) = (None, sample_council)"
    by (simp add: sample_names upt_rec relay_step_def r)
  have n: "arbitration_next ''eve'' sample_council = (Some 0, sample_council\<lparr>next_index := 1, current_speaker := ''ada''\<rparr>)"
  proof -
    have "online sample_council ! 0" "next_index sample_council = 0" by (simp_all add: sample_council_def)
    then show ?thesis
      by (simp add: arbitration_next_def sample_names upt_rec may_take_turn_def turn_index_def arbitration_grant_def COUNCIL_NAME_LENGTH_def Let_def)
  qed
  have k: "contacts (sample_council\<lparr>next_index := 1, current_speaker := ''ada''\<rparr>) = [ada, eve]"
    "cfg_name (config sample_council) = ''eve''" by (simp_all add: sample_council_def)
  show ?thesis unfolding relay_message_def m prod.case relay_start_def option.case
    using f n k sample_names r ada_eve [OF k(1)] by (simp add: relay_choose_def relay_finish_def Let_def)
qed

lemma sample_accept: "fst (relay_message 1 ''hi'' sample_council) = 0"
  "\<exists>c' s'. accept_message 1 ''hi'' ''message'' False (conn [], sample_council) = (c', s') \<and> wall s' = 1"
proof -
  show "fst (relay_message 1 ''hi'' sample_council) = 0" unfolding sample_relay by simp
  show "\<exists>c' s'. accept_message 1 ''hi'' ''message'' False (conn [], sample_council) = (c', s') \<and> wall s' = 1"
    unfolding accept_message_def prod.case sample_relay
    by (simp add: Let_def mark_activity_def activity_mark_def log_transcript_def wall_now_def sample_council_def)
qed

theorem turn_survives_restart_witness:
  "\<exists>c' s'. accept_message 1 ''hi'' ''message'' False (conn [], sample_council) = (c', s') \<and>
     current_speaker s' \<noteq> [] \<and> current_speaker (council_boot s') = current_speaker s'"
proof -
  obtain c' s' where a: "accept_message 1 ''hi'' ''message'' False (conn [], sample_council) = (c', s')" "wall s' = 1"
    using sample_accept(2) by blast
  have c: "is_hub (config sample_council)" "log_path (transcript sample_council)" "log_opens (transcript sample_council)"
    "log_text (transcript sample_council) = []" "cfg_name (config sample_council) = ''eve''" "length (contacts sample_council) = 2"
    by (simp_all add: sample_council_def fresh_log_def)
  have w: "whole_lines (transcript sample_council)" unfolding whole_lines_def c(4) by (rule exI [of _ "[]"]) (simp add: file_lines_def)
  have "log_name ''ada''" "log_name ''eve''"
    by (simp_all add: log_name_def identity_name_def COUNCIL_NAME_LENGTH_def word_text_def c_isspace_def)
  then have n: "\<forall>i < length (contacts sample_council). log_name (name_of sample_council i)" "log_name (cfg_name (config sample_council))"
    using sample_names(2,3) c(5,6) by (simp_all only: less_2_cases_iff) auto
  have "field_text ''hi''" by (simp add: field_text_Cons tab_def)
  then show ?thesis using turn_survives_restart [OF sample_accept(1) a(1) c(1) w c(2,3) n] a c(6) by simp
qed


theorem closure_needs_everyone_witness:
  "\<exists>c' s'. handle_connection ''00'' [] None CONTACT_AI (eve_says ''END_VOTE close'')
     (sample_council\<lparr>closure_active := True, closure_expected := (replicate 64 False)[1 := True]\<rparr>) = (c', s') \<and>
     \<not> closure_active s' \<and> current_speaker s' = []"
proof -
  let ?s = "sample_council\<lparr>closure_active := True, closure_expected := (replicate 64 False)[1 := True]\<rparr>"
  obtain c1 c2 where e: "protocol_accept_identity ''00'' [ada, eve] CONTACT_AI (eve_says ''END_VOTE close'') = (Some 1, c1)"
    "network_read_line COUNCIL_MESSAGE_LENGTH c1 = (Some (''END_VOTE '' @ ''close''), c2)" using eve_speaks [of "''END_VOTE close''"] by auto
  have k: "contacts ?s = [ada, eve]" "council_wf ?s" "closure_active ?s"
    using sample_names sample_wf by (simp_all add: council_wf_def COUNCIL_MAX_CONTACTS_def)
  obtain c' s' where h: "handle_connection ''00'' [] None CONTACT_AI (eve_says ''END_VOTE close'') ?s = (c', s')" by fastforce
  have v: "s' = snd (closure_vote 1 ''close'' (c2, mark_seen 1 ?s))"
    using h e k(1) by (simp add: handle_connection_def file_command_handle_def handle_command_def)
  have m: "closure_active (mark_seen 1 ?s)" "closure_expected (mark_seen 1 ?s) = (replicate 64 False)[1 := True]"
    "contacts (mark_seen 1 ?s) = [ada, eve]" "closure_votes (mark_seen 1 ?s) = replicate 64 0"
    using k(1) by (simp_all add: mark_seen_def wall_now_def Let_def sample_council_def)
  have "\<not> closure_active s'" unfolding v using m
    by (simp add: closure_vote_def close_vote_def continue_vote_def vote_outcome_def closure_complete_def upt_rec finish_effect
        nth_list_update)
  then show ?thesis using closure_needs_everyone [OF h k(2,3)] h e(1) unfolding k(1) e(2)
    by (auto simp: e continue_vote_def)
qed

end
