(* ===== verification/Spec2Isabelle.thy ===== *)
theory Spec2Isabelle
  imports Vm_Isa Iris_Threads Store_Runs Ir_Frames Neo_Link Council_Runs
begin

text \<open>
  A verification development for noobia: the firmware runtime of the ESP32 boards, the firmware of the
  board Iris built on it, the Linux daemon of the paired board Neo, and the Council services that connect
  the people and machines of a household.

  \<^bold>\<open>The program.\<close> A board runs one loop (\<open>NoobRuntimeCore::poll\<close>): it receives lines in the NRP/1 format from its
  transports, a dispatcher answers them, native functions do the work, a small virtual machine runs
  uploaded bytecode that calls the same natives, and background services (sequences of LED patterns,
  sensor threads, the boot self test) get one tick per pass. Iris adds sensors, infrared, a store of
  programs on an SD card, and a bridge to Neo. Neo runs \<open>noob-neod\<close>, a daemon that serves one request per
  TCP connection. The Council is a set of C programs that authenticate each other with a keyed hash,
  pass a turn to speak around and record what is said.

  \<^bold>\<open>State.\<close> The world of a board is an extensible record: \<open>noob_world\<close> (the platform clock as an arbitrary sequence
  of readings) is extended by the virtual machine, the time and sequence services, the self test, the
  transports, the program store, the display bridge. A native function is a function on the world that
  returns a result; failures are values (\<open>NativeResult\<close> with its flag, \<open>option\<close>, or a sum). Words keep their width
  where wrapping matters. An index outside an array is a value None (or Inl) of the model, so that
  theorems of safety say it does not occur.

  \<^bold>\<open>Theories, bottom up.\<close>
  \<^item> \<open>Noob_Prelude\<close>: integer types, the parts of the Arduino and C string library, the clock; generic lemmas and the collections of facts.
  \<^item> \<open>Noob_Record\<close>: records, the ring buffer of records; the locale of a queue that drops its oldest entry.
  \<^item> \<open>Native_Registry\<close>, \<open>Registration\<close>: registering and resolving native functions and capabilities; whole tables at once.
  \<^item> \<open>Noob_VM\<close>, \<open>Vm_Isa\<close>: the bytecode machine with every stack and memory access checked, and its refinement of the documented instruction set.
  \<^item> \<open>Noob_Protocol\<close>, \<open>Command_Dispatcher\<close>: frames and the common commands, with round trips for the commands that carry data.
  \<^item> \<open>Monotonic_Time\<close>, \<open>Noob_Channel\<close>, \<open>Sequence_Service\<close>, \<open>Sequence_Runs\<close>: time, program channels, the pattern player, its reachable states and its termination.
  \<^item> \<open>Thread_Program\<close>, \<open>Sensor_Threads\<close>, \<open>Sensor_Steps\<close>, \<open>Iris_Threads\<close>: the thread programs and the five sensor threads of Iris.
  \<^item> \<open>Self_Test\<close>, \<open>Noob_Transports\<close>, \<open>Runtime_Core\<close>, \<open>Runtime_Frames\<close>, \<open>Runtime_Runs\<close>: the boot self test, the serial and TCP transports, the loop and what a pass keeps.
  \<^item> \<open>Program_Store\<close>, \<open>Store_Safety\<close>, \<open>Store_Runs\<close>: the program store over a file system that is a parameter, every disk state on the way recorded, and its behaviour across power cuts.
  \<^item> \<open>Ir_Decoder\<close>, \<open>Ir_Frames\<close>: the decoder of infrared frames.
  \<^item> \<open>C_Text\<close>, \<open>Neod\<close>, \<open>Neo_Natives\<close>, \<open>Neo_Runs\<close>: the daemon of Neo with the answers of its operating system as part of the state, its runs under arbitrary clients.
  \<^item> \<open>Neo_Bridge\<close>, \<open>Neo_Link\<close>: the bridge of Iris to Neo, and both programs together over a transport of lines.
  \<^item> \<open>Sha256\<close>: the hash of the Council and its equivalence with the standard.
  \<^item> \<open>Council_Book\<close>: the contact file (\<open>contact_book.c\<close>) and its round trip.
  \<^item> \<open>Council_Auth\<close>: nonces, digests and both sides of the handshake (\<open>authentication.c\<close>, \<open>protocol.c\<close>, \<open>presence.c\<close>, the readers of \<open>network.c\<close>).
  \<^item> \<open>Council_Logs\<close>: the transcript, the lease file, the memory rebuilt at start and the configuration (\<open>transcript.c\<close>, \<open>conversation_activity.c\<close>, \<open>conversation_memory.c\<close>, \<open>service_config.c\<close>).
  \<^item> \<open>Council_Files\<close>: sending, storing and forwarding files (\<open>file_storage.c\<close>) over a disk whose operations may fail.
  \<^item> \<open>Council_Service\<close>, \<open>Council_Runs\<close>: turns, relaying, presence, the lease, closing a conversation and the file commands (\<open>arbitration.c\<close>,
    \<open>council_service.c\<close>, \<open>file_commands.c\<close>); what every connection keeps, authentication of every change, fairness of turns, the
    lease, unanimous closing and the turn after a restart. A connection is handled as one step, with any peers and any passing of time.

  \<^bold>\<open>Interfaces.\<close> Locales state what one part promises another and are interpreted on the model: the drop-oldest queue (the
  ring of records and the ring of scancodes), the registries a native call may reach, the place of a
  thread object, the source of a sampling thread, the file system (with its faulty and its reliable
  form), the transport of lines between Iris and Neo, and the relations that the single updates of
  the Council service keep, which then hold for all its commands.

  \<^bold>\<open>Bounds.\<close> No theorem depends on a bound chosen for the model. Loops of the source are recursions with a termination
  proof; the array sizes are those of the source. A machine runs at most its instruction budget per
  tick. Where the source has no bound of its own (lines of a client, contents of the pipe of the
  scanner), the model takes the whole list of bytes that arrive.

  \<^bold>\<open>Parameters.\<close> The platform clock, the file system of the SD card, the network stack below the bridge, the answers of
  the operating system to the daemon, the random bytes, the passing of time, the disk outcomes and the peers of a Council service. Their documented behaviour appears as the assumptions of the locales above,
  and every property that relies on them has a witness with a concrete instance.

  \<^bold>\<open>Not modelled.\<close> The drivers that only hand values to a vendor library (camera, microphone, Wi-Fi, SD card, BLE and NimBLE
  transports, the USB network stack, the LED drivers), because what they compute is decided by hardware
  and libraries outside the repository; the shell, Node and Python tools, the installers and the
  hardware diagnostics, which are scripts around other programs; the camera, projector, voice and light
  tools of Rose, which start other programs and exchange messages with devices; the web server of Wisp
  and the web page of the Council, which serve pages. The manifest lists each of them with its reason.
\<close>

end
